(* ===== verification/Prelude.thy ===== *)
theory Prelude
  imports Main "HOL-Library.Word" "HOL-Library.Multiset"
begin

text \<open>
  Shared vocabulary of the development.

  Go's machine types are words: \<open>byte\<close>, \<open>uint32\<close>, \<open>uint64\<close> and \<open>int64\<close> (the same
  64 bits read by \<open>sint\<close>). A Go \<open>string\<close> is a sequence of bytes and is modelled as a HOL
  \<open>string\<close>, whose characters are exactly the 256 byte values. A \<open>time.Time\<close> is the number
  of nanoseconds since the Unix epoch; its location and monotonic reading are not modelled.

  A Go function that returns \<open>(T, error)\<close> and may also panic has an \<open>outcome\<close>. An error is
  the format string and the arguments that the source passes to \<open>fmt.Errorf\<close>, so two errors
  are equal exactly when the source builds them from the same pieces.

  Code that changes state is a computation \<open>'s \<Rightarrow> 'a outcome \<times> 's\<close>: \<open>andThen\<close> is the
  \<open>if err != nil { return err }\<close> that follows every call in the source, and \<open>deferred\<close> is
  Go's \<open>defer\<close>, which runs on a normal return, on an error return and on a panic.
\<close>

unbundle bit_operations_syntax

type_synonym byte = "8 word"
type_synonym bytes = "byte list"
type_synonym uint32 = "32 word"
type_synonym uint64 = "64 word"
type_synonym int64 = "64 word"
type_synonym go_time = int

named_theorems wire_simps \<open>evaluation of the wire format on its own encodings\<close>
named_theorems heap_intros \<open>computations that leave the guest heap as they found it\<close>

section \<open>Errors and outcomes\<close>

datatype go_error =
    ErrEmptyCommit
  | WasmErr string
  | Errorf string "go_arg list"
and go_arg = AInt int | AStr string | AErr go_error

datatype 'a outcome = Ok 'a | Error go_error | Panic go_error

fun is_ok :: "'a outcome \<Rightarrow> bool" where
  "is_ok (Ok _) = True"
| "is_ok (Error _) = False"
| "is_ok (Panic _) = False"

fun map_outcome_of :: "('a \<Rightarrow> 'b) \<Rightarrow> 'a outcome \<Rightarrow> 'b outcome" where
  "map_outcome_of f (Ok x) = Ok (f x)"
| "map_outcome_of f (Error e) = Error e"
| "map_outcome_of f (Panic p) = Panic p"

fun and_then :: "'a outcome \<Rightarrow> ('a \<Rightarrow> 'b outcome) \<Rightarrow> 'b outcome" where
  "and_then (Ok x) f = f x"
| "and_then (Error e) f = Error e"
| "and_then (Panic p) f = Panic p"

lemma and_then_eq_Ok [simp]: "and_then r f = Ok y \<longleftrightarrow> (\<exists>x. r = Ok x \<and> f x = Ok y)"
  by (cases r) auto

lemma is_ok_iff: "is_ok r \<longleftrightarrow> (\<exists>x. r = Ok x)"
  by (cases r) auto

section \<open>Stateful computations\<close>

type_synonym ('s, 'a) comp = "'s \<Rightarrow> 'a outcome \<times> 's"

definition ret :: "'a \<Rightarrow> ('s, 'a) comp" where
  "ret x = (\<lambda>s. (Ok x, s))"

definition fail :: "go_error \<Rightarrow> ('s, 'a) comp" where
  "fail e = (\<lambda>s. (Error e, s))"

definition panic :: "go_error \<Rightarrow> ('s, 'a) comp" where
  "panic e = (\<lambda>s. (Panic e, s))"

definition andThen :: "('s, 'a) comp \<Rightarrow> ('a \<Rightarrow> ('s, 'b) comp) \<Rightarrow> ('s, 'b) comp" where
  "andThen m f = (\<lambda>s. case m s of
     (Ok x, s') \<Rightarrow> f x s'
   | (Error e, s') \<Rightarrow> (Error e, s')
   | (Panic p, s') \<Rightarrow> (Panic p, s'))"

definition deferred :: "('s \<Rightarrow> 's) \<Rightarrow> ('s, 'a) comp \<Rightarrow> ('s, 'a) comp" where
  "deferred cleanup m = (\<lambda>s. case m s of (r, s') \<Rightarrow> (r, cleanup s'))"

definition lift :: "'a outcome \<Rightarrow> ('s, 'a) comp" where
  "lift r = (\<lambda>s. (r, s))"

text \<open>A computation that keeps the value of an observation of the state, whatever it returns.\<close>

definition keeps :: "('s \<Rightarrow> 'o) \<Rightarrow> ('s, 'a) comp \<Rightarrow> bool" where
  "keeps obs m \<longleftrightarrow> (\<forall>s. obs (snd (m s)) = obs s)"

lemma keepsI: "(\<And>s. obs (snd (m s)) = obs s) \<Longrightarrow> keeps obs m"
  by (simp add: keeps_def)

lemma keepsD: "keeps obs m \<Longrightarrow> obs (snd (m s)) = obs s"
  by (simp add: keeps_def)

lemma keeps_ret [heap_intros]: "keeps obs (ret x)"
  and keeps_fail [heap_intros]: "keeps obs (fail e)"
  and keeps_panic [heap_intros]: "keeps obs (panic e)"
  and keeps_lift [heap_intros]: "keeps obs (lift r)"
  by (simp_all add: keeps_def ret_def fail_def panic_def lift_def)

lemma keeps_andThen [heap_intros]:
  assumes "keeps obs m" and "\<And>x. keeps obs (f x)"
  shows "keeps obs (andThen m f)"
proof (rule keepsI)
  fix s
  show "obs (snd (andThen m f s)) = obs s"
    using keepsD [OF assms(1), of s] keepsD [OF assms(2)]
    by (auto simp: andThen_def split: prod.splits outcome.splits)
qed

lemma keeps_if [heap_intros]: "keeps obs a \<Longrightarrow> keeps obs b \<Longrightarrow> keeps obs (if c then a else b)"
  by simp

lemma keeps_case_prod [heap_intros]: "(\<And>x y. keeps obs (f x y)) \<Longrightarrow> keeps obs (case_prod f p)"
  by (cases p) simp

lemma andThen_ret [simp]: "andThen (ret x) f = f x"
  by (simp add: andThen_def ret_def)

lemma andThen_fail [simp]: "andThen (fail e) f = fail e"
  by (simp add: andThen_def fail_def)

lemma andThen_panic [simp]: "andThen (panic e) f = panic e"
  by (simp add: andThen_def panic_def)

lemma andThen_Ok: "m s = (Ok x, s') \<Longrightarrow> andThen m f s = f x s'"
  and andThen_Error: "m s = (Error e, s') \<Longrightarrow> andThen m f s = (Error e, s')"
  and andThen_Panic: "m s = (Panic e, s') \<Longrightarrow> andThen m f s = (Panic e, s')"
  by (simp_all add: andThen_def)

lemma deferred_apply: "m s = (r, s') \<Longrightarrow> deferred c m s = (r, c s')"
  by (simp add: deferred_def)

section \<open>Lists\<close>

lemma take_append_exact [simp]: "length xs = n \<Longrightarrow> take n (xs @ ys) = xs"
  by simp

lemma drop_append_exact [simp]: "length xs = n \<Longrightarrow> drop n (xs @ ys) = ys"
  by simp

lemma length_Suc_drop_less: "0 < n \<Longrightarrow> xs \<noteq> [] \<Longrightarrow> length (drop n xs) < length xs"
  by simp

lemma take4_nth: "4 \<le> length xs \<Longrightarrow> take 4 xs = [xs ! 0, xs ! 1, xs ! 2, xs ! 3]"
  by (intro nth_equalityI) (auto simp: less_Suc_eq numeral_eq_Suc)

section \<open>Words\<close>

lemma unat_word_of_nat_less: "n < 2 ^ LENGTH('a) \<Longrightarrow> unat (word_of_nat n :: 'a::len word) = n"
  by (simp add: unat_of_nat)

lemma unat_add_of_nat:
  assumes "a + b < 2 ^ LENGTH('a)"
  shows "unat (word_of_nat a + word_of_nat b :: 'a::len word) = a + b"
  using unat_word_of_nat_less [OF assms] by (simp only: of_nat_add)

section \<open>Strings and bytes\<close>

definition str_bytes :: "string \<Rightarrow> bytes" where
  "str_bytes s = map (\<lambda>c. word_of_nat (of_char c)) s"

definition bytes_str :: "bytes \<Rightarrow> string" where
  "bytes_str b = map (\<lambda>x. char_of (unat x)) b"

lemma length_str_bytes [simp]: "length (str_bytes s) = length s"
  by (simp add: str_bytes_def)

lemma length_bytes_str [simp]: "length (bytes_str b) = length b"
  by (simp add: bytes_str_def)

lemma unat_byte_lt [simp]: "unat (b :: byte) < 256"
  using unsigned_less [of b, where 'a = nat] by simp

lemma unat_byte_mod [simp]: "unat (b :: byte) mod 256 = unat b"
  by simp

lemma unat_byte_of_char [simp]: "unat (word_of_nat (of_char c) :: byte) = of_char c"
  by (simp add: unat_of_nat)

lemma bytes_str_str_bytes [simp]: "bytes_str (str_bytes s) = s"
  by (simp add: bytes_str_def str_bytes_def comp_def)

lemma str_bytes_bytes_str [simp]: "str_bytes (bytes_str b) = b"
  by (simp add: bytes_str_def str_bytes_def comp_def map_idI)

lemma str_bytes_inject [simp]: "str_bytes a = str_bytes b \<longleftrightarrow> a = b"
  by (metis bytes_str_str_bytes)

lemma str_bytes_eq_Nil [simp]: "str_bytes s = [] \<longleftrightarrow> s = []"
  by (simp add: str_bytes_def)

end
