(* ===== verification/Bytes.thy ===== *)
theory Bytes
  imports Prelude
begin

text \<open>
  Byte-level building blocks: the little-endian integers of \<open>encoding/binary\<close> and the
  hexadecimal text of \<open>encoding/hex\<close>, both part of Go's standard library, and the two
  interfaces the codecs are built on.

  The locale \<open>fixed_codec\<close> is the contract of a fixed-width integer encoding. The locale
  \<open>framing\<close> is the contract of a self-delimiting encoding, one whose items can be written
  one after the other and cut apart again; its client lemmas, proved once, are that a stream
  of encoded items parses to exactly these items and that a parse never invents bytes.
\<close>

section \<open>Little-endian integers\<close>

definition le_put :: "nat \<Rightarrow> 'a::len word \<Rightarrow> bytes" where
  "le_put n v = map (\<lambda>i. ucast (drop_bit (8 * i) v)) [0..<n]"

fun le_get :: "bytes \<Rightarrow> 'a::len word" where
  "le_get [] = 0"
| "le_get (b # bs) = ucast b OR push_bit 8 (le_get bs)"

definition PutUint32 :: "uint32 \<Rightarrow> bytes" where
  "PutUint32 v = le_put 4 v"

definition PutUint64 :: "uint64 \<Rightarrow> bytes" where
  "PutUint64 v = le_put 8 v"

definition Uint32 :: "bytes \<Rightarrow> uint32" where
  "Uint32 b = le_get (take 4 b)"

definition Uint64 :: "bytes \<Rightarrow> uint64" where
  "Uint64 b = le_get (take 8 b)"

lemma length_le_put [simp]: "length (le_put n v) = n"
  by (simp add: le_put_def)

lemma length_PutUint32 [simp]: "length (PutUint32 v) = 4"
  and length_PutUint64 [simp]: "length (PutUint64 w) = 8"
  by (simp_all add: PutUint32_def PutUint64_def)

lemma PutUint32_nonempty [simp]: "PutUint32 v \<noteq> []"
  by (rule length_greater_0_conv [THEN iffD1]) simp

lemma le_put_0 [simp]: "le_put 0 v = []"
  by (simp add: le_put_def)

lemma le_put_Suc: "le_put (Suc n) v = ucast v # le_put n (drop_bit 8 v)"
proof -
  have "map (\<lambda>i. ucast (drop_bit (8 * i) v) :: byte) [0..<Suc n]
      = ucast (drop_bit 0 v) # map (\<lambda>i. ucast (drop_bit (8 * Suc i) v)) [0..<n]"
    by (simp add: upt_conv_Cons map_Suc_upt [symmetric] comp_def del: upt_Suc)
  also have "\<dots> = ucast v # map (\<lambda>i. ucast (drop_bit (8 * i) (drop_bit 8 v))) [0..<n]"
    by (simp add: add.commute)
  finally show ?thesis by (simp add: le_put_def)
qed

lemma le_get_le_put: "LENGTH('a) \<le> 8 * n \<Longrightarrow> le_get (le_put n v) = (v :: 'a::len word)"
proof -
  have "le_get (le_put n v) = take_bit (8 * n) v" for n and v :: "'a word"
  proof (induction n arbitrary: v)
    case 0
    then show ?case by simp
  next
    case (Suc n)
    show ?case
      by (rule bit_word_eqI) (auto simp: le_put_Suc Suc bit_simps)
  qed
  then show "LENGTH('a) \<le> 8 * n \<Longrightarrow> ?thesis" by (simp add: take_bit_word_eq_self)
qed

lemma ucast_byte_low: "ucast ((ucast (b :: byte) :: 'a::len word) OR push_bit 8 w) = b"
  if "8 \<le> LENGTH('a)"
  by (rule bit_word_eqI) (use that in \<open>auto simp: bit_simps\<close>)

lemma drop_byte_low: "drop_bit 8 ((ucast (b :: byte) :: 'a::len word) OR push_bit 8 w) = take_bit (LENGTH('a) - 8) w"
  by (rule bit_word_eqI) (auto simp: bit_simps dest: bit_imp_le_length)

lemma bit_le_get_bound: "bit (le_get bs :: 'a::len word) i \<Longrightarrow> i < 8 * length bs"
proof (induction bs arbitrary: i)
  case (Cons b bs)
  from Cons.prems have "i < 8 \<or> bit (le_get bs :: 'a word) (i - 8)"
    by (auto simp: bit_simps dest: bit_imp_le_length)
  then show ?case using Cons.IH [of "i - 8"] by auto
qed simp

lemma take_bit_le_get: "8 * length bs \<le> n \<Longrightarrow> take_bit n (le_get bs :: 'a::len word) = le_get bs"
  by (rule bit_word_eqI) (auto simp: bit_simps dest: bit_le_get_bound)

lemma le_put_get: "8 * length bs \<le> LENGTH('a) \<Longrightarrow> le_put (length bs) (le_get bs :: 'a::len word) = bs"
proof (induction bs)
  case (Cons b bs)
  then have "take_bit (LENGTH('a) - 8) (le_get bs :: 'a word) = le_get bs"
    by (intro take_bit_le_get) simp
  then have "drop_bit 8 (le_get (b # bs) :: 'a word) = le_get bs"
    by (simp only: le_get.simps drop_byte_low)
  moreover have "ucast (le_get (b # bs) :: 'a word) = b"
    unfolding le_get.simps by (rule ucast_byte_low) (use Cons.prems in simp)
  ultimately show ?case using Cons by (simp only: list.size le_put_Suc add_Suc_right) simp
qed simp

section \<open>Fixed-width and self-delimiting encodings\<close>

locale framing =
  fixes enc :: "'a \<Rightarrow> bytes" and dec :: "bytes \<Rightarrow> ('a \<times> bytes) option" and ok :: "'a \<Rightarrow> bool"
  assumes dec_enc: "ok x \<Longrightarrow> dec (enc x @ rest) = Some (x, rest)"
    and dec_inv: "dec bs = Some (x, rest) \<Longrightarrow> ok x \<and> bs = enc x @ rest"
    and enc_nonempty: "ok x \<Longrightarrow> enc x \<noteq> []"
begin

lemma dec_shorter: "dec bs = Some (x, rest) \<Longrightarrow> length rest < length bs"
  using dec_inv [of bs x rest] enc_nonempty [of x] by (cases "enc x") auto

lemma dec_Nil: "dec [] = None"
  using dec_shorter [of "[]"] by (cases "dec []") auto

lemma enc_prefix_free: "ok x \<Longrightarrow> ok y \<Longrightarrow> enc x @ r = enc y @ r' \<Longrightarrow> x = y \<and> r = r'"
  by (metis dec_enc option.inject prod.inject)

lemma stream_inject:
  assumes "list_all ok xs" and "list_all ok ys" and "concat (map enc xs) = concat (map enc ys)"
  shows "xs = ys"
  using assms
proof (induction xs arbitrary: ys)
  case Nil
  then show ?case by (cases ys) (auto dest: enc_nonempty)
next
  case (Cons x xs)
  then obtain y ys' where ys: "ys = y # ys'"
    by (cases ys) (auto dest: enc_nonempty)
  with Cons.prems have "x = y \<and> concat (map enc xs) = concat (map enc ys')"
    by (intro enc_prefix_free) auto
  with Cons ys show ?case by simp
qed

end

locale framed_stream = framing +
  fixes parse :: "bytes \<Rightarrow> 'a list"
  assumes parse_Some: "dec bs = Some (x, rest) \<Longrightarrow> parse bs = x # parse rest"
    and parse_None: "dec bs = None \<Longrightarrow> parse bs = []"
begin

lemma parse_stream: "list_all ok xs \<Longrightarrow> dec tail = None \<Longrightarrow> parse (concat (map enc xs) @ tail) = xs"
  by (induction xs) (auto simp: parse_None parse_Some [OF dec_enc])

lemma parse_encoded: "list_all ok xs \<Longrightarrow> parse (concat (map enc xs)) = xs"
  using parse_stream [of xs "[]"] by (simp add: dec_Nil)

lemma parse_sound:
  "\<exists>tail. bs = concat (map enc (parse bs)) @ tail \<and> dec tail = None \<and> list_all ok (parse bs)"
proof (induction bs rule: length_induct)
  case (1 bs)
  show ?case
  proof (cases "dec bs")
    case None
    then show ?thesis by (simp add: parse_None)
  next
    case (Some p)
    then obtain x rest where p: "dec bs = Some (x, rest)" by (cases p) auto
    obtain tail where t: "rest = concat (map enc (parse rest)) @ tail" "dec tail = None"
        "list_all ok (parse rest)"
      using "1.IH" dec_shorter [OF p] by blast
    have x: "ok x" "bs = enc x @ rest" using dec_inv [OF p] by auto
    have "enc x @ rest = enc x @ (concat (map enc (parse rest)) @ tail)"
      using t(1) by (rule arg_cong)
    then have "bs = concat (map enc (parse bs)) @ tail"
      unfolding parse_Some [OF p] x(2) [symmetric] by simp
    moreover have "list_all ok (parse bs)"
      using t(3) x(1) by (simp add: parse_Some [OF p])
    ultimately show ?thesis using t(2) by blast
  qed
qed

end

locale fixed_codec =
  fixes width :: nat and put :: "'a \<Rightarrow> bytes" and get :: "bytes \<Rightarrow> 'a"
  assumes width_pos: "0 < width"
    and length_put: "length (put v) = width"
    and get_put: "get (put v @ rest) = v"
    and put_get: "width \<le> length bs \<Longrightarrow> put (get bs) = take width bs"
begin

lemma get_put_exact: "get (put v) = v"
  using get_put [of v "[]"] by simp

lemma put_inject: "put v = put w \<longleftrightarrow> v = w"
  by (metis get_put_exact)

definition dec_fixed :: "bytes \<Rightarrow> ('a \<times> bytes) option" where
  "dec_fixed bs = (if length bs < width then None else Some (get bs, drop width bs))"

end

sublocale fixed_codec \<subseteq> framed: framing put dec_fixed "\<lambda>_. True"
proof
  fix v rest
  show "dec_fixed (put v @ rest) = Some (v, rest)"
    by (simp add: dec_fixed_def length_put get_put)
  show "put v \<noteq> []"
    using length_put [of v] width_pos by auto
next
  fix bs v rest
  assume "dec_fixed bs = Some (v, rest)"
  then show "True \<and> bs = put v @ rest"
    by (auto simp: dec_fixed_def put_get split: if_splits)
qed

interpretation le32: fixed_codec 4 PutUint32 Uint32
proof
  show "Uint32 (PutUint32 v @ rest) = v" for v rest
    by (simp add: Uint32_def PutUint32_def le_get_le_put)
  show "4 \<le> length bs \<Longrightarrow> PutUint32 (Uint32 bs) = take 4 bs" for bs
    using le_put_get [of "take 4 bs", where 'a = 32]
    by (simp add: Uint32_def PutUint32_def min_absorb2)
qed simp_all

interpretation le64: fixed_codec 8 PutUint64 Uint64
proof
  show "Uint64 (PutUint64 v @ rest) = v" for v rest
    by (simp add: Uint64_def PutUint64_def le_get_le_put)
  show "8 \<le> length bs \<Longrightarrow> PutUint64 (Uint64 bs) = take 8 bs" for bs
    using le_put_get [of "take 8 bs", where 'a = 64]
    by (simp add: Uint64_def PutUint64_def min_absorb2)
qed simp_all

lemmas le_codec [wire_simps, simp] =
  le32.get_put le32.get_put_exact le64.get_put le64.get_put_exact

section \<open>Hexadecimal text\<close>

definition hextable :: string where
  "hextable = ''0123456789abcdef''"

definition fromHexChar :: "char \<Rightarrow> nat option" where
  "fromHexChar c = (let n = (of_char c :: nat) in
     if 48 \<le> n \<and> n \<le> 57 then Some (n - 48)
     else if 97 \<le> n \<and> n \<le> 102 then Some (n - 97 + 10)
     else if 65 \<le> n \<and> n \<le> 70 then Some (n - 65 + 10)
     else None)"

definition InvalidByteError :: "char \<Rightarrow> go_error" where
  "InvalidByteError c = Errorf ''encoding/hex: invalid byte: %#U'' [AInt (of_char c)]"

definition ErrLength :: go_error where
  "ErrLength = Errorf ''encoding/hex: odd length hex string'' []"

fun hex_DecodeString :: "string \<Rightarrow> bytes outcome" where
  "hex_DecodeString [] = Ok []"
| "hex_DecodeString [p] =
     (if fromHexChar p = None then Error (InvalidByteError p) else Error ErrLength)"
| "hex_DecodeString (p # q # s) =
     (case fromHexChar p of
        None \<Rightarrow> Error (InvalidByteError p)
      | Some a \<Rightarrow> (case fromHexChar q of
          None \<Rightarrow> Error (InvalidByteError q)
        | Some b \<Rightarrow> map_outcome_of (Cons (word_of_nat (16 * a + b))) (hex_DecodeString s)))"

definition hex_EncodeToString :: "bytes \<Rightarrow> string" where
  "hex_EncodeToString b = concat (map (\<lambda>x. [hextable ! (unat x div 16), hextable ! (unat x mod 16)]) b)"

lemma fromHexChar_hextable: "n < 16 \<Longrightarrow> fromHexChar (hextable ! n) = Some n"
proof -
  have "\<forall>n \<in> set [0..<16]. fromHexChar (hextable ! n) = Some n"
    by code_simp
  then show "n < 16 \<Longrightarrow> ?thesis" by simp
qed

lemma hex_Decode_Encode: "hex_DecodeString (hex_EncodeToString b) = Ok b"
proof (induction b)
  case Nil
  then show ?case by (simp add: hex_EncodeToString_def)
next
  case (Cons x b)
  have "unat x div 16 < 16" by (rule less_mult_imp_div_less) simp
  moreover have "(word_of_nat (16 * (unat x div 16) + unat x mod 16) :: byte) = x" by simp
  ultimately show ?case
    using Cons by (simp add: hex_EncodeToString_def fromHexChar_hextable)
qed

lemma length_hex_EncodeToString: "length (hex_EncodeToString b) = 2 * length b"
  by (induction b) (simp_all add: hex_EncodeToString_def)

lemma hex_DecodeString_length: "hex_DecodeString s = Ok b \<Longrightarrow> length s = 2 * length b"
proof (induction s arbitrary: b rule: hex_DecodeString.induct)
  case (3 p q s)
  then show ?case
    by (cases "hex_DecodeString s") (auto split: option.splits)
qed (auto split: if_splits)

end
