(* ===== verification/Codec.thy ===== *)
theory Codec
  imports Bytes
begin

text \<open>
  The value protocol of \<open>internal/backend/backend.go\<close>: kinds, tags, handles, the encoders
  that turn a Go value into a tag and a payload, \<open>DecodeValue\<close> and \<open>DecodeValueList\<close>, and
  the list formats used for change hashes, raw changes and change metadata. Go's 64-bit
  \<open>int\<close> never overflows in the offsets computed here, because every length that enters them
  was read from 32 bits, so offsets are natural numbers and a slice \<open>data[off:]\<close> is the list
  that remains.
\<close>

section \<open>Kinds, handles, values\<close>

type_synonym ObjHandle = uint32

definition RootObjHandle :: ObjHandle where "RootObjHandle = 0"

definition InvalidObjHandle :: ObjHandle where "InvalidObjHandle = 0xFFFFFFFF"

text \<open>
  \<open>type Kind uint\<close> with fourteen named values; \<open>KindNum n\<close> stands for any other number.
\<close>

datatype Kind =
    KindVoid | KindBool | KindBytes | KindCounter | KindFloat64 | KindInt64 | KindUint64
  | KindNull | KindStr | KindTime | KindUnknown | KindMap | KindList | KindText
  | KindNum nat

fun dec_digits :: "nat \<Rightarrow> string" where
  "dec_digits n = (if n < 10 then [char_of (48 + n)]
     else dec_digits (n div 10) @ [char_of (48 + n mod 10)])"

declare dec_digits.simps [simp del]

fun Kind_String :: "Kind \<Rightarrow> string" where
  "Kind_String KindVoid = ''KindVoid''"
| "Kind_String KindBool = ''KindBool''"
| "Kind_String KindBytes = ''KindBytes''"
| "Kind_String KindCounter = ''KindCounter''"
| "Kind_String KindFloat64 = ''KindFloat64''"
| "Kind_String KindInt64 = ''KindInt64''"
| "Kind_String KindUint64 = ''KindUint64''"
| "Kind_String KindNull = ''KindNull''"
| "Kind_String KindStr = ''KindStr''"
| "Kind_String KindTime = ''KindTime''"
| "Kind_String KindUnknown = ''KindUnknown''"
| "Kind_String KindMap = ''KindMap''"
| "Kind_String KindList = ''KindList''"
| "Kind_String KindText = ''KindText''"
| "Kind_String (KindNum n) = ''Kind('' @ dec_digits n @ '')''"

text \<open>The primitive contents of Go's \<open>any\<close>. A float is its IEEE 754 bit pattern.\<close>

datatype prim =
    VNil
  | VBool bool
  | VStr string
  | VBytes bytes
  | VInt64 int64
  | VUint64 uint64
  | VFloat64 uint64
  | VTime go_time

record BackendValue =
  bv_Kind :: Kind
  bv_Val :: prim
  bv_Obj :: ObjHandle

section \<open>Change hashes\<close>

text \<open>\<open>type ChangeHash [32]byte\<close>: a list of bytes, of length 32 wherever Go has built it.\<close>

type_synonym ChangeHash = bytes

definition wf_hash :: "ChangeHash \<Rightarrow> bool" where
  "wf_hash h \<longleftrightarrow> length h = 32"

definition zero_hash :: ChangeHash where
  "zero_hash = replicate 32 0"

definition ChangeHash_String :: "ChangeHash \<Rightarrow> string" where
  "ChangeHash_String ch = hex_EncodeToString ch"

definition NewChangeHash :: "string \<Rightarrow> ChangeHash outcome" where
  "NewChangeHash s = and_then (hex_DecodeString s) (\<lambda>b.
     if length b \<noteq> 32
     then Error (Errorf ''automerge.NewChangeHash: expected 32 bytes, got %v'' [AInt (int (length b))])
     else Ok b)"

record ChangeInfo =
  ci_Hash :: ChangeHash
  ci_Timestamp :: go_time
  ci_Seq :: uint64
  ci_ActorID :: string
  ci_Message :: string
  ci_Deps :: "ChangeHash list"

section \<open>Time\<close>

text \<open>
  \<open>time.UnixMilli\<close> and \<open>Time.UnixMilli\<close> of the standard library, on nanoseconds since the
  epoch; the method truncates to the millisecond below and its result has 64 bits.
\<close>

definition time_UnixMilli :: "int64 \<Rightarrow> go_time" where
  "time_UnixMilli ms = sint ms * 1000000"

definition Time_UnixMilli :: "go_time \<Rightarrow> int64" where
  "Time_UnixMilli t = word_of_int (t div 1000000)"

text \<open>The zero \<open>time.Time\<close> is midnight of 1 January of the year 1.\<close>

definition zero_time :: go_time where
  "zero_time = - 62135596800 * 1000000000"

definition Time_IsZero :: "go_time \<Rightarrow> bool" where
  "Time_IsZero t \<longleftrightarrow> t = zero_time"

section \<open>Tags and encoders\<close>

definition TagNull :: byte where "TagNull = 0x00"

definition TagBool :: byte where "TagBool = 0x01"

definition TagInt64 :: byte where "TagInt64 = 0x02"

definition TagUint64 :: byte where "TagUint64 = 0x03"

definition TagFloat64 :: byte where "TagFloat64 = 0x04"

definition TagString :: byte where "TagString = 0x05"

definition TagBytes :: byte where "TagBytes = 0x06"

definition TagCounter :: byte where "TagCounter = 0x07"

definition TagTimestamp :: byte where "TagTimestamp = 0x08"

definition TagMap :: byte where "TagMap = 0x09"

definition TagList :: byte where "TagList = 0x0A"

definition TagText :: byte where "TagText = 0x0B"

definition TagVoid :: byte where "TagVoid = 0xFF"

lemmas tag_defs = TagNull_def TagBool_def TagInt64_def TagUint64_def TagFloat64_def
  TagString_def TagBytes_def TagCounter_def TagTimestamp_def TagMap_def TagList_def
  TagText_def TagVoid_def

definition EncodeNull :: "byte \<times> bytes" where
  "EncodeNull = (TagNull, [])"

definition EncodeBool :: "bool \<Rightarrow> byte \<times> bytes" where
  "EncodeBool v = (if v then (TagBool, [1]) else (TagBool, [0]))"

definition EncodeStr :: "string \<Rightarrow> byte \<times> bytes" where
  "EncodeStr v = (TagString, str_bytes v)"

definition EncodeBytes :: "bytes \<Rightarrow> byte \<times> bytes" where
  "EncodeBytes v = (TagBytes, v)"

definition EncodeInt64 :: "int64 \<Rightarrow> byte \<times> bytes" where
  "EncodeInt64 v = (TagInt64, PutUint64 v)"

definition EncodeUint64 :: "uint64 \<Rightarrow> byte \<times> bytes" where
  "EncodeUint64 v = (TagUint64, PutUint64 v)"

definition EncodeFloat64 :: "uint64 \<Rightarrow> byte \<times> bytes" where
  "EncodeFloat64 v = (TagFloat64, PutUint64 v)"

definition EncodeTimestamp :: "go_time \<Rightarrow> byte \<times> bytes" where
  "EncodeTimestamp v = (TagTimestamp, PutUint64 (Time_UnixMilli v))"

definition EncodeCounter :: "int64 \<Rightarrow> byte \<times> bytes" where
  "EncodeCounter v = (TagCounter, PutUint64 v)"

lemmas Encode_defs = EncodeNull_def EncodeBool_def EncodeStr_def EncodeBytes_def
  EncodeInt64_def EncodeUint64_def EncodeFloat64_def EncodeTimestamp_def EncodeCounter_def

section \<open>Decoding tagged values\<close>

definition bval :: "Kind \<Rightarrow> prim \<Rightarrow> BackendValue" where
  "bval k v = \<lparr>bv_Kind = k, bv_Val = v, bv_Obj = 0\<rparr>"

definition bobj :: "Kind \<Rightarrow> ObjHandle \<Rightarrow> BackendValue" where
  "bobj k h = \<lparr>bv_Kind = k, bv_Val = VNil, bv_Obj = h\<rparr>"

definition too_short :: "string \<Rightarrow> go_error" where
  "too_short what = Errorf (''automerge: '' @ what @ '' payload too short'') []"

definition DecodeValue :: "bytes \<Rightarrow> BackendValue outcome" where
  "DecodeValue data = (case data of [] \<Rightarrow> Ok (bval KindVoid VNil) | tag # payload \<Rightarrow>
     if tag = TagVoid then Ok (bval KindVoid VNil)
     else if tag = TagNull then Ok (bval KindNull VNil)
     else if tag = TagBool then
       (case payload of [] \<Rightarrow> Error (too_short ''bool'')
        | p # _ \<Rightarrow> Ok (bval KindBool (VBool (p \<noteq> 0))))
     else if tag = TagInt64 then
       (if length payload < 8 then Error (too_short ''int64'')
        else Ok (bval KindInt64 (VInt64 (Uint64 payload))))
     else if tag = TagUint64 then
       (if length payload < 8 then Error (too_short ''uint64'')
        else Ok (bval KindUint64 (VUint64 (Uint64 payload))))
     else if tag = TagFloat64 then
       (if length payload < 8 then Error (too_short ''float64'')
        else Ok (bval KindFloat64 (VFloat64 (Uint64 payload))))
     else if tag = TagString then Ok (bval KindStr (VStr (bytes_str payload)))
     else if tag = TagBytes then Ok (bval KindBytes (VBytes payload))
     else if tag = TagCounter then
       (if length payload < 8 then Error (too_short ''counter'')
        else Ok (bval KindCounter (VInt64 (Uint64 payload))))
     else if tag = TagTimestamp then
       (if length payload < 8 then Error (too_short ''timestamp'')
        else Ok (bval KindTime (VTime (time_UnixMilli (Uint64 payload)))))
     else if tag = TagMap then
       (if length payload < 4 then Error (too_short ''map handle'')
        else Ok (bobj KindMap (Uint32 payload)))
     else if tag = TagList then
       (if length payload < 4 then Error (too_short ''list handle'')
        else Ok (bobj KindList (Uint32 payload)))
     else if tag = TagText then
       (if length payload < 4 then Error (too_short ''text handle'')
        else Ok (bobj KindText (Uint32 payload)))
     else Ok (bval KindUnknown VNil))"

text \<open>\<open>TaggedValueSize\<close> answers \<open>-1\<close> for a tag it does not know or a truncated length.\<close>

definition TaggedValueSize :: "byte \<Rightarrow> bytes \<Rightarrow> int" where
  "TaggedValueSize tag data =
     (if tag = TagVoid \<or> tag = TagNull then 1
      else if tag = TagBool then 2
      else if tag \<in> {TagInt64, TagUint64, TagFloat64, TagCounter, TagTimestamp} then 9
      else if tag \<in> {TagMap, TagList, TagText} then 5
      else if tag = TagString \<or> tag = TagBytes then
        (if length data < 5 then - 1 else 5 + int (unat (Uint32 (drop 1 data))))
      else - 1)"

text \<open>
  One round of the loop of \<open>DecodeValueList\<close>: the bytes of the next value and the rest, or
  \<open>None\<close> where the loop stops without an error.
\<close>

definition next_tagged :: "bytes \<Rightarrow> (bytes \<times> bytes) option" where
  "next_tagged data = (case data of [] \<Rightarrow> None | tag # _ \<Rightarrow>
     let size = TaggedValueSize tag data in
     if size \<le> 0 \<or> int (length data) < size then None
     else Some (take (nat size) data, drop (nat size) data))"

lemma next_tagged_shorter: "next_tagged data = Some (v, rest) \<Longrightarrow> length rest < length data"
  by (auto simp: next_tagged_def Let_def split: list.splits if_splits)

function DecodeValueList :: "bytes \<Rightarrow> BackendValue list outcome" where
  "DecodeValueList data = (case next_tagged data of
     None \<Rightarrow> Ok []
   | Some (v, rest) \<Rightarrow> and_then (DecodeValue v) (\<lambda>bv.
       map_outcome_of (Cons bv) (DecodeValueList rest)))"
  by pat_completeness auto
termination
  by (relation "measure length") (auto dest: next_tagged_shorter)

declare DecodeValueList.simps [simp del]

section \<open>Lists of hashes and of byte strings\<close>

function ParseChangeHashes :: "bytes \<Rightarrow> ChangeHash list" where
  "ParseChangeHashes data =
     (if 32 \<le> length data then take 32 data # ParseChangeHashes (drop 32 data) else [])"
  by pat_completeness auto
termination
  by (relation "measure length") auto

declare ParseChangeHashes.simps [simp del]

definition EncodeChangeHashes :: "ChangeHash list \<Rightarrow> bytes" where
  "EncodeChangeHashes hashes = concat hashes"

function ParseLengthPrefixedList :: "bytes \<Rightarrow> bytes list" where
  "ParseLengthPrefixedList data =
     (if 4 \<le> length data then
        (let itemLen = unat (Uint32 data); rest = drop 4 data in
         if length rest < itemLen then []
         else take itemLen rest # ParseLengthPrefixedList (drop itemLen rest))
      else [])"
  by pat_completeness auto
termination
  by (relation "measure length") auto

declare ParseLengthPrefixedList.simps [simp del]

definition EncodeLengthPrefixedList :: "bytes list \<Rightarrow> bytes" where
  "EncodeLengthPrefixedList items =
     concat (map (\<lambda>item. PutUint32 (word_of_nat (length item)) @ item) items)"

section \<open>Change metadata\<close>

definition truncated_at :: "string \<Rightarrow> go_error" where
  "truncated_at what = Errorf (''automerge: change info truncated at '' @ what) []"

text \<open>A 4-byte length and that many bytes; \<open>lenName\<close> and \<open>name\<close> are those of the error texts.\<close>

definition read_prefixed :: "string \<Rightarrow> string \<Rightarrow> bytes \<Rightarrow> (bytes \<times> bytes) outcome" where
  "read_prefixed lenName name data =
     (if length data < 4 then Error (truncated_at lenName)
      else let n = unat (Uint32 data); rest = drop 4 data in
        if length rest < n then Error (truncated_at name)
        else Ok (take n rest, drop n rest))"

fun read_deps :: "nat \<Rightarrow> nat \<Rightarrow> bytes \<Rightarrow> ChangeHash list outcome" where
  "read_deps i 0 data = Ok []"
| "read_deps i (Suc n) data =
     (if length data < 32
      then Error (Errorf ''automerge: change info truncated at dep %d'' [AInt (int i)])
      else map_outcome_of (Cons (take 32 data)) (read_deps (Suc i) n (drop 32 data)))"

definition ParseChangeInfo :: "bytes \<Rightarrow> ChangeInfo outcome" where
  "ParseChangeInfo data =
     (if length data < 32 + 8 + 8 + 4 then Error (Errorf ''automerge: change info too short'' [])
      else
        let hash = take 32 data;
            ms = Uint64 (drop 32 data);
            seq = Uint64 (drop 40 data)
        in and_then (read_prefixed ''actor_len'' ''actor'' (drop 48 data)) (\<lambda>(actor, d1).
           and_then (read_prefixed ''message_len'' ''message'' d1) (\<lambda>(msg, d2).
           if length d2 < 4 then Error (truncated_at ''deps_count'')
           else and_then (read_deps 0 (unat (Uint32 d2)) (drop 4 d2)) (\<lambda>deps.
             Ok \<lparr>ci_Hash = hash, ci_Timestamp = time_UnixMilli ms, ci_Seq = seq,
                 ci_ActorID = bytes_str actor, ci_Message = bytes_str msg, ci_Deps = deps\<rparr>))))"

section \<open>Encoded primitives decode to themselves\<close>

text \<open>
  The type switch shared by \<open>Map.Set\<close> and \<open>List.put\<close>: which encoder a primitive gets, the
  kind it is read back as, and what is read back (a time loses what is below a millisecond).
\<close>

fun encode_prim :: "prim \<Rightarrow> byte \<times> bytes" where
  "encode_prim VNil = EncodeNull"
| "encode_prim (VBool v) = EncodeBool v"
| "encode_prim (VStr v) = EncodeStr v"
| "encode_prim (VBytes v) = EncodeBytes v"
| "encode_prim (VInt64 v) = EncodeInt64 v"
| "encode_prim (VUint64 v) = EncodeUint64 v"
| "encode_prim (VFloat64 v) = EncodeFloat64 v"
| "encode_prim (VTime v) = EncodeTimestamp v"

fun kind_of_prim :: "prim \<Rightarrow> Kind" where
  "kind_of_prim VNil = KindNull"
| "kind_of_prim (VBool v) = KindBool"
| "kind_of_prim (VStr v) = KindStr"
| "kind_of_prim (VBytes v) = KindBytes"
| "kind_of_prim (VInt64 v) = KindInt64"
| "kind_of_prim (VUint64 v) = KindUint64"
| "kind_of_prim (VFloat64 v) = KindFloat64"
| "kind_of_prim (VTime v) = KindTime"

fun stored_prim :: "prim \<Rightarrow> prim" where
  "stored_prim (VTime t) = VTime (time_UnixMilli (Time_UnixMilli t))"
| "stored_prim v = v"

lemma Uint_short [simp]: "length a = 8 \<Longrightarrow> Uint64 (a @ b) = Uint64 a"
  "length c = 4 \<Longrightarrow> Uint32 (c @ d) = Uint32 c"
  by (simp_all add: Uint64_def Uint32_def)

lemmas decode_simps = DecodeValue_def tag_defs Encode_defs bval_def bobj_def

text \<open>
  C12: Every primitive that Map.Set and List.put write decodes, from its tag and payload, to a value
  of its own kind holding the same primitive; only a time loses what is below a millisecond.
\<close>

theorem DecodeValue_encode_prim:
  "DecodeValue (fst (encode_prim v) # snd (encode_prim v)) =
     Ok \<lparr>bv_Kind = kind_of_prim v, bv_Val = stored_prim v, bv_Obj = 0\<rparr>"
  by (cases v) (simp_all add: decode_simps)

lemma DecodeValue_EncodeCounter:
  "DecodeValue (fst (EncodeCounter v) # snd (EncodeCounter v)) = Ok (bval KindCounter (VInt64 v))"
  by (simp add: decode_simps)

lemma time_millis_round:
  assumes "- (2 ^ 63) \<le> t div 1000000" and "t div 1000000 < 2 ^ 63"
  shows "time_UnixMilli (Time_UnixMilli t) = t - t mod 1000000"
proof -
  have "sint (word_of_int (t div 1000000) :: int64) = t div 1000000"
    using assms by (simp add: sint_sbintrunc' signed_take_bit_int_eq_self)
  then show ?thesis
    by (simp add: time_UnixMilli_def Time_UnixMilli_def minus_mod_eq_div_mult)
qed

text \<open>The shortest payload each tag accepts.\<close>

definition min_payload :: "byte \<Rightarrow> nat" where
  "min_payload tag =
     (if tag = TagBool then 1
      else if tag \<in> {TagInt64, TagUint64, TagFloat64, TagCounter, TagTimestamp} then 8
      else if tag \<in> {TagMap, TagList, TagText} then 4 else 0)"

lemma DecodeValue_cases:
  "is_ok (DecodeValue data) \<longleftrightarrow> data = [] \<or> min_payload (hd data) \<le> length (tl data)"
  by (cases data) (auto simp: decode_simps min_payload_def split: list.splits)

text \<open>
  C24: DecodeValue succeeds exactly when the payload has at least the bytes its tag needs, and
  otherwise returns the too-short error; it never panics.
\<close>

theorem DecodeValue_total:
  "(\<exists>bv. DecodeValue data = Ok bv \<and> (data = [] \<or> min_payload (hd data) \<le> length (tl data))) \<or>
   (\<exists>what. DecodeValue data = Error (too_short what) \<and> data \<noteq> [] \<and>
      length (tl data) < min_payload (hd data))"
  by (cases data) (auto simp: decode_simps min_payload_def split: list.splits)

section \<open>The list formats\<close>

definition dec_hash :: "bytes \<Rightarrow> (ChangeHash \<times> bytes) option" where
  "dec_hash data = (if 32 \<le> length data then Some (take 32 data, drop 32 data) else None)"

interpretation hashes: framed_stream "\<lambda>h. h" dec_hash wf_hash ParseChangeHashes
proof
  show "dec_hash bs = Some (x, rest) \<Longrightarrow> ParseChangeHashes bs = x # ParseChangeHashes rest"
    and "dec_hash bs = None \<Longrightarrow> ParseChangeHashes bs = []" for bs x rest
    by (auto simp: dec_hash_def ParseChangeHashes.simps [of bs] split: if_splits)
qed (auto simp: dec_hash_def wf_hash_def split: if_splits)

definition fits32 :: "bytes \<Rightarrow> bool" where
  "fits32 item \<longleftrightarrow> length item < 2 ^ 32"

definition enc_item :: "bytes \<Rightarrow> bytes" where
  "enc_item item = PutUint32 (word_of_nat (length item)) @ item"

definition dec_item :: "bytes \<Rightarrow> (bytes \<times> bytes) option" where
  "dec_item data =
     (if length data < 4 then None
      else let n = unat (Uint32 data); rest = drop 4 data in
        if length rest < n then None else Some (take n rest, drop n rest))"

lemma unat_len32: "fits32 item \<Longrightarrow> unat (word_of_nat (length item) :: uint32) = length item"
  by (simp add: fits32_def unat_of_nat)

lemma dec_item_enc: "fits32 item \<Longrightarrow> dec_item (enc_item item @ rest) = Some (item, rest)"
  by (simp add: dec_item_def enc_item_def unat_len32)

lemma dec_item_inv: "dec_item data = Some (item, rest) \<Longrightarrow> fits32 item \<and> data = enc_item item @ rest"
proof -
  assume "dec_item data = Some (item, rest)"
  then have len: "4 \<le> length data" "unat (Uint32 data) \<le> length (drop 4 data)"
    and item: "item = take (unat (Uint32 data)) (drop 4 data)"
    and rest: "rest = drop (unat (Uint32 data)) (drop 4 data)"
    by (auto simp: dec_item_def Let_def not_less split: if_splits)
  have n: "length item = unat (Uint32 data)" using len item by simp
  have "PutUint32 (word_of_nat (length item)) = take 4 data"
    using len le32.put_get [of data] by (simp add: n)
  moreover have "fits32 item"
    using unsigned_less [of "Uint32 data", where 'a = nat] by (simp add: fits32_def n)
  moreover have "data = take 4 data @ item @ rest"
    unfolding item rest by (simp only: append_take_drop_id)
  ultimately show ?thesis by (simp add: enc_item_def)
qed

interpretation items: framed_stream enc_item dec_item fits32 ParseLengthPrefixedList
proof
  show "dec_item bs = Some (x, rest) \<Longrightarrow>
      ParseLengthPrefixedList bs = x # ParseLengthPrefixedList rest"
    and "dec_item bs = None \<Longrightarrow> ParseLengthPrefixedList bs = []" for bs x rest
    by (auto simp: dec_item_def Let_def ParseLengthPrefixedList.simps [of bs] split: if_splits)
  show "enc_item x \<noteq> []" for x
    by (simp add: enc_item_def)
qed (auto simp: dec_item_enc dest: dec_item_inv)

lemma EncodeLengthPrefixedList_items: "EncodeLengthPrefixedList xs = concat (map enc_item xs)"
  by (simp add: EncodeLengthPrefixedList_def enc_item_def [abs_def])

text \<open>
  C25: Parsing an encoded list of byte strings below 4 GiB gives back the list.
\<close>

theorem ParseLengthPrefixedList_Encode:
  assumes "list_all fits32 items"
  shows "ParseLengthPrefixedList (EncodeLengthPrefixedList items) = items"
  using items.parse_encoded [OF assms] by (simp add: EncodeLengthPrefixedList_items)

theorem ParseLengthPrefixedList_Encode_witness:
  "list_all fits32 [[1, 2], [], [3]] \<and>
   ParseLengthPrefixedList (EncodeLengthPrefixedList [[1, 2], [], [3]]) = [[1, 2], [], [3]]"
proof
  show h: "list_all fits32 [[1, 2], [], [3]]" by (simp add: fits32_def)
  show "ParseLengthPrefixedList (EncodeLengthPrefixedList [[1, 2], [], [3]]) = [[1, 2], [], [3]]"
    by (rule ParseLengthPrefixedList_Encode [OF h])
qed

text \<open>
  C26: On any input the items that ParseLengthPrefixedList returns are a prefix of the input when
  encoded again, and what it silently drops is an incomplete item.
\<close>

theorem ParseLengthPrefixedList_sound:
  "\<exists>tail. data = EncodeLengthPrefixedList (ParseLengthPrefixedList data) @ tail \<and>
     list_all fits32 (ParseLengthPrefixedList data) \<and>
     (length tail < 4 \<or> length tail < 4 + unat (Uint32 tail))"
proof -
  obtain tail where "data = concat (map enc_item (ParseLengthPrefixedList data)) @ tail"
    and "dec_item tail = None" and "list_all fits32 (ParseLengthPrefixedList data)"
    using items.parse_sound [of data] by blast
  moreover from this(2) have "length tail < 4 \<or> length tail < 4 + unat (Uint32 tail)"
    by (auto simp: dec_item_def Let_def split: if_splits)
  ultimately show ?thesis
    by (auto simp: EncodeLengthPrefixedList_items)
qed

text \<open>
  Parsing the concatenation of 32-byte hashes gives back the hashes.
\<close>

lemma ParseChangeHashes_Encode:
  assumes "list_all wf_hash hs"
  shows "ParseChangeHashes (EncodeChangeHashes hs) = hs"
  using hashes.parse_encoded [OF assms] by (simp add: EncodeChangeHashes_def)

lemma ParseChangeHashes_wf: "list_all wf_hash (ParseChangeHashes data)"
  using hashes.parse_sound [of data] by blast

lemma length_ParseChangeHashes: "length (ParseChangeHashes data) = length data div 32"
proof (induction data rule: ParseChangeHashes.induct)
  case (1 data)
  then show ?case
    by (subst ParseChangeHashes.simps) (auto simp: le_div_geq)
qed

lemma NewChangeHash_wf: "NewChangeHash s = Ok h \<Longrightarrow> wf_hash h \<and> length s = 64"
  by (auto simp: NewChangeHash_def wf_hash_def dest: hex_DecodeString_length split: if_splits)

text \<open>
  NewChangeHash reads back what String prints for a 32-byte hash, and reports the length of
  anything else.
\<close>

lemma NewChangeHash_String:
  "NewChangeHash (ChangeHash_String h) =
     (if wf_hash h then Ok h
      else Error (Errorf ''automerge.NewChangeHash: expected 32 bytes, got %v'' [AInt (int (length h))]))"
  by (simp add: NewChangeHash_def ChangeHash_String_def hex_Decode_Encode wf_hash_def)

section \<open>DecodeValueList\<close>

text \<open>
  The tags whose encoding has a fixed size; for these the list format and the single-value
  format agree.
\<close>

definition fixed_tag :: "byte \<Rightarrow> bool" where
  "fixed_tag tag \<longleftrightarrow> tag \<in> {TagVoid, TagNull, TagBool, TagInt64, TagUint64, TagFloat64,
     TagCounter, TagTimestamp, TagMap, TagList, TagText}"

definition fixed_value :: "bytes \<Rightarrow> bool" where
  "fixed_value v \<longleftrightarrow> v \<noteq> [] \<and> fixed_tag (hd v) \<and> length (tl v) = min_payload (hd v)"

lemma next_tagged_fixed: "fixed_value v \<Longrightarrow> next_tagged (v @ rest) = Some (v, rest)"
  by (cases v) (auto simp: fixed_value_def fixed_tag_def next_tagged_def TaggedValueSize_def
      min_payload_def Let_def tag_defs)

lemma DecodeValue_fixed: "fixed_value v \<Longrightarrow> \<exists>bv. DecodeValue v = Ok bv"
  using DecodeValue_cases [of v] by (auto simp: fixed_value_def is_ok_iff)

text \<open>
  C29: DecodeValueList decodes a concatenation of values whose tags have a fixed size element by
  element, like DecodeValue.
\<close>

theorem DecodeValueList_fixed:
  assumes "list_all fixed_value vs"
  shows "\<exists>bvs. DecodeValueList (concat vs) = Ok bvs \<and> map DecodeValue vs = map Ok bvs"
  using assms
proof (induction vs)
  case Nil
  then show ?case by (simp add: DecodeValueList.simps next_tagged_def)
next
  case (Cons v vs)
  then obtain bvs where "DecodeValueList (concat vs) = Ok bvs" and "map DecodeValue vs = map Ok bvs"
    by auto
  moreover from Cons.prems obtain bv where "DecodeValue v = Ok bv"
    using DecodeValue_fixed by auto
  ultimately show ?case
    using Cons.prems by (intro exI [of _ "bv # bvs"])
      (simp add: DecodeValueList.simps [of "v @ concat vs"] next_tagged_fixed)
qed

theorem DecodeValueList_fixed_witness:
  "list_all fixed_value [[1, 1], [0], [9, 5, 0, 0, 0]] \<and>
   (\<exists>bvs. DecodeValueList (concat [[1, 1], [0], [9, 5, 0, 0, 0]]) = Ok bvs \<and>
      map DecodeValue [[1, 1], [0], [9, 5, 0, 0, 0]] = map Ok bvs)"
proof
  show h: "list_all fixed_value [[1, 1], [0], [9, 5, 0, 0, 0]]"
    by (simp add: fixed_value_def fixed_tag_def min_payload_def tag_defs)
  show "\<exists>bvs. DecodeValueList (concat [[1, 1], [0], [9, 5, 0, 0, 0]]) = Ok bvs \<and>
      map DecodeValue [[1, 1], [0], [9, 5, 0, 0, 0]] = map Ok bvs"
    by (rule DecodeValueList_fixed [OF h])
qed

text \<open>
  C30: A string in the list format is decoded with the four bytes of its length prefix left at the
  front of the string.
\<close>

theorem DecodeValueList_string_keeps_length:
  assumes "fits32 (str_bytes s)"
  shows "DecodeValueList (TagString # PutUint32 (word_of_nat (length s)) @ str_bytes s) =
    Ok [bval KindStr (VStr (bytes_str (PutUint32 (word_of_nat (length s))) @ s))]"
proof -
  let ?d = "TagString # PutUint32 (word_of_nat (length s)) @ str_bytes s"
  have "unat (word_of_nat (length s) :: uint32) = length s"
    using unat_len32 [OF assms] by simp
  then have "next_tagged ?d = Some (?d, [])"
    by (simp add: next_tagged_def TaggedValueSize_def tag_defs Let_def)
  moreover have "next_tagged [] = None" by (simp add: next_tagged_def)
  moreover have "DecodeValue ?d =
      Ok (bval KindStr (VStr (bytes_str (PutUint32 (word_of_nat (length s))) @ s)))"
    by (simp add: decode_simps bytes_str_def str_bytes_def comp_def)
  ultimately show ?thesis
    by (simp add: DecodeValueList.simps [of ?d] DecodeValueList.simps [of "[]"])
qed

theorem DecodeValueList_string_keeps_length_witness:
  "fits32 (str_bytes ''hi'') \<and>
   DecodeValueList (TagString # PutUint32 (word_of_nat (length ''hi'')) @ str_bytes ''hi'') =
    Ok [bval KindStr (VStr (bytes_str (PutUint32 (word_of_nat (length ''hi''))) @ ''hi''))]"
proof
  show h: "fits32 (str_bytes ''hi'')" by (simp add: fits32_def)
  show "DecodeValueList (TagString # PutUint32 (word_of_nat (length ''hi'')) @ str_bytes ''hi'') =
    Ok [bval KindStr (VStr (bytes_str (PutUint32 (word_of_nat (length ''hi''))) @ ''hi''))]"
    by (rule DecodeValueList_string_keeps_length [OF h])
qed

end
