(* ===== verification/Wire.thy ===== *)
theory Wire
  imports Codec
begin

text \<open>
  The guest side of the value protocol: the Rust shim of \<open>wasi/src\<close> that the WebAssembly
  module is built from. \<open>encode_scalar\<close>, \<open>encode_value\<close> and \<open>parse_tagged_value\<close> are those of
  \<open>value.rs\<close>, \<open>encode_keys\<close> and \<open>encode_items\<close> the buffers built by \<open>obj.rs\<close>, and
  \<open>encode_change_info\<close> the one built by \<open>changes.rs\<close>. The theorems say that what Go writes is
  what Rust reads and the other way round, and where the two sides disagree.
\<close>

section \<open>UTF-8, as \<open>std::str::from_utf8\<close> accepts it\<close>

definition cont :: "byte \<Rightarrow> bool" where
  "cont b \<longleftrightarrow> 0x80 \<le> b \<and> b \<le> 0xBF"

fun utf8_valid :: "bytes \<Rightarrow> bool" where
  "utf8_valid [] = True"
| "utf8_valid (a # bs) =
     (if a < 0x80 then utf8_valid bs
      else if 0xC2 \<le> a \<and> a \<le> 0xDF then
        (case bs of b # r \<Rightarrow> cont b \<and> utf8_valid r | _ \<Rightarrow> False)
      else if 0xE0 \<le> a \<and> a \<le> 0xEF then
        (case bs of b # c # r \<Rightarrow>
           (if a = 0xE0 then 0xA0 \<le> b \<and> b \<le> 0xBF
            else if a = 0xED then 0x80 \<le> b \<and> b \<le> 0x9F else cont b) \<and>
           cont c \<and> utf8_valid r
         | _ \<Rightarrow> False)
      else if 0xF0 \<le> a \<and> a \<le> 0xF4 then
        (case bs of b # c # d # r \<Rightarrow>
           (if a = 0xF0 then 0x90 \<le> b \<and> b \<le> 0xBF
            else if a = 0xF4 then 0x80 \<le> b \<and> b \<le> 0x8F else cont b) \<and>
           cont c \<and> cont d \<and> utf8_valid r
         | _ \<Rightarrow> False)
      else False)"

section \<open>Values\<close>

datatype ScalarValue =
    SNull | SBoolean bool | SInt int64 | SUint uint64 | SF64 uint64 | SStr string
  | SBytes bytes | SCounter int64 | STimestamp int64 | SUnknown

datatype ObjType = OMap | OTable | OList | OText

datatype rvalue = RObject ObjType | RScalar ScalarValue

fun encode_scalar :: "ScalarValue \<Rightarrow> bytes" where
  "encode_scalar SNull = [TagNull]"
| "encode_scalar (SBoolean b) = [TagBool, if b then 1 else 0]"
| "encode_scalar (SInt i) = TagInt64 # PutUint64 i"
| "encode_scalar (SUint u) = TagUint64 # PutUint64 u"
| "encode_scalar (SF64 f) = TagFloat64 # PutUint64 f"
| "encode_scalar (SStr s) = TagString # str_bytes s"
| "encode_scalar (SBytes b) = TagBytes # b"
| "encode_scalar (SCounter c) = TagCounter # PutUint64 c"
| "encode_scalar (STimestamp t) = TagTimestamp # PutUint64 t"
| "encode_scalar SUnknown = [TagVoid]"

fun tag_of_type :: "ObjType \<Rightarrow> byte" where
  "tag_of_type OMap = TagMap"
| "tag_of_type OTable = TagMap"
| "tag_of_type OList = TagList"
| "tag_of_type OText = TagText"

fun encode_value :: "rvalue \<Rightarrow> uint32 \<Rightarrow> bytes" where
  "encode_value (RObject t) obj_handle = tag_of_type t # PutUint32 obj_handle"
| "encode_value (RScalar s) obj_handle = encode_scalar s"

definition parse_tagged_value :: "byte \<Rightarrow> bytes \<Rightarrow> rvalue option" where
  "parse_tagged_value tag payload =
     (if tag = TagNull then Some (RScalar SNull)
      else if tag = TagBool then
        (case payload of [] \<Rightarrow> None | p # _ \<Rightarrow> Some (RScalar (SBoolean (p \<noteq> 0))))
      else if tag = TagInt64 then
        (if length payload < 8 then None else Some (RScalar (SInt (Uint64 payload))))
      else if tag = TagUint64 then
        (if length payload < 8 then None else Some (RScalar (SUint (Uint64 payload))))
      else if tag = TagFloat64 then
        (if length payload < 8 then None else Some (RScalar (SF64 (Uint64 payload))))
      else if tag = TagString then
        (if utf8_valid payload then Some (RScalar (SStr (bytes_str payload))) else None)
      else if tag = TagBytes then Some (RScalar (SBytes payload))
      else if tag = TagCounter then
        (if length payload < 8 then None else Some (RScalar (SCounter (Uint64 payload))))
      else if tag = TagTimestamp then
        (if length payload < 8 then None else Some (RScalar (STimestamp (Uint64 payload))))
      else if tag = TagMap then Some (RObject OMap)
      else if tag = TagList then Some (RObject OList)
      else if tag = TagText then Some (RObject OText)
      else None)"

text \<open>What a Go program sees of a value stored by Rust, and what Rust stores for a Go value.\<close>

fun go_view :: "rvalue \<Rightarrow> uint32 \<Rightarrow> BackendValue" where
  "go_view (RObject OMap) h = bobj KindMap h"
| "go_view (RObject OTable) h = bobj KindMap h"
| "go_view (RObject OList) h = bobj KindList h"
| "go_view (RObject OText) h = bobj KindText h"
| "go_view (RScalar SNull) h = bval KindNull VNil"
| "go_view (RScalar (SBoolean b)) h = bval KindBool (VBool b)"
| "go_view (RScalar (SInt i)) h = bval KindInt64 (VInt64 i)"
| "go_view (RScalar (SUint u)) h = bval KindUint64 (VUint64 u)"
| "go_view (RScalar (SF64 f)) h = bval KindFloat64 (VFloat64 f)"
| "go_view (RScalar (SStr s)) h = bval KindStr (VStr s)"
| "go_view (RScalar (SBytes b)) h = bval KindBytes (VBytes b)"
| "go_view (RScalar (SCounter c)) h = bval KindCounter (VInt64 c)"
| "go_view (RScalar (STimestamp t)) h = bval KindTime (VTime (time_UnixMilli t))"
| "go_view (RScalar SUnknown) h = bval KindVoid VNil"

fun rust_scalar :: "prim \<Rightarrow> ScalarValue" where
  "rust_scalar VNil = SNull"
| "rust_scalar (VBool b) = SBoolean b"
| "rust_scalar (VStr s) = SStr s"
| "rust_scalar (VBytes b) = SBytes b"
| "rust_scalar (VInt64 i) = SInt i"
| "rust_scalar (VUint64 u) = SUint u"
| "rust_scalar (VFloat64 f) = SF64 f"
| "rust_scalar (VTime t) = STimestamp (Time_UnixMilli t)"

fun writable :: "prim \<Rightarrow> bool" where
  "writable (VStr s) = utf8_valid (str_bytes s)"
| "writable v = True"

lemmas parse_simps = parse_tagged_value_def tag_defs Encode_defs

lemma parse_encode_prim:
  "parse_tagged_value (fst (encode_prim v)) (snd (encode_prim v)) =
     (if writable v then Some (RScalar (rust_scalar v)) else None)"
  by (cases v) (simp_all add: parse_simps)

lemma decode_encode_value: "DecodeValue (encode_value v h) = Ok (go_view v h)"
proof (cases v)
  case (RObject t)
  then show ?thesis by (cases t) (simp_all add: decode_simps)
next
  case (RScalar s)
  then show ?thesis by (cases s) (simp_all add: decode_simps)
qed



section \<open>Keys, items and change metadata\<close>

definition encode_keys :: "string list \<Rightarrow> bytes" where
  "encode_keys keys = concat (map (\<lambda>k. PutUint32 (word_of_nat (length k)) @ str_bytes k) keys)"

text \<open>
  \<open>am_obj_items_len\<close> writes for each entry a total length, a key length, the key (empty for a
  list) and the tagged value.
\<close>

definition encode_items :: "(string \<times> rvalue \<times> uint32) list \<Rightarrow> bytes" where
  "encode_items entries = concat (map (\<lambda>(k, v, h).
     let encoded = encode_value v h in
     PutUint32 (word_of_nat (4 + length k + length encoded)) @
     PutUint32 (word_of_nat (length k)) @ str_bytes k @ encoded) entries)"

record RChange =
  rc_hash :: ChangeHash
  rc_timestamp :: int64
  rc_seq :: uint64
  rc_actor_hex :: string
  rc_message :: string
  rc_deps :: "ChangeHash list"

definition encode_change_info :: "RChange \<Rightarrow> bytes" where
  "encode_change_info c =
     rc_hash c @ PutUint64 (rc_timestamp c) @ PutUint64 (rc_seq c) @
     PutUint32 (word_of_nat (length (rc_actor_hex c))) @ str_bytes (rc_actor_hex c) @
     PutUint32 (word_of_nat (length (rc_message c))) @ str_bytes (rc_message c) @
     PutUint32 (word_of_nat (length (rc_deps c))) @ concat (rc_deps c)"

definition wf_RChange :: "RChange \<Rightarrow> bool" where
  "wf_RChange c \<longleftrightarrow> wf_hash (rc_hash c) \<and> fits32 (str_bytes (rc_actor_hex c)) \<and>
     fits32 (str_bytes (rc_message c)) \<and> length (rc_deps c) < 2 ^ 32 \<and> list_all wf_hash (rc_deps c)"

definition info_of :: "RChange \<Rightarrow> ChangeInfo" where
  "info_of c = \<lparr>ci_Hash = rc_hash c, ci_Timestamp = time_UnixMilli (rc_timestamp c),
     ci_Seq = rc_seq c, ci_ActorID = rc_actor_hex c, ci_Message = rc_message c,
     ci_Deps = rc_deps c\<rparr>"

lemma read_prefixed_str:
  "fits32 (str_bytes s) \<Longrightarrow>
   read_prefixed ln nm (PutUint32 (word_of_nat (length s)) @ str_bytes s @ rest) = Ok (str_bytes s, rest)"
  using unat_len32 [of "str_bytes s"] by (simp add: read_prefixed_def)

lemma read_deps_concat: "list_all wf_hash ds \<Longrightarrow> read_deps i (length ds) (concat ds @ rest) = Ok ds"
  by (induction ds arbitrary: i) (simp_all add: wf_hash_def)

lemma parse_change_info:
  assumes "wf_RChange c"
  shows "ParseChangeInfo (encode_change_info c) = Ok (info_of c)"
proof -
  let ?act = "PutUint32 (word_of_nat (length (rc_actor_hex c))) @ str_bytes (rc_actor_hex c)"
  let ?msg = "PutUint32 (word_of_nat (length (rc_message c))) @ str_bytes (rc_message c)"
  let ?deps = "PutUint32 (word_of_nat (length (rc_deps c))) @ concat (rc_deps c)"
  let ?d = "encode_change_info c"
  have wf: "length (rc_hash c) = 32" "fits32 (str_bytes (rc_actor_hex c))"
    "fits32 (str_bytes (rc_message c))" "length (rc_deps c) < 2 ^ 32" "list_all wf_hash (rc_deps c)"
    using assms by (auto simp: wf_RChange_def wf_hash_def)
  have d: "?d = rc_hash c @ PutUint64 (rc_timestamp c) @ PutUint64 (rc_seq c) @ ?act @ ?msg @ ?deps"
    by (simp add: encode_change_info_def)
  have parts: "take 32 ?d = rc_hash c" "Uint64 (drop 32 ?d) = rc_timestamp c"
    "Uint64 (drop 40 ?d) = rc_seq c" "drop 48 ?d = ?act @ ?msg @ ?deps"
    "\<not> length ?d < 32 + 8 + 8 + 4"
    using wf(1) by (simp_all add: d)
  have n: "unat (word_of_nat (length (rc_deps c)) :: uint32) = length (rc_deps c)"
    using wf(4) by (simp add: unat_of_nat)
  have deps: "read_deps 0 (length (rc_deps c)) (concat (rc_deps c)) = Ok (rc_deps c)"
    using read_deps_concat [OF wf(5), of 0 "[]"] by simp
  show ?thesis
    unfolding ParseChangeInfo_def parts using parts(5) wf(2,3)
    by (simp add: read_prefixed_str n deps info_of_def)
qed


definition sample_change :: RChange where
  "sample_change = \<lparr>rc_hash = replicate 32 1, rc_timestamp = 1000, rc_seq = 2,
     rc_actor_hex = ''abcd'', rc_message = ''hi'', rc_deps = [replicate 32 2]\<rparr>"



end
