(* ===== verification/Leb128.thy ===== *)
theory Leb128
  imports Bytes
begin

text \<open>
  The variable-length integers of the automerge binary format. The debug tool has an encoder
  \<open>leb128\<close> and a strict reader \<open>readULEB\<close>, and a strict signed reader \<open>readSLEB\<close>; the WASM
  backend has a lenient reader \<open>readULEB128\<close> of its own. The strict reader is shown to accept
  exactly the output of the encoder, which makes the two a \<open>framing\<close>; the lenient reader
  agrees with it on everything the strict one accepts.

  The readers of the tool return a value and the remaining bytes together with an error, and
  their callers use all three, so the model returns the triple.
\<close>

section \<open>The encoder\<close>

lemma unat_drop7: "unat (drop_bit 7 (n :: uint64)) = unat n div 128"
  by (simp only: unat_drop_bit_eq drop_bit_eq_div [of 7 "unat n"]) simp

function leb128_loop :: "uint64 \<Rightarrow> bytes" where
  "leb128_loop n = (if n = 0 then [] else
     let b = ucast (n AND 0x7F) :: byte; n' = drop_bit 7 n in
     (if n' \<noteq> 0 then b OR 0x80 else b) # leb128_loop n')"
  by pat_completeness auto

termination
  by (relation "measure unat") (auto simp: unat_drop7 unat_gt_0 intro!: div_less_dividend)

declare leb128_loop.simps [simp del]

definition leb128 :: "uint64 \<Rightarrow> bytes" where
  "leb128 n = (if n = 0 then [0] else leb128_loop n)"

section \<open>The readers\<close>

definition leb_no_end :: go_error where
  "leb_no_end = Errorf ''failed to find end of LEB'' []"

definition leb_overlong :: go_error where
  "leb_overlong = Errorf ''overly long LEB'' []"

definition leb_too_big :: go_error where
  "leb_too_big = Errorf ''LEB > 64-bit'' []"

fun readULEB_loop :: "nat \<Rightarrow> uint64 \<Rightarrow> bytes \<Rightarrow> uint64 \<times> bytes \<times> go_error option" where
  "readULEB_loop i n [] = (0, [], Some leb_no_end)"
| "readULEB_loop i n (c # b) =
     (let n' = n OR push_bit (i * 7) (ucast (c AND 0x7F)); i' = Suc i in
      if c AND 0x80 = 0 then
        (if c = 0 \<and> 1 < i' then (n', b, Some leb_overlong)
         else if 10 < i' then (n', b, Some leb_too_big)
         else if i' = 10 \<and> 0 < c AND 0x7E then (n', b, Some leb_too_big)
         else (n', b, None))
      else readULEB_loop i' n' b)"

definition readULEB :: "bytes \<Rightarrow> uint64 \<times> bytes \<times> go_error option" where
  "readULEB b = readULEB_loop 0 0 b"

fun readSLEB_loop :: "nat \<Rightarrow> uint64 \<Rightarrow> byte \<Rightarrow> bytes \<Rightarrow> int64 \<times> bytes \<times> go_error option" where
  "readSLEB_loop i n prev [] = (0, [], Some leb_no_end)"
| "readSLEB_loop i n prev (c # b) =
     (let n1 = n OR push_bit (i * 7) (ucast (c AND 0x7F)); i' = Suc i in
      if c AND 0x80 = 0 then
        (let n2 = (if 0 < c AND 0x40 then n1 OR push_bit (i' * 7) (- 1) else n1) in
         if 1 < i' \<and> (prev AND 0x40 = 0 \<and> c = 0 \<or> 0 < prev AND 0x40 \<and> c = 0x7F)
         then (n2, b, Some leb_overlong)
         else if 10 < i' then (n2, b, Some leb_too_big)
         else if i' = 10 \<and> c AND 0x7F \<noteq> 0 \<and> c AND 0x7F \<noteq> 0x7F then (n2, b, Some leb_too_big)
         else (n2, b, None))
      else readSLEB_loop i' n1 c b)"

definition readSLEB :: "bytes \<Rightarrow> int64 \<times> bytes \<times> go_error option" where
  "readSLEB b = readSLEB_loop 0 0 0 b"

definition uleb128_overflow :: go_error where
  "uleb128_overflow = Errorf ''uleb128 overflow'' []"

definition uleb128_truncated :: go_error where
  "uleb128_truncated = Errorf ''truncated uleb128'' []"

text \<open>The lenient reader of \<open>wazero.go\<close> returns the value and the number of bytes consumed.\<close>

fun readULEB128_loop :: "nat \<Rightarrow> uint64 \<Rightarrow> nat \<Rightarrow> bytes \<Rightarrow> (uint64 \<times> nat) outcome" where
  "readULEB128_loop i result shift [] = Error uleb128_truncated"
| "readULEB128_loop i result shift (x # b) =
     (if 10 \<le> i then Error uleb128_overflow
      else let result' = result OR push_bit shift (ucast (x AND 0x7F)) in
        if x AND 0x80 = 0 then Ok (result', i + 1)
        else readULEB128_loop (Suc i) result' (shift + 7) b)"

definition readULEB128 :: "bytes \<Rightarrow> (uint64 \<times> nat) outcome" where
  "readULEB128 b = readULEB128_loop 0 0 0 b"

section \<open>Bits of a continuation byte\<close>

lemma and_7F: "(c AND 0x7F :: 'a::len word) = take_bit 7 c"
proof -
  have "(0x7F :: 'a word) = mask 7" by (simp add: mask_eq_exp_minus_1)
  then show ?thesis by (simp only: take_bit_eq_mask)
qed

lemma and_80_0: "(c :: byte) AND 0x80 = 0 \<longleftrightarrow> \<not> bit c 7"
proof -
  have "(0x80 :: byte) = 2 ^ 7" by simp
  then show ?thesis by (simp only: and_exp_eq_0_iff_not_bit)
qed

lemma or_80_bit: "bit ((c :: byte) OR 0x80) i \<longleftrightarrow> i < 8 \<and> (bit c i \<or> i = 7)"
proof -
  have "(0x80 :: byte) = 2 ^ 7" by simp
  then show ?thesis
    by (simp only: bit_simps) (auto dest: bit_imp_le_length)
qed

lemma byte_exhaust: "(\<And>n. n < 256 \<Longrightarrow> P (word_of_nat n)) \<Longrightarrow> P (c :: byte)"
  using unat_byte_lt [of c] by (metis of_nat_unat ucast_id)

lemma and_7E_0: "\<not> bit (c :: byte) 7 \<Longrightarrow> 0 < c AND 0x7E \<longleftrightarrow> 1 < c"
proof -
  have "\<forall>n \<in> set [0..<256]. let c = word_of_nat n :: byte in \<not> bit c 7 \<longrightarrow> (0 < c AND 0x7E) = (1 < c)"
    by code_simp
  then show "\<not> bit c 7 \<Longrightarrow> ?thesis"
    by (intro byte_exhaust [where P = "\<lambda>c. \<not> bit c 7 \<longrightarrow> (0 < c AND 0x7E) = (1 < c)", THEN mp])
      (simp_all add: Let_def)
qed

text \<open>The byte written for one digit: its low seven bits and the continuation flag.\<close>

lemma digit_bits:
  fixes n :: uint64
  defines "b \<equiv> (ucast (n AND 0x7F) :: byte)"
  shows "\<not> bit b 7" and "bit (b OR 0x80) 7"
    and "ucast (b AND 0x7F) = take_bit 7 n" and "ucast ((b OR 0x80) AND 0x7F) = take_bit 7 n"
    and "b = 0 \<longleftrightarrow> take_bit 7 n = 0"
proof -
  show "\<not> bit b 7" by (simp add: b_def and_7F bit_simps)
  show "bit (b OR 0x80) 7" by (simp add: or_80_bit)
  show l: "ucast (b AND 0x7F) = take_bit 7 n"
    unfolding b_def and_7F by (rule bit_word_eqI) (auto simp: bit_simps)
  show "ucast ((b OR 0x80) AND 0x7F) = take_bit 7 n"
    unfolding b_def and_7F by (rule bit_word_eqI) (auto simp: bit_simps or_80_bit)
  have "b AND 0x7F = b"
    unfolding b_def and_7F by (rule bit_word_eqI) (auto simp: bit_simps)
  then have "take_bit 7 n = ucast b" using l by simp
  moreover have "(ucast (ucast b :: uint64) :: byte) = b"
    by (rule bit_word_eqI) (simp add: bit_simps)
  ultimately show "b = 0 \<longleftrightarrow> take_bit 7 n = 0"
    by (metis unsigned_0)
qed

lemma digit_split: "(n :: uint64) = take_bit 7 n OR push_bit 7 (drop_bit 7 n)"
proof (rule bit_word_eqI)
  fix i
  show "bit n i = bit (take_bit 7 n OR push_bit 7 (drop_bit 7 n)) i"
    by (cases "i < 7") (auto simp: bit_simps dest: bit_imp_le_length)
qed

section \<open>The strict reader inverts the encoder\<close>

lemma bounded_digit_shift:
  assumes "take_bit (64 - 7 * i) (m :: uint64) = m"
  shows "take_bit (64 - 7 * Suc i) (drop_bit 7 m) = drop_bit 7 m"
proof -
  have "drop_bit 7 m = drop_bit 7 (take_bit (64 - 7 * i) m)" using assms by simp
  also have "\<dots> = take_bit (64 - 7 * Suc i) (drop_bit 7 m)"
    by (rule bit_word_eqI) (auto simp: bit_simps)
  finally show ?thesis by simp
qed

lemma bounded_room:
  assumes "take_bit (64 - 7 * i) (m :: uint64) = m" and "drop_bit 7 m \<noteq> 0"
  shows "i < 9"
proof (rule ccontr)
  assume "\<not> i < 9"
  then have "take_bit (64 - 7 * Suc i) (drop_bit 7 m) = 0" by simp
  then show False using bounded_digit_shift [OF assms(1)] assms(2) by simp
qed

lemma or_digit_shift:
  "(n OR push_bit (i * 7) (take_bit 7 m)) OR push_bit (Suc i * 7) (drop_bit 7 m) =
   n OR push_bit (i * 7) (m :: uint64)"
proof -
  have "push_bit (i * 7) m = push_bit (i * 7) (take_bit 7 m OR push_bit 7 (drop_bit 7 m))"
    by (subst digit_split [of m]) (rule refl)
  then show ?thesis by (simp add: push_bit_or or.assoc add.commute)
qed

lemma readULEB_loop_encode:
  "m \<noteq> 0 \<Longrightarrow> i < 10 \<Longrightarrow> take_bit (64 - 7 * i) m = m \<Longrightarrow>
   readULEB_loop i n (leb128_loop m @ rest) = (n OR push_bit (i * 7) m, rest, None)"
proof (induction m arbitrary: i n rule: leb128_loop.induct)
  case (1 m)
  let ?b = "ucast (m AND 0x7F) :: byte"
  show ?case
  proof (cases "drop_bit 7 m = 0")
    case True
    then have m: "take_bit 7 m = m" using digit_split [of m] by simp
    have nz: "?b \<noteq> 0" using digit_bits(5) [of m] m "1.prems" by simp
    have "i = 9 \<Longrightarrow> \<not> 1 < ?b"
    proof -
      assume "i = 9"
      then have "m mod 2 = m" using "1.prems"(3) by simp
      then have "m = of_bool (odd m)" by (metis mod_2_eq_odd)
      then have "m = 1" using "1.prems"(1) by (cases "odd m") auto
      then show "\<not> 1 < ?b" by simp
    qed
    then show ?thesis
      using True nz "1.prems" m digit_bits(1,3) [of m]
      by (simp add: leb128_loop.simps [of m] leb128_loop.simps [of 0] Let_def and_80_0 and_7E_0)
  next
    case False
    have "i < 9" using bounded_room [OF "1.prems"(3) False] .
    then have "readULEB_loop (Suc i) (n OR push_bit (i * 7) (take_bit 7 m)) (leb128_loop (drop_bit 7 m) @ rest)
        = (n OR push_bit (i * 7) m, rest, None)"
      using "1.IH" [OF "1.prems"(1) refl refl False, of "Suc i"] bounded_digit_shift [OF "1.prems"(3)]
        or_digit_shift [of n i m]
      by simp
    then show ?thesis
      using False "1.prems"(1) digit_bits(2,4) [of m]
      by (simp add: leb128_loop.simps [of m] Let_def and_80_0)
  qed
qed

lemma digit_join:
  fixes c :: byte and m :: uint64
  assumes "take_bit 57 m = m"
  defines "k \<equiv> ucast (c AND 0x7F) OR push_bit 7 m"
  shows "drop_bit 7 k = m" and "take_bit 7 k = ucast (c AND 0x7F)"
    and "bit c 7 \<Longrightarrow> ucast (k AND 0x7F) OR 0x80 = c" and "\<not> bit c 7 \<Longrightarrow> ucast (k AND 0x7F) = c"
proof -
  have "drop_bit 7 k = take_bit 57 m"
    unfolding k_def and_7F by (rule bit_word_eqI) (auto simp: bit_simps)
  then show "drop_bit 7 k = m" using assms(1) by simp
  show t: "take_bit 7 k = ucast (c AND 0x7F)"
    unfolding k_def and_7F by (rule bit_word_eqI) (auto simp: bit_simps)
  show "bit c 7 \<Longrightarrow> ucast (k AND 0x7F) OR 0x80 = c"
    unfolding and_7F [of k] t and_7F
    by (rule bit_word_eqI) (auto simp: bit_simps or_80_bit less_Suc_eq numeral_eq_Suc)
  show "\<not> bit c 7 \<Longrightarrow> ucast (k AND 0x7F) = c"
    unfolding and_7F [of k] t and_7F
    by (rule bit_word_eqI) (auto simp: bit_simps less_Suc_eq numeral_eq_Suc)
qed

lemma readULEB_loop_inv:
  "readULEB_loop i n bs = (v, rest, None) \<Longrightarrow>
   \<exists>m. bs = (if m = 0 then [0] else leb128_loop m) @ rest \<and> v = n OR push_bit (i * 7) m \<and>
     take_bit (64 - 7 * i) m = m \<and> (m = 0 \<longrightarrow> i = 0) \<and> i < 10"
proof (induction bs arbitrary: i n)
  case (Cons c bs)
  show ?case
  proof (cases "bit c 7")
    case False
    let ?m = "ucast (c AND 0x7F) :: uint64"
    have d: "drop_bit 7 ?m = 0" "take_bit 7 ?m = ?m" "ucast (?m AND 0x7F) = c"
      using digit_join [of 0 c] False by simp_all
    have m0: "?m = 0 \<longleftrightarrow> c = 0" using d(3) by auto
    have r: "v = n OR push_bit (i * 7) ?m" "rest = bs" "i < 10" "c = 0 \<longrightarrow> i = 0" "i = 9 \<longrightarrow> \<not> 1 < c"
      using Cons.prems False by (auto simp: Let_def and_80_0 and_7E_0 split: if_splits)
    have "take_bit (64 - 7 * i) ?m = ?m"
    proof (cases "i = 9")
      case True
      then have "unat c = unat (0 :: byte) \<or> unat c = unat (1 :: byte)"
        using r(5) by (auto simp: word_less_nat_alt)
      then have "c = 0 \<or> c = 1" by (simp only: word_unat_eq_iff)
      then show ?thesis using True by auto
    next
      case False
      then have "7 \<le> 64 - 7 * i" using r(3) by simp
      then show ?thesis
        using d(2) take_bit_take_bit [of "64 - 7 * i" 7 ?m] by (simp add: min_absorb2)
    qed
    moreover have "c # bs = (if ?m = 0 then [0] else leb128_loop ?m) @ rest"
      using r(2) m0 d(1,3) leb128_loop.simps [of ?m] leb128_loop.simps [of 0]
      by (auto simp: Let_def)
    ultimately show ?thesis using r(1,3,4) m0 by blast
  next
    case True
    let ?n = "n OR push_bit (i * 7) (ucast (c AND 0x7F))"
    have "readULEB_loop (Suc i) ?n bs = (v, rest, None)"
      using Cons.prems True by (simp add: Let_def and_80_0)
    then obtain m where m: "bs = leb128_loop m @ rest" "v = ?n OR push_bit (Suc i * 7) m"
      "take_bit (64 - 7 * Suc i) m = m" "m \<noteq> 0" "Suc i < 10"
      using Cons.IH by fastforce
    let ?k = "ucast (c AND 0x7F) OR push_bit 7 m"
    have "take_bit 57 m = m"
      using m(3) take_bit_take_bit [of 57 "64 - 7 * Suc i" m] by (simp add: min_absorb2)
    note j = digit_join [OF this, of c]
    have "leb128_loop ?k = c # leb128_loop m"
      using j(1) j(3) [OF True] m(4) by (subst leb128_loop.simps) (auto simp: Let_def)
    moreover have "v = n OR push_bit (i * 7) ?k"
      using m(2) j(1,2) or_digit_shift [of n i ?k] by simp
    moreover have "?k \<noteq> 0" using j(1) m(4) by (metis drop_bit_of_0)
    moreover have "take_bit (64 - 7 * i) ?k = ?k"
    proof (rule bit_word_eqI)
      fix p assume "p < LENGTH(64)"
      have "bit m (p - 7) \<Longrightarrow> p - 7 < 64 - 7 * Suc i"
        using m(3) by (metis bit_take_bit_iff)
      then show "bit (take_bit (64 - 7 * i) ?k) p = bit ?k p"
        using m(5) by (auto simp: bit_simps and_7F)
    qed
    ultimately show ?thesis using m by (intro exI [of _ ?k]) auto
  qed
qed simp

definition dec_uleb :: "bytes \<Rightarrow> (uint64 \<times> bytes) option" where
  "dec_uleb bs = (case readULEB bs of (v, rest, None) \<Rightarrow> Some (v, rest) | _ \<Rightarrow> None)"

lemma leb128_0: "leb128 0 = [0]"
  by (simp add: leb128_def)

lemma readULEB_leb128: "readULEB (leb128 n @ rest) = (n, rest, None)"
proof (cases "n = 0")
  case True
  then show ?thesis by (simp add: leb128_def readULEB_def)
next
  case False
  then show ?thesis
    using readULEB_loop_encode [of n 0 0 rest]
    by (simp add: leb128_def readULEB_def take_bit_word_eq_self)
qed

lemma readULEB_inv: "readULEB bs = (v, rest, None) \<Longrightarrow> bs = leb128 v @ rest"
  using readULEB_loop_inv [of 0 0 bs v rest] by (auto simp: readULEB_def leb128_def)

interpretation uleb: framing leb128 dec_uleb "\<lambda>_. True"
proof
  show "dec_uleb (leb128 n @ rest) = Some (n, rest)" for n rest
    by (simp add: dec_uleb_def readULEB_leb128)
  show "True \<and> bs = leb128 n @ rest" if "dec_uleb bs = Some (n, rest)" for bs n rest
    using that readULEB_inv [of bs n rest] by (auto simp: dec_uleb_def split: prod.splits option.splits)
  show "leb128 n \<noteq> []" for n
    by (simp add: leb128_def leb128_loop.simps [of n] Let_def)
qed

text \<open>
  C17: The strict ULEB reader accepts a value and leaves a rest exactly when the input is the
  canonical encoding of the value followed by the rest: no overlong form, none beyond 64 bits.
\<close>

theorem readULEB_exact: "readULEB bs = (v, rest, None) \<longleftrightarrow> bs = leb128 v @ rest"
  using readULEB_leb128 readULEB_inv by auto

section \<open>The lenient reader\<close>

lemma readULEB128_loop_agrees:
  "readULEB_loop i n bs = (v, rest, None) \<Longrightarrow>
   readULEB128_loop i n (i * 7) bs = Ok (v, i + (length bs - length rest)) \<and> length rest < length bs"
proof (induction bs arbitrary: i n)
  case (Cons c bs)
  show ?case
  proof (cases "c AND 0x80 = 0")
    case True
    then show ?thesis using Cons.prems by (auto simp: Let_def split: if_splits)
  next
    case False
    then have r: "readULEB_loop (Suc i) (n OR push_bit (i * 7) (ucast (c AND 0x7F))) bs = (v, rest, None)"
      using Cons.prems by (simp add: Let_def)
    have "i < 10" using readULEB_loop_inv [OF Cons.prems] by blast
    with False Cons.IH [OF r] show ?thesis by (auto simp: Let_def add.commute)
  qed
qed simp

lemma readULEB128_consumes: "readULEB128_loop i r sh bs = Ok (v, k) \<Longrightarrow> i < k \<and> k \<le> i + length bs \<and> k \<le> 10"
proof (induction bs arbitrary: i r sh)
  case (Cons c bs)
  then show ?case by (fastforce simp: Let_def split: if_splits)
qed simp

lemma readULEB128_leb128: "readULEB128 (leb128 n @ rest) = Ok (n, length (leb128 n))"
proof -
  have "readULEB_loop 0 0 (leb128 n @ rest) = (n, rest, None)"
    using readULEB_leb128 [of n rest] by (simp add: readULEB_def)
  from readULEB128_loop_agrees [OF this] show ?thesis by (simp add: readULEB128_def)
qed

lemma length_leb128: "length (leb128 n) \<le> 10"
  using readULEB128_consumes [of 0 0 0 "leb128 n @ []" n "length (leb128 n)"]
    readULEB128_leb128 [of n "[]"] by (simp add: readULEB128_def)

text \<open>
  C27: The lenient reader of the backend agrees with the strict reader of the debug tool on
  everything the strict one accepts, in the value and in the number of bytes used.
\<close>

theorem readULEB128_agrees:
  assumes "readULEB bs = (v, rest, None)"
  shows "readULEB128 bs = Ok (v, length bs - length rest)"
  using readULEB128_loop_agrees [of 0 0 bs v rest] assms
  by (simp add: readULEB_def readULEB128_def)

theorem readULEB128_agrees_witness:
  "readULEB [0xE5, 0x8E, 0x26, 7] = (624485, [7], None) \<and>
   readULEB128 [0xE5, 0x8E, 0x26, 7] = Ok (624485, 3)"
proof -
  have h: "readULEB [0xE5, 0x8E, 0x26, 7] = (624485, [7], None)" by code_simp
  then show ?thesis using readULEB128_agrees [OF h] by simp
qed


end
