(* ===== verification/ChangeChunks.thy ===== *)
theory ChangeChunks
  imports Leb128
begin

text \<open>
  \<open>splitChangeChunks\<close> of \<open>internal/wazero/wazero.go\<close>: it walks the chunk framing
  \<open>[4 magic][4 checksum][1 type][uLEB128 length][payload]\<close> of a concatenation of changes.
  The end of a chunk is computed in 64-bit arithmetic (\<open>end := uint64(off) + length\<close>) and may
  wrap around, so the loop need not advance: it is a \<open>partial_function\<close> whose \<open>None\<close> is "does
  not return". \<open>make([]byte, off-start)\<close> panics when the length is negative.
\<close>

section \<open>The loop\<close>

definition changeChunkMagic :: bytes where
  "changeChunkMagic = [0x85, 0x6f, 0x4a, 0x83]"

definition parse_error :: "string \<Rightarrow> go_arg list \<Rightarrow> go_error" where
  "parse_error what args = Errorf (''unable to parse changes: '' @ what) args"

text \<open>
  One round of the loop, from the offset of a chunk to the offset of the next one.
\<close>

definition chunk_end :: "bytes \<Rightarrow> nat \<Rightarrow> nat outcome" where
  "chunk_end raw start =
     (if length raw < start + 9 then
        Error (parse_error ''truncated chunk header at offset %d'' [AInt (int start)])
      else if raw ! start \<noteq> changeChunkMagic ! 0 \<or> raw ! (start + 1) \<noteq> changeChunkMagic ! 1 \<or>
        raw ! (start + 2) \<noteq> changeChunkMagic ! 2 \<or> raw ! (start + 3) \<noteq> changeChunkMagic ! 3 then
        Error (parse_error ''bad magic bytes at offset %d'' [AInt (int start)])
      else let chunkType = raw ! (start + 8); off = start + 9 in
        if chunkType \<noteq> 1 \<and> chunkType \<noteq> 2 then
          Error (parse_error ''unsupported chunk type %d at offset %d'' [AInt (uint chunkType), AInt (int start)])
        else case readULEB128 (drop off raw) of
          Error e \<Rightarrow> Error (parse_error ''%s at offset %d'' [AErr e, AInt (int start)])
        | Panic p \<Rightarrow> Panic p
        | Ok (len, n) \<Rightarrow>
            let off' = off + n; fin = (word_of_nat off' + len :: uint64) in
            if length raw < unat fin then
              Error (parse_error ''chunk at offset %d declares length %d but only %d bytes remain''
                [AInt (int start), AInt (uint len), AInt (int (length raw) - int off')])
            else if unat fin < start then Panic (Errorf ''runtime error: makeslice: len out of range'' [])
            else Ok (unat fin))"

partial_function (option) split_loop :: "bytes \<Rightarrow> nat \<Rightarrow> bytes list \<Rightarrow> bytes list outcome option" where
  "split_loop raw off chunks =
     (if off < length raw then
        (case chunk_end raw off of
           Error e \<Rightarrow> Some (Error e)
         | Panic p \<Rightarrow> Some (Panic p)
         | Ok fin \<Rightarrow> split_loop raw fin (chunks @ [drop off (take fin raw)]))
      else Some (Ok chunks))"

definition splitChangeChunks :: "bytes \<Rightarrow> bytes list outcome option" where
  "splitChangeChunks raw = split_loop raw 0 []"

lemma split_loop_done: "length raw \<le> off \<Longrightarrow> split_loop raw off cs = Some (Ok cs)"
  by (simp add: split_loop.simps)

lemma split_loop_step:
  "off < length raw \<Longrightarrow> chunk_end raw off = Ok e \<Longrightarrow>
   split_loop raw off cs = split_loop raw e (cs @ [drop off (take e raw)])"
  by (simp add: split_loop.simps [of raw off])

lemma split_loop_stop:
  "off < length raw \<Longrightarrow> chunk_end raw off = Error x \<Longrightarrow> split_loop raw off cs = Some (Error x)"
  "off < length raw \<Longrightarrow> chunk_end raw off = Panic p \<Longrightarrow> split_loop raw off cs = Some (Panic p)"
  by (simp_all add: split_loop.simps [of raw off])

section \<open>Well-formed chunks\<close>

definition change_chunk :: "bytes \<Rightarrow> byte \<Rightarrow> bytes \<Rightarrow> bytes" where
  "change_chunk checksum ty payload =
     changeChunkMagic @ checksum @ [ty] @ leb128 (word_of_nat (length payload)) @ payload"

definition wf_chunk :: "bytes \<Rightarrow> bool" where
  "wf_chunk c \<longleftrightarrow> (\<exists>checksum ty payload. length checksum = 4 \<and> (ty = 1 \<or> ty = 2) \<and>
     c = change_chunk checksum ty payload)"

lemma wf_chunk_change_chunk:
  "length checksum = 4 \<Longrightarrow> ty = 1 \<or> ty = 2 \<Longrightarrow> wf_chunk (change_chunk checksum ty payload)"
  by (auto simp: wf_chunk_def)

lemma chunk_end_wf:
  assumes c: "length checksum = 4" "ty = 1 \<or> ty = 2"
    and raw: "raw = pre @ change_chunk checksum ty payload @ rest" and small: "length raw < 2 ^ 63"
  shows "chunk_end raw (length pre) = Ok (length pre + length (change_chunk checksum ty payload))"
proof -
  let ?n = "length (leb128 (word_of_nat (length payload)))"
  let ?off = "length pre + 9 + ?n"
  have hd: "raw ! length pre = changeChunkMagic ! 0" "raw ! (length pre + 1) = changeChunkMagic ! 1"
    "raw ! (length pre + 2) = changeChunkMagic ! 2" "raw ! (length pre + 3) = changeChunkMagic ! 3"
    by (simp_all add: raw change_chunk_def changeChunkMagic_def nth_append)
  have ty: "raw ! (length pre + 8) = ty"
    using c(1) by (simp add: raw change_chunk_def changeChunkMagic_def nth_append)
  have rest: "drop (length pre + 9) raw = leb128 (word_of_nat (length payload)) @ payload @ rest"
    using c(1) by (simp add: raw change_chunk_def changeChunkMagic_def)
  have len: "length raw = ?off + length payload + length rest"
    using c(1) by (simp add: raw change_chunk_def changeChunkMagic_def)
  have e: "unat (word_of_nat ?off + word_of_nat (length payload) :: uint64) = ?off + length payload"
    by (rule unat_add_of_nat) (use small len in simp)
  have l: "length (change_chunk checksum ty payload) = 9 + ?n + length payload"
    using c(1) by (simp add: change_chunk_def changeChunkMagic_def)
  have rd: "readULEB128 (drop (length pre + 9) raw) = Ok (word_of_nat (length payload), ?n)"
    unfolding rest by (rule readULEB128_leb128)
  show ?thesis
    unfolding chunk_end_def hd ty using c(2) len l e by (auto simp: Let_def rd)
qed

lemma split_loop_wf:
  "list_all wf_chunk cs \<Longrightarrow> length (pre @ concat cs) < 2 ^ 63 \<Longrightarrow>
   split_loop (pre @ concat cs) (length pre) acc = Some (Ok (acc @ cs))"
proof (induction cs arbitrary: pre acc)
  case Nil
  then show ?case by (simp add: split_loop_done)
next
  case (Cons c cs)
  then obtain checksum ty payload where c: "length checksum = 4" "ty = 1 \<or> ty = 2"
    "c = change_chunk checksum ty payload"
    by (auto simp: wf_chunk_def)
  have "chunk_end (pre @ concat (c # cs)) (length pre) = Ok (length pre + length c)"
    using chunk_end_wf [OF c(1,2), of "pre @ concat (c # cs)" pre payload "concat cs"] Cons.prems c(3)
    by simp
  moreover have "0 < length c" using c(3) by (simp add: change_chunk_def changeChunkMagic_def)
  ultimately have "split_loop (pre @ concat (c # cs)) (length pre) acc =
      split_loop ((pre @ c) @ concat cs) (length (pre @ c)) (acc @ [c])"
    by (subst split_loop_step) auto
  also have "\<dots> = Some (Ok ((acc @ [c]) @ cs))"
    using Cons.prems by (intro Cons.IH) auto
  finally show ?case by simp
qed

text \<open>
  C13: splitChangeChunks cuts a concatenation of well-formed change chunks back into exactly these
  chunks, and returns.
\<close>

theorem splitChangeChunks_concat:
  assumes "list_all wf_chunk cs" and "length (concat cs) < 2 ^ 63"
  shows "splitChangeChunks (concat cs) = Some (Ok cs)"
  using split_loop_wf [of cs "[]" "[]"] assms by (simp add: splitChangeChunks_def)

definition two_chunks :: "bytes list" where
  "two_chunks = [change_chunk [1, 2, 3, 4] 1 [9, 9], change_chunk [5, 6, 7, 8] 2 []]"

theorem splitChangeChunks_concat_witness:
  "list_all wf_chunk two_chunks \<and> length (concat two_chunks) < 2 ^ 63 \<and>
   splitChangeChunks (concat two_chunks) = Some (Ok two_chunks)"
proof -
  have h: "list_all wf_chunk two_chunks"
    by (simp add: two_chunks_def wf_chunk_change_chunk)
  have l: "length (concat two_chunks) < 2 ^ 63"
    using length_leb128 [of 2] length_leb128 [of 0]
    by (simp add: two_chunks_def change_chunk_def changeChunkMagic_def)
  show ?thesis using h l splitChangeChunks_concat [OF h l] by simp
qed

section \<open>What a successful split returns\<close>

lemma chunk_end_Ok:
  assumes "chunk_end raw start = Ok e"
  shows "start \<le> e" and "e \<le> length raw"
    and "take 4 (drop start raw) = changeChunkMagic"
proof -
  show "start \<le> e" and "e \<le> length raw"
    using assms by (auto simp: chunk_end_def Let_def not_less split: if_splits outcome.splits)
  have hd: "start + 9 \<le> length raw" "raw ! start = changeChunkMagic ! 0"
    "raw ! (start + 1) = changeChunkMagic ! 1" "raw ! (start + 2) = changeChunkMagic ! 2"
    "raw ! (start + 3) = changeChunkMagic ! 3"
    using assms by (auto simp: chunk_end_def not_less split: if_splits)
  have "take 4 (drop start raw) = map (\<lambda>i. raw ! (start + i)) [0..<4]"
    using hd(1) by (intro nth_equalityI) auto
  also have "\<dots> = changeChunkMagic"
    using hd(2-5) by (simp add: upt_rec numeral_eq_Suc changeChunkMagic_def)
  finally show "take 4 (drop start raw) = changeChunkMagic" .
qed

lemma split_loop_concat:
  assumes ret: "split_loop raw off cs = Some (Ok out)"
    and inv: "concat cs = take off raw" "off \<le> length raw"
  shows "concat out = raw"
proof -
  have "concat cs = take off raw \<longrightarrow> off \<le> length raw \<longrightarrow> (\<forall>out. r = Ok out \<longrightarrow> concat out = raw)"
    if "split_loop raw off cs = Some r" for r
  proof (rule split_loop.raw_induct [where P = "\<lambda>raw off cs r. concat cs = take off raw \<longrightarrow>
      off \<le> length raw \<longrightarrow> (\<forall>out. r = Ok out \<longrightarrow> concat out = raw)", OF _ that])
    fix f raw off cs r
    assume IH: "\<And>raw off cs r. f raw off cs = Some r \<Longrightarrow> concat cs = take off raw \<longrightarrow>
        off \<le> length raw \<longrightarrow> (\<forall>out. r = Ok out \<longrightarrow> concat out = raw)"
      and eq: "(if off < length raw then
        (case chunk_end raw off of
           Error e \<Rightarrow> Some (Error e)
         | Panic p \<Rightarrow> Some (Panic p)
         | Ok fin \<Rightarrow> f raw fin (cs @ [drop off (take fin raw)]))
      else Some (Ok cs)) = Some r"
    show "concat cs = take off raw \<longrightarrow> off \<le> length raw \<longrightarrow> (\<forall>out. r = Ok out \<longrightarrow> concat out = raw)"
    proof (cases "off < length raw \<and> (\<exists>fin. chunk_end raw off = Ok fin)")
      case True
      then obtain fin where fin: "chunk_end raw off = Ok fin" by blast
      have "concat (cs @ [drop off (take fin raw)]) = take fin raw" if "concat cs = take off raw"
        using that chunk_end_Ok(1) [OF fin]
        by simp (metis append_take_drop_id min.absorb1 take_take)
      with IH [of raw fin] eq True fin chunk_end_Ok(2) [OF fin] show ?thesis by auto
    next
      case False
      then show ?thesis using eq by (auto split: if_splits outcome.splits)
    qed
  qed
  with ret inv show ?thesis by blast
qed

text \<open>
  C18: Whenever splitChangeChunks succeeds, the chunks it returns are the whole input in order, with
  no byte dropped or duplicated.
\<close>

theorem splitChangeChunks_lossless:
  assumes "splitChangeChunks raw = Some (Ok cs)"
  shows "concat cs = raw"
  using split_loop_concat [of raw 0 "[]" cs] assms by (simp add: splitChangeChunks_def)

theorem splitChangeChunks_lossless_witness:
  "splitChangeChunks (changeChunkMagic @ [0, 0, 0, 0, 1, 1, 7]) =
     Some (Ok [changeChunkMagic @ [0, 0, 0, 0, 1, 1, 7]]) \<and>
   concat [changeChunkMagic @ [0, 0, 0, 0, 1, 1, 7]] = changeChunkMagic @ [0, 0, 0, 0, 1, 1, 7]"
proof -
  let ?raw = "changeChunkMagic @ [0, 0, 0, 0, 1, 1, 7]"
  have "chunk_end ?raw 0 = Ok 11" by code_simp
  then have h: "splitChangeChunks ?raw = Some (Ok [?raw])"
    by (simp add: splitChangeChunks_def split_loop_step split_loop_done changeChunkMagic_def)
  show ?thesis using h splitChangeChunks_lossless [OF h] by (rule conjI)
qed

section \<open>When the loop returns\<close>

text \<open>The declared length of the chunk at \<open>start\<close> makes \<open>uint64(off) + length\<close> wrap around.\<close>

definition length_wraps :: "bytes \<Rightarrow> nat \<Rightarrow> bool" where
  "length_wraps raw start = (case readULEB128 (drop (start + 9) raw) of
     Ok (len, n) \<Rightarrow> 2 ^ 64 \<le> int (start + 9 + n) + uint len
   | _ \<Rightarrow> False)"

lemma chunk_end_advances:
  assumes "\<not> length_wraps raw start"
  shows "(\<exists>e. chunk_end raw start = Ok e \<and> start < e) \<or> (\<exists>x. chunk_end raw start = Error x)"
proof (cases "readULEB128 (drop (start + 9) raw)")
  case (Ok p)
  then obtain len n where p: "readULEB128 (drop (start + 9) raw) = Ok (len, n)" by (cases p) auto
  have "int (start + 9 + n + unat len) < int (2 ^ 64)"
    using assms p by (simp add: length_wraps_def)
  then have "start + 9 + n + unat len < 2 ^ 64" by (simp only: of_nat_less_iff)
  then have "unat (word_of_nat (start + 9 + n) + word_of_nat (unat len) :: uint64) = start + 9 + n + unat len"
    by (intro unat_add_of_nat) simp
  then have "start < unat (word_of_nat (start + 9 + n) + len :: uint64)" by simp
  then show ?thesis using p by (auto simp: chunk_end_def Let_def)
next
  case (Error e)
  then show ?thesis by (auto simp: chunk_end_def Let_def)
next
  case (Panic e)
  then have False
  proof -
    have "readULEB128_loop i r sh bs \<noteq> Panic e" for i r sh bs
      by (induction bs arbitrary: i r sh) (auto simp: Let_def)
    with Panic show False by (simp add: readULEB128_def)
  qed
  then show ?thesis ..
qed

lemma split_loop_returns:
  assumes "\<forall>start < length raw. \<not> length_wraps raw start"
  shows "\<exists>r. split_loop raw off cs = Some r \<and> (\<forall>p. r \<noteq> Panic p)"
proof (induction "length raw - off" arbitrary: off cs rule: less_induct)
  case less
  show ?case
  proof (cases "off < length raw")
    case True
    from chunk_end_advances [of raw off] assms True consider
      e where "chunk_end raw off = Ok e" "off < e" | x where "chunk_end raw off = Error x" by blast
    then show ?thesis
    proof cases
      case 1
      then have "length raw - e < length raw - off" using True by simp
      from less [OF this] show ?thesis by (simp add: split_loop_step [OF True 1(1)])
    next
      case 2
      then show ?thesis using True by (simp add: split_loop_stop)
    qed
  qed (simp add: split_loop_done)
qed

text \<open>
  C19: splitChangeChunks returns a result or an error, and never panics, on every input in which no
  declared chunk length overflows 64 bits when it is added to its offset.
\<close>

theorem splitChangeChunks_returns:
  assumes "list_all (\<lambda>start. \<not> length_wraps raw start) [0..<length raw]"
  shows "\<exists>r. splitChangeChunks raw = Some r \<and> (\<forall>p. r \<noteq> Panic p)"
  using split_loop_returns [of raw 0 "[]"] assms by (simp add: splitChangeChunks_def list_all_iff)

theorem splitChangeChunks_returns_witness:
  "list_all (\<lambda>start. \<not> length_wraps (concat two_chunks) start) [0..<length (concat two_chunks)] \<and>
   (\<exists>r. splitChangeChunks (concat two_chunks) = Some r \<and> (\<forall>p. r \<noteq> Panic p))"
proof -
  have h: "list_all (\<lambda>start. \<not> length_wraps (concat two_chunks) start) [0..<length (concat two_chunks)]"
    by code_simp
  show ?thesis using h splitChangeChunks_returns [OF h] by (rule conjI)
qed

section \<open>A length that wraps around\<close>

lemma split_loop_stuck:
  assumes "off < length raw" and "chunk_end raw off = Ok off"
  shows "split_loop raw off cs = None"
proof (cases "split_loop raw off cs")
  case (Some r)
  have "\<not> (off' < length raw' \<and> chunk_end raw' off' = Ok off')"
    if "split_loop raw' off' cs' = Some r'" for raw' off' cs' r'
  proof (rule split_loop.raw_induct [where P = "\<lambda>raw off cs r. \<not> (off < length raw \<and> chunk_end raw off = Ok off)", OF _ that])
    fix f raw off cs r
    assume IH: "\<And>raw off cs r. f raw off cs = Some r \<Longrightarrow> \<not> (off < length raw \<and> chunk_end raw off = Ok off)"
      and eq: "(if off < length raw then
        (case chunk_end raw off of
           Error e \<Rightarrow> Some (Error e)
         | Panic p \<Rightarrow> Some (Panic p)
         | Ok fin \<Rightarrow> f raw fin (cs @ [drop off (take fin raw)]))
      else Some (Ok cs)) = Some r"
    show "\<not> (off < length raw \<and> chunk_end raw off = Ok off)"
    proof
      assume stuck: "off < length raw \<and> chunk_end raw off = Ok off"
      with eq have "f raw off (cs @ [drop off (take off raw)]) = Some r" by simp
      from IH [OF this] stuck show False by blast
    qed
  qed
  from this [OF Some] assms show ?thesis by blast
qed simp

definition wrapping_chunk :: bytes where
  "wrapping_chunk = changeChunkMagic @ [0, 0, 0, 0, 1] @
     [0xED, 0xFF, 0xFF, 0xFF, 0xFF, 0xFF, 0xFF, 0xFF, 0xFF, 0x01]"

text \<open>
  C20: On a 19-byte chunk whose declared length wraps the end offset back to the start of the chunk,
  splitChangeChunks never returns.
\<close>

theorem splitChangeChunks_diverges: "splitChangeChunks wrapping_chunk = None"
proof -
  have "chunk_end wrapping_chunk 0 = Ok 0" by code_simp
  moreover have "0 < length wrapping_chunk" by (simp add: wrapping_chunk_def)
  ultimately show ?thesis
    unfolding splitChangeChunks_def by (intro split_loop_stuck)
qed

end
