(* ===== verification/DebugChunk.thy ===== *)
theory DebugChunk
  imports ChangeChunks
begin

text \<open>
  The chunk transformations of the debug tool \<open>cmd/automerge-debug/main.go\<close>: \<open>addHeader\<close>,
  \<open>validateChunk\<close>, \<open>compressChunk\<close>, \<open>decompressChunk\<close> and \<open>fixChecksum\<close>. The hash function
  \<open>crypto/sha256\<close> and the coder \<open>compress/flate\<close> are arguments: any hash, and any
  \<open>deflate\<close>/\<open>inflate\<close> of which the theorems assume only that inflating undoes deflating.
  \<open>inputErr\<close> prints to the error stream and ends the process; here that is an \<open>Error\<close>.
\<close>

section \<open>Operations\<close>

definition magicBytes :: bytes where
  "magicBytes = [133, 111, 74, 131]"

definition addHeader :: "(bytes \<Rightarrow> bytes) \<Rightarrow> bytes \<Rightarrow> byte \<Rightarrow> bytes" where
  "addHeader sha b kind =
     (let encodedLength = leb128 (word_of_nat (length b));
          payload = [kind] @ encodedLength @ b
      in magicBytes @ take 4 (sha payload) @ payload)"

definition inputErr :: "string \<Rightarrow> go_arg list \<Rightarrow> 'a outcome" where
  "inputErr s args = Error (Errorf s args)"

definition validateChunk :: "bytes \<Rightarrow> byte \<Rightarrow> bytes outcome" where
  "validateChunk b expected =
     (if length b < 10 then inputErr ''not a valid chunk (too short)'' []
      else if b ! 0 \<noteq> 133 \<or> b ! 1 \<noteq> 111 \<or> b ! 2 \<noteq> 74 \<or> b ! 3 \<noteq> 131
      then inputErr ''not a valid chunk (invalid magic bytes)'' []
      else let t = b ! 8 in
        if t \<noteq> expected \<and> expected \<noteq> 255 then
          (if t = 1 \<and> expected = 2 then inputErr ''already decompressed'' []
           else if t = 2 \<and> expected = 1 then inputErr ''already compressed'' []
           else inputErr ''wrong chunk type (type = %v, expected = %v)'' [AInt (uint t), AInt (uint expected)])
        else case readULEB (drop 9 b) of (i, chunk, err) \<Rightarrow>
          if err \<noteq> None then inputErr ''not a valid change chunk (incorrectly encoded length)'' []
          else if int (length chunk) \<noteq> sint i then inputErr ''not a valid change chunk (trailing data)'' []
          else Ok chunk)"

definition compressChunk :: "(bytes \<Rightarrow> bytes) \<Rightarrow> bytes \<Rightarrow> bytes outcome" where
  "compressChunk deflate b = and_then (validateChunk b 1) (\<lambda>chunk.
     let content = deflate chunk in
     Ok (take 8 b @ [2] @ leb128 (word_of_nat (length content)) @ content))"

definition decompressChunk :: "(bytes \<Rightarrow> bytes outcome) \<Rightarrow> bytes \<Rightarrow> bytes outcome" where
  "decompressChunk inflate b = and_then (validateChunk b 2) (\<lambda>chunk.
     case inflate chunk of
       Ok out \<Rightarrow> Ok (take 8 b @ [1] @ leb128 (word_of_nat (length out)) @ out)
     | Error e \<Rightarrow> inputErr ''failed to decompress: %v'' [AErr e]
     | Panic p \<Rightarrow> Panic p)"

definition set_checksum :: "(bytes \<Rightarrow> bytes) \<Rightarrow> bytes \<Rightarrow> bytes" where
  "set_checksum sha b = (let hash = sha (drop 8 b) in
     b[4 := hash ! 0, 5 := hash ! 1, 6 := hash ! 2, 7 := hash ! 3])"

definition fixChecksum ::
  "(bytes \<Rightarrow> bytes) \<Rightarrow> (bytes \<Rightarrow> bytes) \<Rightarrow> (bytes \<Rightarrow> bytes outcome) \<Rightarrow> bytes \<Rightarrow> bytes outcome" where
  "fixChecksum sha deflate inflate b = and_then (validateChunk b 255) (\<lambda>_.
     let compressed = (b ! 8 = 2) in
     and_then (if compressed then decompressChunk inflate b else Ok b) (\<lambda>b1.
       if b1 ! 8 = 0 then
         Error (Errorf ''refusing to fix checksum of document chunk - your change hashes are probably wrong too'' [])
       else let b2 = set_checksum sha b1 in
         if compressed then compressChunk deflate b2 else Ok b2))"

section \<open>Valid chunks\<close>

text \<open>A chunk with any checksum, and the shape \<open>validateChunk\<close> accepts.\<close>

definition debug_chunk :: "bytes \<Rightarrow> byte \<Rightarrow> bytes \<Rightarrow> bytes" where
  "debug_chunk checksum ty payload =
     magicBytes @ checksum @ [ty] @ leb128 (word_of_nat (length payload)) @ payload"

lemma sint_of_nat64: "n < 2 ^ 63 \<Longrightarrow> sint (word_of_nat n :: uint64) = int n"
proof -
  assume "n < 2 ^ 63"
  then have "int n < 2 ^ 63" by simp
  then show "sint (word_of_nat n :: uint64) = int n"
    using sint_sbintrunc' [of "int n", where 'a = 64] by (simp add: signed_take_bit_int_eq_self)
qed

lemma debug_chunk_parts:
  assumes "length cs = 4"
  shows "10 \<le> length (debug_chunk cs ty p)" and "take 8 (debug_chunk cs ty p) = magicBytes @ cs"
    and "debug_chunk cs ty p ! 8 = ty" and "drop 9 (debug_chunk cs ty p) = leb128 (word_of_nat (length p)) @ p"
    and "drop 8 (debug_chunk cs ty p) = [ty] @ leb128 (word_of_nat (length p)) @ p"
    and "take 4 (debug_chunk cs ty p) = magicBytes"
proof -
  have "leb128 (word_of_nat (length p)) \<noteq> []"
    using uleb.enc_nonempty by simp
  then have "Suc 0 \<le> length (leb128 (word_of_nat (length p)))" by (simp add: Suc_le_eq)
  then show "10 \<le> length (debug_chunk cs ty p)"
    using assms by (simp add: debug_chunk_def magicBytes_def)
qed (use assms in \<open>simp_all add: debug_chunk_def magicBytes_def nth_append\<close>)

lemma debug_chunk_magic:
  "debug_chunk cs ty p ! 0 = 133" "debug_chunk cs ty p ! 1 = 111"
  "debug_chunk cs ty p ! 2 = 74" "debug_chunk cs ty p ! 3 = 131"
  by (simp_all add: debug_chunk_def magicBytes_def)

lemma validateChunk_debug_chunk:
  assumes "length cs = 4" and "length p < 2 ^ 63" and "ty = expected \<or> expected = 255"
  shows "validateChunk (debug_chunk cs ty p) expected = Ok p"
proof -
  have "\<not> (ty \<noteq> expected \<and> expected \<noteq> 255)" using assms(3) by blast
  then show ?thesis
    unfolding validateChunk_def debug_chunk_magic debug_chunk_parts(3,4) [OF assms(1)]
    using debug_chunk_parts(1) [OF assms(1), of ty p]
    by (simp add: readULEB_leb128 sint_of_nat64 [OF assms(2)] Let_def del: de_Morgan_conj)
qed

lemma validateChunk_inv:
  assumes "validateChunk b expected = Ok p"
  obtains cs where "length cs = 4" and "b = debug_chunk cs (b ! 8) p" and "length p < 2 ^ 63"
    and "b ! 8 = expected \<or> expected = 255"
proof -
  obtain i where len: "10 \<le> length b"
    and m: "b ! 0 = 133" "b ! 1 = 111" "b ! 2 = 74" "b ! 3 = 131"
    and ty: "b ! 8 = expected \<or> expected = 255"
    and rd: "readULEB (drop 9 b) = (i, p, None)" and i: "int (length p) = sint i"
    using assms
    by (fastforce simp: validateChunk_def inputErr_def Let_def split: if_splits prod.splits)
  have "word_of_nat (length p) = i" using i by (metis of_int_of_nat_eq of_int_sint scast_id)
  then have "drop 9 b = leb128 (word_of_nat (length p)) @ p"
    using readULEB_inv [OF rd] by simp
  moreover have "take 4 b = magicBytes"
    using take4_nth [of b] len m by (simp add: magicBytes_def)
  moreover have "b = take 4 b @ take 4 (drop 4 b) @ [b ! 8] @ drop 9 b"
  proof -
    have "take 8 b = take 4 b @ take 4 (drop 4 b)" using take_add [of 4 4 b] by simp
    then show ?thesis using id_take_nth_drop [of 8 b] len by simp
  qed
  ultimately have "b = debug_chunk (take 4 (drop 4 b)) (b ! 8) p"
    by (metis debug_chunk_def)
  moreover have "length p < 2 ^ 63" using i sint_lt [of i] by simp
  ultimately show ?thesis using that [of "take 4 (drop 4 b)"] len ty by simp
qed

section \<open>Headers, compression and checksums\<close>

lemma addHeader_debug_chunk:
  "addHeader sha b kind =
     debug_chunk (take 4 (sha ([kind] @ leb128 (word_of_nat (length b)) @ b))) kind b"
  by (simp add: addHeader_def debug_chunk_def Let_def)

lemma compressChunk_debug_chunk:
  "length cs = 4 \<Longrightarrow> length p < 2 ^ 63 \<Longrightarrow>
   compressChunk deflate (debug_chunk cs 1 p) = Ok (debug_chunk cs 2 (deflate p))"
  by (simp add: compressChunk_def validateChunk_debug_chunk debug_chunk_parts Let_def)
    (simp add: debug_chunk_def)

lemma decompressChunk_debug_chunk:
  "length cs = 4 \<Longrightarrow> length p < 2 ^ 63 \<Longrightarrow> inflate p = Ok q \<Longrightarrow>
   decompressChunk inflate (debug_chunk cs 2 p) = Ok (debug_chunk cs 1 q)"
  by (simp add: decompressChunk_def validateChunk_debug_chunk debug_chunk_parts Let_def)
    (simp add: debug_chunk_def)

text \<open>
  C21: Compressing a valid change chunk and decompressing the result gives back the same bytes, for a
  compressor that inverts on its payload.
\<close>

theorem decompress_compress:
  assumes "validateChunk b 1 = Ok p" and "inflate (deflate p) = Ok p" and "length (deflate p) < 2 ^ 63"
  shows "and_then (compressChunk deflate b) (decompressChunk inflate) = Ok b"
proof -
  obtain cs where cs: "length cs = 4" "b = debug_chunk cs (b ! 8) p" "length p < 2 ^ 63" "b ! 8 = 1"
    using assms(1) by (elim validateChunk_inv) auto
  then have "compressChunk deflate b = Ok (debug_chunk cs 2 (deflate p))"
    using compressChunk_debug_chunk [of cs p deflate] by simp
  moreover have "decompressChunk inflate (debug_chunk cs 2 (deflate p)) = Ok (debug_chunk cs 1 p)"
    using decompressChunk_debug_chunk cs(1) assms(2,3) by blast
  ultimately show ?thesis using cs by simp
qed

text \<open>A coder that stores its input behind a marker byte.\<close>

definition store_deflate :: "bytes \<Rightarrow> bytes" where
  "store_deflate b = 1 # b"

definition store_inflate :: "bytes \<Rightarrow> bytes outcome" where
  "store_inflate b = (case b of [] \<Rightarrow> inputErr ''unexpected EOF'' [] | _ # r \<Rightarrow> Ok r)"

theorem decompress_compress_witness:
  "validateChunk (debug_chunk [1, 2, 3, 4] 1 [7]) 1 = Ok [7] \<and>
   and_then (compressChunk store_deflate (debug_chunk [1, 2, 3, 4] 1 [7])) (decompressChunk store_inflate) =
     Ok (debug_chunk [1, 2, 3, 4] 1 [7])"
proof -
  have h: "validateChunk (debug_chunk [1, 2, 3, 4] 1 [7]) 1 = Ok [7]"
    by (simp add: validateChunk_debug_chunk)
  have i: "store_inflate (store_deflate [7]) = Ok [7]" "length (store_deflate [7]) < 2 ^ 63"
    by (simp_all add: store_inflate_def store_deflate_def)
  show ?thesis using h decompress_compress [where deflate = store_deflate and inflate = store_inflate, OF h i] by (rule conjI)
qed

lemma set_checksum_debug_chunk:
  assumes "length cs = 4" and "4 \<le> length (sha (drop 8 (debug_chunk cs ty p)))"
  shows "set_checksum sha (debug_chunk cs ty p) =
    debug_chunk (take 4 (sha ([ty] @ leb128 (word_of_nat (length p)) @ p))) ty p"
proof -
  let ?h = "sha (drop 8 (debug_chunk cs ty p))"
  obtain a b c d where cs: "cs = [a, b, c, d]"
    using assms(1) by (auto simp: numeral_eq_Suc length_Suc_conv)
  have "set_checksum sha (debug_chunk cs ty p) = debug_chunk [?h ! 0, ?h ! 1, ?h ! 2, ?h ! 3] ty p"
    unfolding cs by (simp add: set_checksum_def Let_def debug_chunk_def magicBytes_def)
  then show ?thesis
    using take4_nth [OF assms(2)] debug_chunk_parts(5) [OF assms(1), of ty p] by simp
qed

definition checksum_ok :: "(bytes \<Rightarrow> bytes) \<Rightarrow> bytes \<Rightarrow> bool" where
  "checksum_ok sha b \<longleftrightarrow> take 4 (drop 4 b) = take 4 (sha (drop 8 b))"

lemma checksum_ok_debug_chunk:
  "length cs = 4 \<Longrightarrow> checksum_ok sha (debug_chunk cs ty p) \<longleftrightarrow>
   cs = take 4 (sha ([ty] @ leb128 (word_of_nat (length p)) @ p))"
  by (simp add: checksum_ok_def debug_chunk_parts) (simp add: debug_chunk_def magicBytes_def)

text \<open>
  C22: The chunk that addHeader builds passes validateChunk with the given kind and body, and its
  checksum field is the prefix of the hash that the format asks for.
\<close>

theorem addHeader_valid:
  assumes "length b < 2 ^ 63" and "\<And>x. 4 \<le> length (sha x)"
  shows "validateChunk (addHeader sha b kind) kind = Ok b \<and> checksum_ok sha (addHeader sha b kind)"
  unfolding addHeader_debug_chunk
  using assms by (simp add: validateChunk_debug_chunk checksum_ok_debug_chunk)

text \<open>A stand-in for the hash: the length and the sum of the input.\<close>

definition sum_hash :: "bytes \<Rightarrow> bytes" where
  "sum_hash b = [word_of_nat (length b), sum_list b, 0, 0] @ replicate 28 1"

theorem addHeader_valid_witness:
  "length [1, 2, 3 :: byte] < 2 ^ 63 \<and> (\<forall>x. 4 \<le> length (sum_hash x)) \<and>
   validateChunk (addHeader sum_hash [1, 2, 3] 1) 1 = Ok [1, 2, 3] \<and>
   checksum_ok sum_hash (addHeader sum_hash [1, 2, 3] 1)"
proof -
  have s: "\<And>x. 4 \<le> length (sum_hash x)" by (simp add: sum_hash_def)
  have l: "length [1, 2, 3 :: byte] < 2 ^ 63" by simp
  show ?thesis using s l addHeader_valid [where sha = sum_hash and kind = 1, OF l s] by blast
qed

text \<open>
  C23: fixChecksum succeeds on every valid change chunk, makes its checksum right, changes nothing
  but the checksum bytes, and does nothing more when it is run again.
\<close>

theorem fixChecksum_change:
  assumes "validateChunk b 1 = Ok p" and "\<And>x. 4 \<le> length (sha x)"
  shows "\<exists>b'. fixChecksum sha deflate inflate b = Ok b' \<and> checksum_ok sha b' \<and>
    validateChunk b' 1 = Ok p \<and> drop 8 b' = drop 8 b \<and>
    fixChecksum sha deflate inflate b' = Ok b'"
proof -
  let ?cs = "take 4 (sha ([1] @ leb128 (word_of_nat (length p)) @ p))"
  let ?b' = "debug_chunk ?cs 1 p"
  obtain cs where cs: "length cs = 4" "b = debug_chunk cs 1 p" "length p < 2 ^ 63"
    using assms(1) by (elim validateChunk_inv) auto
  have l: "length ?cs = 4" using assms(2) by simp
  have fixed: "fixChecksum sha deflate inflate (debug_chunk c 1 p) = Ok ?b'" if "length c = 4" for c
    using that cs(3) assms(2)
    by (simp add: fixChecksum_def validateChunk_debug_chunk debug_chunk_parts set_checksum_debug_chunk)
  show ?thesis
    using fixed [OF cs(1)] fixed [OF l] cs l
    by (intro exI [of _ ?b']) (simp add: validateChunk_debug_chunk checksum_ok_debug_chunk debug_chunk_parts)
qed

theorem fixChecksum_change_witness:
  "validateChunk (debug_chunk [0, 0, 0, 0] 1 [5]) 1 = Ok [5] \<and>
   (\<exists>b'. fixChecksum sum_hash store_deflate store_inflate (debug_chunk [0, 0, 0, 0] 1 [5]) = Ok b' \<and>
     checksum_ok sum_hash b' \<and> validateChunk b' 1 = Ok [5] \<and>
     drop 8 b' = drop 8 (debug_chunk [0, 0, 0, 0] 1 [5]) \<and>
     fixChecksum sum_hash store_deflate store_inflate b' = Ok b')"
proof -
  have h: "validateChunk (debug_chunk [0, 0, 0, 0] 1 [5]) 1 = Ok [5]"
    by (simp add: validateChunk_debug_chunk)
  have s: "\<And>x. 4 \<le> length (sum_hash x)" by (simp add: sum_hash_def)
  show ?thesis using h fixChecksum_change [where sha = sum_hash and deflate = store_deflate and
      inflate = store_inflate, OF h s] by blast
qed

end
