(* ===== verification/DebugPrint.thy ===== *)
theory DebugPrint
  imports DebugChunk Codec
begin

text \<open>
  The printer of the debug tool \<open>cmd/automerge-debug/main.go\<close>: \<open>main\<close>, \<open>prettyPrintBytes\<close> and
  everything below it. It writes the bytes of a file as commented Go source; its usage text
  promises "valid go syntax containing every input byte", so that the output can be converted
  back into the file.

  The state has what was written so far, the indentation \<open>prefix\<close> and the two package variables
  that carry the value metadata from one column to the next. A line is the current prefix, the
  bytes that are listed and the description behind the comment sign: a format and its
  arguments, as the source passes them to \<open>fmt.Printf\<close>. The texts that the standard library
  makes of numbers, quoted strings, times and errors stay symbolic.

  A Go slice can be resliced up to its capacity. The only place where this matters is the value
  column, which slices by a length from the metadata; it is passed the bytes that lie behind
  it, and the \<open>spare\<close> bytes behind the file are a parameter.
\<close>

section \<open>Output\<close>

datatype piece = Lit string | ErrText go_error | Sprintf string "parg list"
and parg = PInt int | PBool bool | PText "piece list" | PQuoted string | PQuotedRunes string
  | PBytes bytes | PFloat uint64 | PTime go_time

datatype out = Raw string | Line string bytes "piece list" "parg list"

record Meta =
  m_Length :: nat
  m_Type :: byte

record dbg =
  d_out :: "out list"
  d_prefix :: string
  d_metaColumn :: "Meta list"
  d_metaID :: uint32

definition dbg_start :: dbg where
  "dbg_start = \<lparr>d_out = [], d_prefix = [], d_metaColumn = [], d_metaID = 0\<rparr>"

definition fmt_Print :: "string \<Rightarrow> dbg \<Rightarrow> dbg" where
  "fmt_Print t s = s\<lparr>d_out := d_out s @ [Raw t]\<rparr>"

definition pBytes :: "bytes \<Rightarrow> piece list \<Rightarrow> parg list \<Rightarrow> dbg \<Rightarrow> dbg" where
  "pBytes b desc args s = s\<lparr>d_out := d_out s @ [Line (d_prefix s) b desc args]\<rparr>"

text \<open>\<open>defer indent()()\<close>, and \<open>undo := indent()\<close> \<open>\<dots>\<close> \<open>undo()\<close>.\<close>

definition indent :: "(dbg \<Rightarrow> 'a \<times> dbg) \<Rightarrow> dbg \<Rightarrow> 'a \<times> dbg" where
  "indent m s = (case m (s\<lparr>d_prefix := d_prefix s @ ''    ''\<rparr>) of (r, s') \<Rightarrow> (r, s'\<lparr>d_prefix := d_prefix s\<rparr>))"

fun dec_list :: "bytes \<Rightarrow> string" where
  "dec_list [] = []"
| "dec_list [c] = dec_digits (unat c)"
| "dec_list (c # d # b) = dec_digits (unat c) @ '', '' @ dec_list (d # b)"

definition formatBytes :: "bytes \<Rightarrow> string" where
  "formatBytes b = ''['' @ dec_list b @ '']''"

text \<open>\<open>b[0:len(b)-len(rest)]\<close>: what a reader has used of its input.\<close>

definition used :: "bytes \<Rightarrow> bytes \<Rightarrow> bytes" where
  "used b rest = take (length b - length rest) b"

definition err_text :: "string \<Rightarrow> go_error option \<Rightarrow> string \<Rightarrow> piece list" where
  "err_text pre err post = (case err of None \<Rightarrow> [] | Some e \<Rightarrow> [Lit pre, ErrText e, Lit post])"

definition Sprint :: "uint64 \<Rightarrow> piece" where
  "Sprint n = Lit (dec_digits (unat n))"

definition slice_bounds :: go_error where
  "slice_bounds = Errorf ''runtime error: slice bounds out of range'' []"

section \<open>Actors and heads\<close>

text \<open>\<open>None\<close> is the nil slice: the rest of a number without an end is nil, and so are its slices.\<close>

definition printActorID :: "bytes \<Rightarrow> dbg \<Rightarrow> (bytes option \<times> bytes) \<times> dbg" where
  "printActorID b s = (case readULEB b of (l, rest, err) \<Rightarrow>
     let s1 = pBytes (used b rest) ([Lit ''id length = '', Sprint l] @ err_text ''(error: '' err '')'') [] s in
     if 0x7FFFFFFFFFFFFFFF < l \<or> int (length rest) < sint l
     then ((None, []), pBytes rest [Lit ''ERROR: actor id length greater than remains in document''] [] s1)
     else ((if err = Some leb_no_end then None else Some (take (unat l) rest), drop (unat l) rest),
       pBytes (take (unat l) rest) [Lit (''actor ID = '' @ hex_EncodeToString (take (unat l) rest))] [] s1))"

fun actor_ids :: "nat \<Rightarrow> bytes \<Rightarrow> dbg \<Rightarrow> (bytes list \<times> bytes) \<times> dbg" where
  "actor_ids 0 b s = (([], b), s)"
| "actor_ids (Suc n) b s = (case printActorID b s of ((actorID, rest), s1) \<Rightarrow>
     case actor_ids n rest s1 of ((ids, b'), s2) \<Rightarrow>
       ((case actorID of None \<Rightarrow> ids | Some a \<Rightarrow> a # ids, b'), s2))"

definition printActorIDs :: "bytes \<Rightarrow> dbg \<Rightarrow> (bytes list \<times> bytes) \<times> dbg" where
  "printActorIDs b s = (case readULEB b of (n, rest, err) \<Rightarrow>
     indent (actor_ids (unat n) rest)
       (pBytes (used b rest) ([Lit ''number of actor ids = '', Sprint n] @ err_text ''(error: '' err '')'') [] s))"

fun heads_loop :: "nat \<Rightarrow> bytes \<Rightarrow> dbg \<Rightarrow> (bytes list \<times> bytes) \<times> dbg" where
  "heads_loop 0 b s = (([], b), s)"
| "heads_loop (Suc n) b s =
     (if length b = 0 then (([], []), pBytes b [Lit '' ERROR: missing head''] [] s)
      else if length b < 32 then (([], []), pBytes b [Lit '' ERROR: incomplete head''] [] s)
      else case heads_loop n (drop 32 b)
          (pBytes (take 32 b) [Lit ('' head '' @ hex_EncodeToString (take 32 b))] [] s) of
        ((heads, b'), s') \<Rightarrow> ((take 32 b # heads, b'), s'))"

definition printHeads :: "bytes \<Rightarrow> dbg \<Rightarrow> (bytes list \<times> bytes) \<times> dbg" where
  "printHeads b s = (case readULEB b of (n, rest, err) \<Rightarrow>
     indent (heads_loop (unat n) rest)
       (pBytes (used b rest) ([Lit ''number of heads = '', Sprint n] @ err_text ''(error: '' err '')'') [] s))"

fun head_indexes :: "bytes list \<Rightarrow> bytes \<Rightarrow> dbg \<Rightarrow> bytes \<times> dbg" where
  "head_indexes [] b s = (b, s)"
| "head_indexes (h # hs) b s = (case readULEB b of (n, rest, err) \<Rightarrow>
     head_indexes hs rest (case err of
       Some e \<Rightarrow> pBytes (used b rest) [Lit ''%s is change %d (error: %s)'']
         [PText [Lit (hex_EncodeToString h)], PInt (uint n), PText [ErrText e]] s
     | None \<Rightarrow> pBytes (used b rest) [Lit ''%s is change %d''] [PText [Lit (hex_EncodeToString h)], PInt (uint n)] s))"

definition printHeadIndexes :: "bytes \<Rightarrow> bytes list \<Rightarrow> dbg \<Rightarrow> bytes \<times> dbg" where
  "printHeadIndexes b hs s =
     (if length b = 0 then (b, pBytes [] [Lit ''head index omitted''] [] s)
      else indent (head_indexes hs b) (pBytes [] [Lit ''head index''] [] s))"

section \<open>Column metadata\<close>

record Column =
  col_Length :: int64
  col_Spec :: uint32
  col_ID :: uint32
  col_Type :: byte
  col_Deflate :: bool

definition column_of :: "uint64 \<Rightarrow> uint64 \<Rightarrow> Column" where
  "column_of spec l = \<lparr>col_Length = l, col_Spec = ucast spec, col_ID = ucast (drop_bit 4 spec),
     col_Type = ucast (spec AND 0x07), col_Deflate = (0 < spec AND 0x08)\<rparr>"

definition column_errors :: "uint64 \<Rightarrow> go_error option \<Rightarrow> uint64 \<Rightarrow> go_error option \<Rightarrow> piece list" where
  "column_errors spec err l err2 =
     (let errS = (if err \<noteq> None then err_text ''(error in spec: '' err '') ''
        else if 0xFFFFFFFF < spec then [Lit ''(error: spec is too large) ''] else []) in
      if err2 \<noteq> None then errS @ err_text ''(error in length: '' err2 '') ''
      else if 0x7FFFFFFFFFFFFFFF < l then [Lit ''(error: length is too long)''] else errS)"

fun column_meta :: "nat \<Rightarrow> bytes \<Rightarrow> dbg \<Rightarrow> (Column list \<times> bytes) \<times> dbg" where
  "column_meta 0 b s = (([], b), s)"
| "column_meta (Suc n) b s = (case readULEB b of (spec, rest1, err) \<Rightarrow> case readULEB rest1 of (l, rest, err2) \<Rightarrow>
     let col = column_of spec l in
     case column_meta n rest (pBytes (used b rest)
         [Lit ''column (spec = %d, id = %d, type = %d, deflate = %v, length = %d) %s'']
         [PInt (uint spec), PInt (sint (col_ID col)), PInt (sint (col_Type col)), PBool (col_Deflate col),
          PInt (sint (col_Length col)), PText (column_errors spec err l err2)] s) of
       ((cols, b'), s') \<Rightarrow> ((col # cols, b'), s'))"

definition printColumnMeta :: "bytes \<Rightarrow> string \<Rightarrow> dbg \<Rightarrow> (Column list \<times> bytes) \<times> dbg" where
  "printColumnMeta b kind s = (case readULEB b of (n, rest, err) \<Rightarrow>
     indent (column_meta (unat n) rest)
       (pBytes (used b rest) ([Lit (''number of '' @ kind @ '' columns = ''), Sprint n] @ err_text ''(error: '' err '')'') [] s))"

text \<open>The two tables of column names; a name that is not found is the empty string.\<close>

definition named :: "(int \<times> string) list \<Rightarrow> uint32 \<Rightarrow> string" where
  "named t spec = (case map_of t (sint spec) of None \<Rightarrow> [] | Some name \<Rightarrow> name)"

definition changeCols :: "(int \<times> string) list" where
  "changeCols = [(1, ''actor''), (3, ''sequence number''), (19, ''maxOp''), (35, ''time''), (53, ''message''),
     (64, ''dependencies group''), (67, ''dependencies index''), (86, ''extra metadata''), (87, ''extra data'')]"

definition opCols :: "(int \<times> string) list" where
  "opCols = [(1, ''object actor id''), (2, ''object counter''), (17, ''key actor id''), (19, ''key counter''),
     (21, ''key string''), (33, ''actor id''), (35, ''counter''), (52, ''insert''), (66, ''action''),
     (86, ''value meta''), (87, ''value''), (112, ''predecessor group''), (113, ''predecessor actor id''),
     (115, ''predecessor counter''), (128, ''successor group''), (129, ''successor actor id''),
     (131, ''successor counter'')]"

section \<open>Readers\<close>

text \<open>
  What the printer relies on in a reader: it splits its input. Every item that is read is
  listed as the bytes used, and the printer goes on with the rest.
\<close>

locale reader =
  fixes read :: "bytes \<Rightarrow> 'a \<times> bytes \<times> 'b"
  assumes read_suffix: "read b = (v, rest, x) \<Longrightarrow> \<exists>p. b = p @ rest"
begin

lemma used_rest: "read b = (v, rest, x) \<Longrightarrow> used b rest @ rest = b"
  by (drule read_suffix) (auto simp: used_def)

lemma rest_le: "read b = (v, rest, x) \<Longrightarrow> length rest \<le> length b"
  by (drule read_suffix) auto

end

locale progressing_reader = reader +
  assumes read_progress: "read b = (v, rest, x) \<Longrightarrow> b \<noteq> [] \<Longrightarrow> length rest < length b"

lemma readULEB_loop_suffix: "readULEB_loop i n b = (v, rest, e) \<Longrightarrow> \<exists>p. b = p @ rest \<and> (b \<noteq> [] \<longrightarrow> p \<noteq> [])"
proof (induction i n b rule: readULEB_loop.induct)
  case (2 i n c b)
  show ?case
  proof (cases "c AND 0x80 = 0")
    case True
    then have "rest = b" using "2.prems" by (auto simp: Let_def split: if_splits)
    then show ?thesis by auto
  next
    case False
    then have "\<exists>p. b = p @ rest" using 2 by (auto simp: Let_def)
    then show ?thesis by (metis append_Cons list.distinct(1))
  qed
qed auto

lemma readSLEB_loop_suffix: "readSLEB_loop i n prev b = (v, rest, e) \<Longrightarrow> \<exists>p. b = p @ rest \<and> (b \<noteq> [] \<longrightarrow> p \<noteq> [])"
proof (induction i n prev b rule: readSLEB_loop.induct)
  case (2 i n prev c b)
  show ?case
  proof (cases "c AND 0x80 = 0")
    case True
    then have "rest = b" using "2.prems" by (auto simp: Let_def split: if_splits)
    then show ?thesis by auto
  next
    case False
    then have "\<exists>p. b = p @ rest" using 2 by (auto simp: Let_def)
    then show ?thesis by (metis append_Cons list.distinct(1))
  qed
qed auto

interpretation uleb_reader: progressing_reader readULEB
proof
  fix b v rest e
  assume "readULEB b = (v, rest, e)"
  from readULEB_loop_suffix [OF this [unfolded readULEB_def]]
  show "\<exists>p. b = p @ rest" and "b \<noteq> [] \<Longrightarrow> length rest < length b" by auto
qed

interpretation sleb_reader: progressing_reader readSLEB
proof
  fix b v rest e
  assume "readSLEB b = (v, rest, e)"
  from readSLEB_loop_suffix [OF this [unfolded readSLEB_def]]
  show "\<exists>p. b = p @ rest" and "b \<noteq> [] \<Longrightarrow> length rest < length b" by auto
qed

section \<open>Run-length encoded columns\<close>

text \<open>
  The three callbacks of \<open>printRunLengthEncoded\<close>. A callback gives the text for an item, the
  rest of the bytes and, for the value metadata, the entries it appends to \<open>meta\<close>.
\<close>

datatype rle = UlebItem | StringItem | MetaItem

definition rle_uleb :: "bytes \<Rightarrow> piece list \<times> bytes" where
  "rle_uleb b = (case readULEB b of (v, rest, err) \<Rightarrow> ([Sprint v] @ err_text '' (value error: '' err '')'', rest))"

definition rle_string :: "(bytes \<Rightarrow> bool) \<Rightarrow> bytes \<Rightarrow> piece list \<times> bytes" where
  "rle_string utf8_Valid b = (case readULEB b of (l, rest, err) \<Rightarrow>
     let short = (length rest < unat l); sl = (if short then length rest else nat (sint l)); s = take sl rest;
         errS = err_text ''(value error: '' err '')'' @
           (if short then [Lit ''(string error: not enough bytes remaining)''] else []) @
           (if utf8_Valid s then [] else [Lit ''(utf8 error: invalid utf-8)''])
     in ([Sprintf ''%#v %s'' [if utf8_Valid s then PQuoted (bytes_str s) else PQuotedRunes (bytes_str s), PText errS]],
         drop sl rest))"

definition rle_meta :: "bytes \<Rightarrow> int64 \<Rightarrow> piece list \<times> bytes \<times> Meta list" where
  "rle_meta b n = (case readULEB b of (spec, rest, err) \<Rightarrow>
     let m = \<lparr>m_Length = unat (drop_bit 4 spec), m_Type = ucast (spec AND 0x0F)\<rparr> in
     ([Sprintf ''%d (length = %d, type = %d) %s'' [PInt (uint spec), PInt (int (m_Length m)), PInt (sint (m_Type m)),
        PText (err_text '' (meta error: '' err '')'')]], rest, replicate (nat (sint n)) m))"

fun rle_item :: "(bytes \<Rightarrow> bool) \<Rightarrow> rle \<Rightarrow> int64 \<Rightarrow> bytes \<Rightarrow> piece list \<times> bytes \<times> Meta list" where
  "rle_item utf8_Valid UlebItem n b = (case rle_uleb b of (t, rest) \<Rightarrow> (t, rest, []))"
| "rle_item utf8_Valid StringItem n b = (case rle_string utf8_Valid b of (t, rest) \<Rightarrow> (t, rest, []))"
| "rle_item utf8_Valid MetaItem n b = rle_meta b n"

interpretation rle_reader: reader "rle_item u k n"
proof
  fix b v rest x
  assume r: "rle_item u k n b = (v, rest, x)"
  obtain l rest' e where u: "readULEB b = (l, rest', e)" by (cases "readULEB b") auto
  obtain p where p: "b = p @ rest'" using uleb_reader.read_suffix [OF u] by blast
  have "\<exists>q. rest' = q @ rest"
    using r u
    by (cases k) (auto simp: rle_uleb_def rle_string_def rle_meta_def Let_def intro: append_take_drop_id [symmetric])
  then show "\<exists>p. b = p @ rest" using p by auto
qed

fun literal_values :: "(bytes \<Rightarrow> bool) \<Rightarrow> rle \<Rightarrow> nat \<Rightarrow> bytes \<Rightarrow> dbg \<Rightarrow> (bytes \<times> Meta list) \<times> dbg" where
  "literal_values u k 0 b s = ((b, []), s)"
| "literal_values u k (Suc n) b s = (case rle_item u k 1 b of (t, rest, ms) \<Rightarrow>
     case literal_values u k n rest (pBytes (used b rest) t [] s) of ((b', ms'), s') \<Rightarrow> ((b', ms @ ms'), s'))"

lemma literal_values_le: "literal_values u k n b s = ((b', ms), s') \<Longrightarrow> length b' \<le> length b"
  by (induction n arbitrary: b s ms) (fastforce split: prod.splits dest: rle_reader.rest_le)+

lemma indent_literal_le: "length (fst (fst (indent (literal_values u k n b) s))) \<le> length b"
  by (auto simp: indent_def split: prod.splits dest: literal_values_le)

text \<open>Each round of the loop uses at least the byte in which its count ends.\<close>

lemma round_shorter:
  assumes "readSLEB b = (n, rest, err)" and "b \<noteq> []"
  shows "readULEB rest = (l, rest', err') \<Longrightarrow> length rest' < length b"
    and "rle_item u k n rest = (t, rest', ms) \<Longrightarrow> length rest' < length b"
    and "length (fst (fst (indent (literal_values u k m rest) s))) < length b"
  using sleb_reader.read_progress [OF assms] uleb_reader.rest_le [of rest l rest' err']
    rle_reader.rest_le [of u k n rest t rest' ms] indent_literal_le [of u k m rest s] by simp_all

function printRunLengthEncoded :: "(bytes \<Rightarrow> bool) \<Rightarrow> rle \<Rightarrow> bytes \<Rightarrow> dbg \<Rightarrow> Meta list \<times> dbg" where
  "printRunLengthEncoded u k b s = (if b = [] then ([], s) else
     case readSLEB b of (n, rest, err) \<Rightarrow>
       let errS = err_text ''(length error: '' err '') '' in
       if n = 0 then
         (case readULEB rest of (l, rest', err') \<Rightarrow>
           printRunLengthEncoded u k rest' (pBytes (used b rest') [Lit ''null repeated %d times %s'']
             [PInt (uint l), PText (errS @ err_text ''(null error: '' err' '')'')] s))
       else if 0 < sint n then
         (case rle_item u k n rest of (t, rest', ms) \<Rightarrow>
           case printRunLengthEncoded u k rest' (pBytes (used b rest') [Lit ''%s repeated %d times %s'']
             [PText t, PInt (sint n), PText errS] s) of (ms', s') \<Rightarrow> (ms @ ms', s'))
       else
         (case indent (literal_values u k (nat (- sint n)) rest)
             (pBytes (used b rest) [Lit ''%d literal values %s''] [PInt (sint (0 - n)), PText errS] s) of
           ((b', ms), s1) \<Rightarrow> case printRunLengthEncoded u k b' s1 of (ms', s') \<Rightarrow> (ms @ ms', s')))"
  by pat_completeness auto

termination
proof (relation "measure (\<lambda>(u, k, b, s). length b)", goal_cases)
  case (2 u k b s a y rest err t n z rest' err')
  then show ?case using round_shorter(1) [of b a rest err n rest' err'] by simp
next
  case (3 u k b s n y rest err e t z rest' ms)
  then show ?case using round_shorter(2) [of b n rest err u k t rest' ms] by simp
next
  case (4 u k b s n y rest err e t z rest' ms)
  then have "readSLEB b = (n, rest, err)" "rest' = fst t" by auto
  moreover have "t = fst (indent (literal_values u k (nat (- sint n)) rest)
      (pBytes (used b rest) [Lit ''%d literal values %s''] [PInt (sint (0 - n)), PText e] s))" using 4(7) by (metis fst_conv)
  ultimately show ?case using round_shorter(3) 4(1) by simp
qed simp

declare printRunLengthEncoded.simps [simp del]

definition printUlebColumn :: "(bytes \<Rightarrow> bool) \<Rightarrow> bytes \<Rightarrow> dbg \<Rightarrow> dbg" where
  "printUlebColumn u b s = snd (printRunLengthEncoded u UlebItem b s)"

definition printStringColumn :: "(bytes \<Rightarrow> bool) \<Rightarrow> bytes \<Rightarrow> dbg \<Rightarrow> dbg" where
  "printStringColumn u b s = snd (printRunLengthEncoded u StringItem b s)"

definition printValueMetaColumn :: "(bytes \<Rightarrow> bool) \<Rightarrow> bytes \<Rightarrow> dbg \<Rightarrow> Meta list \<times> dbg" where
  "printValueMetaColumn u b s = printRunLengthEncoded u MetaItem b s"

section \<open>Delta, boolean and value columns\<close>

fun literal_deltas :: "nat \<Rightarrow> int64 \<Rightarrow> bytes \<Rightarrow> dbg \<Rightarrow> (int64 \<times> bytes) \<times> dbg" where
  "literal_deltas 0 i b s = ((i, b), s)"
| "literal_deltas (Suc n) i b s = (case readSLEB b of (delta, rest, err) \<Rightarrow>
     let i' = i + delta in
     literal_deltas n i' rest (pBytes (used b rest) [Lit ''%+d = %d %s''] [PInt (sint delta), PInt (sint i'),
       PText (err_text ''(value error: '' err '')'' @ (if sint i' < 0 then [Lit ''(rle error: i < 0)''] else []))] s))"

lemma literal_deltas_le: "literal_deltas n i b s = ((i', b'), s') \<Longrightarrow> length b' \<le> length b"
  by (induction n arbitrary: i b s) (fastforce simp: Let_def split: prod.splits dest: sleb_reader.rest_le)+

lemma indent_deltas_le: "length (snd (fst (indent (literal_deltas n i b) s))) \<le> length b"
  by (auto simp: indent_def split: prod.splits dest: literal_deltas_le)

lemma delta_shorter:
  assumes "readSLEB b = (n, rest, err)" and "b \<noteq> []"
  shows "readSLEB rest = (l, rest', err') \<Longrightarrow> length rest' < length b"
    and "length (snd (fst (indent (literal_deltas m i rest) s))) < length b"
  using sleb_reader.read_progress [OF assms] sleb_reader.rest_le [of rest l rest' err'] indent_deltas_le [of m i rest s] by simp_all

function delta_loop :: "int64 \<Rightarrow> bytes \<Rightarrow> dbg \<Rightarrow> dbg" where
  "delta_loop i b s = (if b = [] then s else
     case readSLEB b of (n, rest, err) \<Rightarrow>
       let errS = err_text ''(length error: '' err '') '' in
       if n = 0 then
         (case readULEB rest of (l, rest', err') \<Rightarrow>
           delta_loop i rest' (pBytes (used b rest') [Lit ''null repeated %d times %s'']
             [PInt (uint l), PText (errS @ err_text ''(null error: '' err' '')'')] s))
       else if 0 < sint n then
         (case readSLEB rest of (delta, rest', err') \<Rightarrow>
           let nextI = i + delta; finalI = i + delta * n;
               errS' = errS @ err_text ''(delta error: '' err' '')'' @ (if sint finalI < 0 then [Lit ''(rle error: i < 0)''] else [])
           in delta_loop finalI rest' (pBytes (used b rest') [Lit ''%d,... %d (%d steps of %d) %s'']
             [PInt (sint nextI), PInt (sint finalI), PInt (sint n), PInt (sint delta), PText errS'] s))
       else
         (case indent (literal_deltas (nat (- sint n)) i rest)
             (pBytes (used b rest) [Lit ''%d literal deltas %s''] [PInt (sint (0 - n)), PText errS] s) of
           ((i', b'), s') \<Rightarrow> delta_loop i' b' s'))"
  by pat_completeness auto

termination
proof (relation "measure (\<lambda>(i, b, s). length b)", goal_cases)
  case (2 i b s a y rest err t n z rest' err')
  then show ?case using round_shorter(1) [of b a rest err n rest' err'] by simp
next
  case (3 i b s n y rest err e t z rest' err')
  then show ?case using delta_shorter(1) [of b n rest err t rest' err'] by simp
next
  case (4 i b s n y rest err e t z i' rest')
  then have "readSLEB b = (n, rest, err)" "rest' = snd t" by auto
  moreover have "t = fst (indent (literal_deltas (nat (- sint n)) i rest)
      (pBytes (used b rest) [Lit ''%d literal deltas %s''] [PInt (sint (0 - n)), PText e] s))" using 4(7) by (metis fst_conv)
  ultimately show ?case using delta_shorter(2) 4(1) by simp
qed simp

declare delta_loop.simps [simp del]

definition printDeltaColumn :: "bytes \<Rightarrow> dbg \<Rightarrow> dbg" where
  "printDeltaColumn b s = delta_loop 0 b s"

function bool_loop :: "bool \<Rightarrow> bytes \<Rightarrow> dbg \<Rightarrow> dbg" where
  "bool_loop now b s = (if b = [] then s else
     case readULEB b of (n, rest, err) \<Rightarrow>
       bool_loop (\<not> now) rest (pBytes (used b rest) [Lit ''%v repeated %v times %s'']
         [PBool now, PInt (uint n), PText (err_text ''(length error: '' err '') '')] s))"
  by pat_completeness auto

termination
proof (relation "measure (\<lambda>(c, b, s). length b)", goal_cases)
  case (2 c b s n y rest err)
  then show ?case using uleb_reader.read_progress [of b n rest err] by simp
qed simp

declare bool_loop.simps [simp del]

definition printBoolColumn :: "bytes \<Rightarrow> dbg \<Rightarrow> dbg" where
  "printBoolColumn b s = bool_loop False b s"

text \<open>\<open>b[:n]\<close>, where \<open>behind\<close> are the bytes between the end of \<open>b\<close> and its capacity.\<close>

definition slice_to :: "bytes \<Rightarrow> bytes \<Rightarrow> nat \<Rightarrow> bytes option" where
  "slice_to behind b n = (if n \<le> length (b @ behind) then Some (take n (b @ behind)) else None)"

text \<open>The text of a value and the length it should have; \<open>v\<close> is \<open>b[:m.Length]\<close>.\<close>

definition value_text :: "(bytes \<Rightarrow> bool) \<Rightarrow> bytes \<Rightarrow> bytes \<Rightarrow> Meta \<Rightarrow> piece list \<times> nat" where
  "value_text utf8_Valid b v m =
     (let leb = (\<lambda>name n rest err. ([Sprintf name [n]] @ err_text ''(uleb error: '' err '')'', m_Length m - length rest)) in
      if m_Type m = 0 then ([Lit ''null''], 0)
      else if m_Type m = 1 then ([Lit ''false''], 0)
      else if m_Type m = 2 then ([Lit ''true''], 0)
      else if m_Type m = 3 then (case readULEB v of (u, rest, err) \<Rightarrow> leb ''uint %d'' (PInt (uint u)) rest err)
      else if m_Type m = 4 then (case readSLEB v of (i, rest, err) \<Rightarrow> leb ''uint %d'' (PInt (sint i)) rest err)
      else if m_Type m = 5 then (if length b < 8 then [] else [Sprintf ''float %v'' [PFloat (Uint64 b)]], 8)
      else if m_Type m = 6 then ([Sprintf ''string %#v'' [PQuoted (bytes_str v)]] @
        (if utf8_Valid v then [] else [Lit '' (utf-8 error: invalid utf-8)'']), m_Length m)
      else if m_Type m = 7 then ([Sprintf ''bytes %#v'' [PBytes v]], m_Length m)
      else if m_Type m = 8 then (case readSLEB v of (i, rest, err) \<Rightarrow> leb ''counter %d'' (PInt (sint i)) rest err)
      else if m_Type m = 9 then (case readSLEB v of (i, rest, err) \<Rightarrow> leb ''time %v'' (PTime (time_UnixMilli i)) rest err)
      else ([Sprintf ''(error unknown value type = %d'' [PInt (sint (m_Type m))]], m_Length m))"

text \<open>
  The text of a value is passed to \<open>pBytes\<close> as the format. For a float with fewer than eight
  bytes left, the bytes left are listed before the switch is left.
\<close>

fun printValueColumn :: "(bytes \<Rightarrow> bool) \<Rightarrow> bytes \<Rightarrow> bytes \<Rightarrow> Meta list \<Rightarrow> (dbg, unit) comp" where
  "printValueColumn u behind b [] s = (Ok (), s)"
| "printValueColumn u behind b (m # ms) s =
     (let s1 = (if m_Type m = 5 \<and> length b < 8 then pBytes b [Lit ''ERROR: not enough bytes for float''] [] s else s) in
      case slice_to behind b (m_Length m) of
        None \<Rightarrow> (Panic slice_bounds, s1)
      | Some v \<Rightarrow> (case value_text u b v m of (t, expected) \<Rightarrow>
          let t' = (if m_Length m \<noteq> expected
                then t @ [Sprintf '' (error: value length %d != %d from metadata)'' [PInt (int expected), PInt (int (m_Length m))]]
                else t);
              s2 = pBytes v t' [] s1
          in if length b < m_Length m then (Panic slice_bounds, s2)
             else printValueColumn u behind (drop (m_Length m) b) ms s2))"

section \<open>Columns\<close>

definition printColumn :: "(bytes \<Rightarrow> bool) \<Rightarrow> bytes \<Rightarrow> bytes \<Rightarrow> Column \<Rightarrow> (dbg, unit) comp" where
  "printColumn u behind b c s =
     (if col_Deflate c then (Ok (), pBytes b [Lit ''Compresed column''] [] s)
      else if col_Type c = 0 \<or> col_Type c = 1 \<or> col_Type c = 2 then (Ok (), printUlebColumn u b s)
      else if col_Type c = 3 then (Ok (), printDeltaColumn b s)
      else if col_Type c = 4 then (Ok (), printBoolColumn b s)
      else if col_Type c = 5 then (Ok (), printStringColumn u b s)
      else if col_Type c = 6 then (case printValueMetaColumn u b s of (meta, s') \<Rightarrow>
        (Ok (), s'\<lparr>d_metaColumn := meta, d_metaID := col_ID c\<rparr>))
      else if col_Type c = 7 then
        (if d_metaID s = col_ID c then printValueColumn u behind b (d_metaColumn s) s
         else (Ok (), pBytes b [Lit ''ERROR: value column with no metadata''] [PInt (sint (col_Type c))] s))
      else (Ok (), pBytes b [Lit ''ERROR: unknown column format %d''] [PInt (sint (col_Type c))] s))"

definition titled_column :: "(int \<times> string) list \<Rightarrow> (bytes \<Rightarrow> bool) \<Rightarrow> bytes \<Rightarrow> bytes \<Rightarrow> Column \<Rightarrow> (dbg, unit) comp" where
  "titled_column names u behind b c s =
     (let title = (if named names (col_Spec c) = []
        then [Sprintf ''Unknown (id=%d, type=%d)'' [PInt (sint (col_ID c)), PInt (sint (col_Type c))]]
        else [Lit (named names (col_Spec c))])
      in indent (printColumn u behind b c) (pBytes [] [Lit ''%v column''] [PText title] s))"

definition printChangeColumn :: "(bytes \<Rightarrow> bool) \<Rightarrow> bytes \<Rightarrow> bytes \<Rightarrow> Column \<Rightarrow> (dbg, unit) comp" where
  "printChangeColumn = titled_column changeCols"

definition printOperationColumn :: "(bytes \<Rightarrow> bool) \<Rightarrow> bytes \<Rightarrow> bytes \<Rightarrow> Column \<Rightarrow> (dbg, unit) comp" where
  "printOperationColumn = titled_column opCols"

section \<open>Chunks\<close>

text \<open>The loops over the columns; \<open>None\<close> is the early return of the caller.\<close>

fun print_columns ::
  "(bytes \<Rightarrow> bytes \<Rightarrow> Column \<Rightarrow> (dbg, unit) comp) \<Rightarrow> bytes \<Rightarrow> Column list \<Rightarrow> bytes \<Rightarrow> (dbg, bytes option) comp" where
  "print_columns p spare [] b s = (Ok (Some b), s)"
| "print_columns p spare (c # cs) b s =
     (if int (length b) < sint (col_Length c)
      then (Ok None, pBytes b [Lit ''ERROR: not enough bytes to read column length = %d''] [PInt (sint (col_Length c))] s)
      else if sint (col_Length c) < 0 then (Panic slice_bounds, s)
      else let n = nat (sint (col_Length c)) in
        andThen (p (drop n b @ spare) (take n b) c) (\<lambda>_. print_columns p spare cs (drop n b)) s)"

text \<open>What is left behind the last column, if the columns were there.\<close>

definition print_rest :: "string \<Rightarrow> bytes \<Rightarrow> dbg \<Rightarrow> unit outcome \<times> dbg" where
  "print_rest desc b s = (Ok (), if 0 < length b then pBytes b [Lit desc] [] s else s)"

definition prettyPrintDoc :: "(bytes \<Rightarrow> bool) \<Rightarrow> bytes \<Rightarrow> bytes \<Rightarrow> (dbg, unit) comp" where
  "prettyPrintDoc u spare b = indent (\<lambda>s0.
     case printActorIDs b s0 of ((_, b1), s1) \<Rightarrow>
     case printHeads b1 s1 of ((hs, b2), s2) \<Rightarrow>
     case printColumnMeta b2 ''change'' s2 of ((cc, b3), s3) \<Rightarrow>
     case printColumnMeta b3 ''operation'' s3 of ((oc, b4), s4) \<Rightarrow>
       andThen (print_columns (printChangeColumn u) spare cc b4) (\<lambda>r. case r of None \<Rightarrow> ret () | Some b5 \<Rightarrow>
       andThen (print_columns (printOperationColumn u) spare oc b5) (\<lambda>r. case r of None \<Rightarrow> ret () | Some b6 \<Rightarrow>
         (\<lambda>s. case printHeadIndexes b6 hs s of (b7, s7) \<Rightarrow> print_rest ''remaining data in chunk'' b7 s7))) s4)"

definition number_line :: "string \<Rightarrow> (uint64 \<Rightarrow> parg) \<Rightarrow> (bytes \<Rightarrow> uint64 \<times> bytes \<times> go_error option) \<Rightarrow> bytes \<Rightarrow> dbg \<Rightarrow> bytes \<times> dbg" where
  "number_line desc arg read b s = (case read b of (n, rest, err) \<Rightarrow>
     (rest, pBytes (used b rest) [Lit desc] [arg n, PText (err_text ''(error: '' err '')'')] s))"

text \<open>The fields of a change up to its time.\<close>

definition change_fields :: "bytes \<Rightarrow> dbg \<Rightarrow> bytes \<times> dbg" where
  "change_fields b s0 =
     (case printHeads b s0 of ((_, b1), s1) \<Rightarrow>
      case printActorID b1 s1 of ((_, b2), s2) \<Rightarrow>
      case number_line ''sequence number = %v %s'' (\<lambda>n. PInt (uint n)) readULEB b2 s2 of (b3, s3) \<Rightarrow>
      case number_line ''start op = %v %s'' (\<lambda>n. PInt (uint n)) readULEB b3 s3 of (b4, s4) \<Rightarrow>
        number_line ''time = %v %s'' (\<lambda>ms. if ms = 0 then PInt 0 else PTime (time_UnixMilli ms)) readSLEB b4 s4)"

definition prettyPrintChange :: "(bytes \<Rightarrow> bool) \<Rightarrow> bytes \<Rightarrow> bytes \<Rightarrow> (dbg, unit) comp" where
  "prettyPrintChange u spare b = indent (\<lambda>s0.
     case change_fields b s0 of (b5, s5) \<Rightarrow>
     case readULEB b5 of (mlen, rest, err) \<Rightarrow>
       let lenText = [PInt (uint mlen), PText (err_text ''(error: '' err '')'')] in
       if length rest < unat mlen
       then (Ok (), pBytes rest [Lit ''commit message (truncated)''] []
         (pBytes (used b5 rest) [Lit ''message len = %v (error: too long) %s''] lenText s5))
       else
         let msg = take (unat mlen) rest;
             s6 = pBytes msg [Lit ''commit message = %#v''] [PQuoted (bytes_str msg)]
               (pBytes (used b5 rest) [Lit ''message len = %v %s''] lenText s5)
         in
         case printActorIDs (drop (unat mlen) rest) s6 of ((_, b7), s7) \<Rightarrow>
         case printColumnMeta b7 ''operation'' s7 of ((oc, b8), s8) \<Rightarrow>
           andThen (print_columns (printOperationColumn u) spare oc b8) (\<lambda>r. case r of None \<Rightarrow> ret () | Some b9 \<Rightarrow>
             print_rest ''extra bytes'' b9) s8)"

definition chunk_kind_text :: "byte \<Rightarrow> string" where
  "chunk_kind_text t = (if t = 0 then ''type = DOCUMENT CHUNK'' else if t = 1 then ''type = CHANGE CHUNK''
     else if t = 2 then '' type = COMPRESSED CHUNK'' else ''type = INVALID (should be 0, 1 or 2)'')"

text \<open>The four bytes of the checksum, against the hash of what follows them in the chunk.\<close>

definition print_checksum :: "bytes \<Rightarrow> bytes \<Rightarrow> byte \<Rightarrow> dbg \<Rightarrow> dbg" where
  "print_checksum hash given t = pBytes given
     (if t = 2 then [Lit ''checksum (not validated)'']
      else if hash ! 0 \<noteq> given ! 0 \<or> hash ! 1 \<noteq> given ! 1 \<or> hash ! 2 \<noteq> given ! 2 \<or> hash ! 3 \<noteq> given ! 3
      then [Lit (''ERROR: checksum mis-match (should be'' @ formatBytes (take 4 hash) @ '')'')]
      else [Lit ''checksum (valid)'']) []"

definition prettyPrintChunk :: "(bytes \<Rightarrow> bytes) \<Rightarrow> (bytes \<Rightarrow> bool) \<Rightarrow> bytes \<Rightarrow> bytes \<Rightarrow> (dbg, bytes) comp" where
  "prettyPrintChunk sha u spare b s =
     (if length b < 10 then
        (Ok [], pBytes b [Lit ''ERROR: too short (expected magic bytes, checksum, type and length)''] [] s)
      else
        let s1 = pBytes (take 4 b) [if b ! 0 \<noteq> 133 \<or> b ! 1 \<noteq> 111 \<or> b ! 2 \<noteq> 74 \<or> b ! 3 \<noteq> 131
              then Lit ''ERROR: invalid magic bytes'' else Lit ''magic bytes (valid)''] [] s;
            t = b ! 8 in
        case readULEB (drop 9 b) of (i, chunk, err0) \<Rightarrow>
          let lebLength = length b - length chunk - 9;
              declared = word_of_nat (9 + lebLength) + i :: int64;
              over = int (length b) < sint declared;
              chunkEnd = (if over then int (length b) else sint declared);
              err = (if over then Some (Errorf ''longer than remaining data: %v'' [AInt (int (length b))]) else err0)
          in
          if chunkEnd < 8 then (Panic slice_bounds, s1)
          else
            let hash = sha (drop 8 (take (nat chunkEnd) b));
                lenBytes = take lebLength (drop 9 b);
                s2 = print_checksum hash (take 4 (drop 4 b)) t s1;
                s3 = pBytes (take 1 (drop 8 b)) [Lit (chunk_kind_text t)] [] s2;
                s4 = (case err of None \<Rightarrow> s3 | Some e \<Rightarrow>
                  pBytes lenBytes [Lit ''length = '', Sprint i, Lit '' (error: '', ErrText e, Lit '')''] [] s3);
                s5 = pBytes lenBytes [Lit ''length = '', Sprint i] [] s4
            in andThen
                 (if t = 0 then prettyPrintDoc u spare chunk
                  else if t = 1 then prettyPrintChange u spare chunk
                  else if t = 2 then (\<lambda>s. (Ok (), pBytes chunk [Lit ''DEFLATE stream''] [] s))
                  else (\<lambda>s. (Ok (), pBytes chunk [Lit ''chunk data''] [] s)))
                 (\<lambda>_. ret (if int (length b) \<le> sint declared then [] else drop (nat (sint declared)) b)) s5)"

lemma prettyPrintChunk_shorter:
  assumes "prettyPrintChunk sha u spare b s = (Ok b', s')" and "b \<noteq> []"
  shows "length b' < length b"
proof (cases "length b < 10")
  case False
  then have "b' = [] \<or> (\<exists>d :: int64. b' = drop (nat (sint d)) b \<and> 8 \<le> sint d)"
    using assms(1)
    by (auto simp: prettyPrintChunk_def Let_def andThen_def ret_def split: prod.splits outcome.splits if_splits)
  then show ?thesis using assms(2) False by auto
qed (use assms in \<open>auto simp: prettyPrintChunk_def\<close>)

function chunks_loop :: "(bytes \<Rightarrow> bytes) \<Rightarrow> (bytes \<Rightarrow> bool) \<Rightarrow> bytes \<Rightarrow> bytes \<Rightarrow> (dbg, unit) comp" where
  "chunks_loop sha u spare b s = (if b = [] then (Ok (), s) else
     case prettyPrintChunk sha u spare b s of
       (Ok b', s') \<Rightarrow> chunks_loop sha u spare b' s'
     | (Error e, s') \<Rightarrow> (Error e, s')
     | (Panic p, s') \<Rightarrow> (Panic p, s'))"
  by pat_completeness auto

termination
proof (relation "measure (\<lambda>(sha, u, spare, b, s). length b)", goal_cases)
  case (2 sha u spare b s r s' b')
  then show ?case using prettyPrintChunk_shorter [of sha u spare b s b' s'] by simp
qed simp

declare chunks_loop.simps [simp del]

definition prettyPrintBytes :: "(bytes \<Rightarrow> bytes) \<Rightarrow> (bytes \<Rightarrow> bool) \<Rightarrow> bytes \<Rightarrow> bytes \<Rightarrow> (dbg, unit) comp" where
  "prettyPrintBytes sha u spare b s =
     andThen (chunks_loop sha u spare b) (\<lambda>_ s'. (Ok (), fmt_Print (''}'' @ [CHR 10]) s')) (fmt_Print ''[]byte{'' s)"

section \<open>The command\<close>

record flags =
  f_prefix :: string
  f_raw :: bool
  f_compress :: bool
  f_decompress :: bool
  f_checksum :: bool

text \<open>
  \<open>main\<close> after the flags are parsed, on the file as it was read. An \<open>Error\<close> is a message on the
  error stream (for an unreadable file, on the output) and the exit code 1.
\<close>

definition transformed ::
  "(bytes \<Rightarrow> bytes) \<Rightarrow> (bytes \<Rightarrow> bytes) \<Rightarrow> (bytes \<Rightarrow> bytes outcome) \<Rightarrow> flags \<Rightarrow> bytes \<Rightarrow> bytes outcome" where
  "transformed sha deflate inflate f file =
     and_then (if take 3 (f_prefix f) = ''doc'' then Ok (addHeader sha file 0)
       else if take 2 (f_prefix f) = ''ch'' then Ok (addHeader sha file 1)
       else if f_checksum f then fixChecksum sha deflate inflate file
       else Ok file) (\<lambda>file.
     if f_compress f then compressChunk deflate file
     else if f_decompress f then decompressChunk inflate file
     else Ok file)"

definition main ::
  "(bytes \<Rightarrow> bytes) \<Rightarrow> (bytes \<Rightarrow> bytes) \<Rightarrow> (bytes \<Rightarrow> bytes outcome) \<Rightarrow> (bytes \<Rightarrow> bool) \<Rightarrow> bytes \<Rightarrow> flags \<Rightarrow>
     go_error + bytes \<Rightarrow> unit outcome \<times> dbg" where
  "main sha deflate inflate u spare f input = (case input of
     Inl e \<Rightarrow> (Error e, dbg_start)
   | Inr file \<Rightarrow> andThen (lift (transformed sha deflate inflate f file)) (\<lambda>file.
       if f_raw f then (\<lambda>s. (Ok (), fmt_Print (bytes_str file) s))
       else prettyPrintBytes sha u spare file) dbg_start)"

end
