(* ===== verification/DebugListing.thy ===== *)
theory DebugListing
  imports DebugPrint
begin

text \<open>
  The promise of the debug tool: its output contains every input byte. \<open>listed\<close> is the sequence
  of all bytes that the output lists. The lemmas follow the structure of the printer: every part
  of it lists exactly the bytes that it consumes. The one part of which this is not true is the
  value column, which goes by the lengths in the metadata column, so the main theorem asks that
  these lengths add up (\<open>values_fit\<close>).
\<close>

section \<open>What is listed\<close>

fun line_bytes :: "out \<Rightarrow> bytes" where
  "line_bytes (Raw t) = []"
| "line_bytes (Line pre b desc args) = b"

definition listed :: "dbg \<Rightarrow> bytes" where
  "listed s = concat (map line_bytes (d_out s))"

text \<open>The rest of the state: the indentation and the metadata of the last metadata column.\<close>

definition frame :: "dbg \<Rightarrow> string \<times> uint32 \<times> Meta list" where
  "frame s = (d_prefix s, d_metaID s, d_metaColumn s)"

text \<open>
  A part of the printer whose result \<open>r\<close> does not depend on the state, which lists the bytes \<open>p\<close>
  and leaves the rest of the state as it was.
\<close>

definition prints :: "(dbg \<Rightarrow> 'a \<times> dbg) \<Rightarrow> 'a \<Rightarrow> bytes \<Rightarrow> bool" where
  "prints m r p \<longleftrightarrow> (\<forall>s. fst (m s) = r \<and> listed (snd (m s)) = listed s @ p \<and> frame (snd (m s)) = frame s)"

lemma prints_apply:
  assumes "prints m r p"
  obtains s' where "m s = (r, s')" "listed s' = listed s @ p" "frame s' = frame s"
  using assms by (metis prints_def prod.collapse)

lemma printsI:
  assumes "\<And>s. \<exists>s'. m s = (r, s') \<and> listed s' = listed s @ p \<and> frame s' = frame s"
  shows "prints m r p"
  unfolding prints_def by (metis assms fst_conv snd_conv)

lemma pBytes_effect [simp]: "listed (pBytes b desc args s) = listed s @ b" "frame (pBytes b desc args s) = frame s"
  by (simp_all add: pBytes_def listed_def frame_def)

lemma fmt_Print_effect [simp]: "listed (fmt_Print t s) = listed s" "frame (fmt_Print t s) = frame s"
  by (simp_all add: fmt_Print_def listed_def frame_def)

lemma prefix_effect [simp]: "listed (s\<lparr>d_prefix := x\<rparr>) = listed s" "frame (s\<lparr>d_prefix := x\<rparr>) = (x, snd (frame s))"
  by (simp_all add: listed_def frame_def)

lemma indent_effect:
  assumes "m (s\<lparr>d_prefix := d_prefix s @ ''    ''\<rparr>) = (r, s')" and "listed s' = listed s @ p" and "snd (frame s') = F"
  shows "\<exists>s''. indent m s = (r, s'') \<and> listed s'' = listed s @ p \<and> frame s'' = (d_prefix s, F)"
  using assms by (simp add: indent_def)

lemma prints_indent: "prints m r p \<Longrightarrow> prints (indent m) r p"
proof (rule printsI)
  fix s
  assume "prints m r p"
  then obtain s' where "m (s\<lparr>d_prefix := d_prefix s @ ''    ''\<rparr>) = (r, s')" "listed s' = listed s @ p" "snd (frame s') = snd (frame s)"
    by (rule prints_apply [of m r p "s\<lparr>d_prefix := d_prefix s @ ''    ''\<rparr>"]) simp
  from indent_effect [of m s r s' p, OF this] show "\<exists>s'. indent m s = (r, s') \<and> listed s' = listed s @ p \<and> frame s' = frame s"
    by (auto simp: frame_def)
qed

lemma prints_after: "prints m r p \<Longrightarrow> prints (\<lambda>s. m (pBytes b desc args s)) r (b @ p)"
  by (simp add: prints_def)

lemma prints_return: "prints (\<lambda>s. (r, s)) r []"
  by (simp add: prints_def)

lemma prints_pBytes: "prints (\<lambda>s. (r, pBytes b desc args s)) r b"
  by (simp add: prints_def)

lemma prints_then:
  assumes "prints m x p" and "prints (f x) r q"
  shows "prints (\<lambda>s. case m s of (x, s') \<Rightarrow> f x s') r (p @ q)"
proof (rule printsI)
  fix s
  obtain s1 where "m s = (x, s1)" "listed s1 = listed s @ p" "frame s1 = frame s" by (rule prints_apply [OF assms(1)])
  moreover obtain s2 where "f x s1 = (r, s2)" "listed s2 = listed s1 @ q" "frame s2 = frame s1" by (rule prints_apply [OF assms(2)])
  ultimately show "\<exists>s'. (case m s of (x, s') \<Rightarrow> f x s') = (r, s') \<and> listed s' = listed s @ p @ q \<and> frame s' = frame s"
    by simp
qed

lemma prints_map: "prints m x p \<Longrightarrow> prints (\<lambda>s. case m s of (x, s') \<Rightarrow> (f x, s')) (f x) p"
  by (simp add: prints_def split_beta)

lemma prints_if:
  "(c \<Longrightarrow> prints m r p) \<Longrightarrow> (\<not> c \<Longrightarrow> prints m' r p) \<Longrightarrow> prints (\<lambda>s. if c then m s else m' s) r p"
  by (cases c) simp_all

section \<open>Parts that consume bytes\<close>

text \<open>Everything is listed or left over: the bytes of \<open>b\<close> are those listed and those in the result.\<close>

definition splits :: "(dbg \<Rightarrow> ('a \<times> bytes) \<times> dbg) \<Rightarrow> bytes \<Rightarrow> bool" where
  "splits m b \<longleftrightarrow> (\<exists>r p. prints m r p \<and> p @ snd r = b)"

lemma splitsI: "prints m (x, rest) p \<Longrightarrow> p @ rest = b \<Longrightarrow> splits m b"
  by (force simp: splits_def)

lemma splitsE:
  assumes "splits m b"
  obtains x rest p where "prints m (x, rest) p" "p @ rest = b"
  using assms by (auto simp: splits_def)

lemma splits_indent: "splits m b \<Longrightarrow> splits (indent m) b"
  by (auto simp: splits_def intro: prints_indent)

lemma splits_after: "splits m rest \<Longrightarrow> c @ rest = b \<Longrightarrow> splits (\<lambda>s. m (pBytes c desc args s)) b"
  by (force simp: splits_def intro: prints_after)

lemma splits_return: "splits (\<lambda>s. ((x, b), s)) b"
  using prints_return [of "(x, b)"] by (force simp: splits_def)

lemma splits_all: "splits (\<lambda>s. ((x, []), pBytes b desc args s)) b"
  using prints_pBytes [of "(x, [])" b desc args] by (force simp: splits_def)

lemma splits_then:
  assumes "splits m b" and "\<And>x rest. splits (f x rest) rest"
  shows "splits (\<lambda>s. case m s of ((x, rest), s') \<Rightarrow> f x rest s') b"
proof -
  obtain x rest p where m: "prints m (x, rest) p" "p @ rest = b" using assms(1) by (rule splitsE)
  obtain y rest' q where f: "prints (f x rest) (y, rest') q" "q @ rest' = rest" using assms(2) by (rule splitsE)
  have "prints (\<lambda>s. case m s of (z, s') \<Rightarrow> case_prod f z s') (y, rest') (p @ q)"
    by (rule prints_then [OF m(1)]) (simp add: f(1))
  moreover have "(\<lambda>s. case m s of (z, s') \<Rightarrow> case_prod f z s') = (\<lambda>s. case m s of ((x, rest), s') \<Rightarrow> f x rest s')"
    by (auto split: prod.splits)
  ultimately show ?thesis using m(2) f(2) by (intro splitsI [of _ y rest' "p @ q"]) auto
qed

lemma splits_map: "splits m b \<Longrightarrow> splits (\<lambda>s. case m s of ((x, rest), s') \<Rightarrow> ((f x, rest), s')) b"
  by (rule splits_then [OF _ splits_return])

lemma splits_printActorID: "splits (printActorID b) b"
proof -
  obtain l rest err where u: "readULEB b = (l, rest, err)" by (cases "readULEB b") auto
  have "splits (\<lambda>s. ((x, drop n rest), pBytes (take n rest) desc args s)) rest" for x :: "bytes option" and n desc args
    by (rule splitsI [OF prints_pBytes]) simp
  then have "splits (\<lambda>s. printActorID b s) b"
    unfolding printActorID_def u prod.case Let_def
    by (cases "0x7FFFFFFFFFFFFFFF < l \<or> int (length rest) < sint l")
      (simp_all only: if_True if_False, (rule splits_after [OF _ uleb_reader.used_rest [OF u]], (rule splits_all | assumption))+)
  then show ?thesis by simp
qed

lemma splits_actor_ids: "splits (actor_ids n b) b"
proof (induction n arbitrary: b)
  case 0
  then show ?case using splits_return [of "[]" b] by (simp add: fun_eq_iff cong: if_cong)
next
  case (Suc n)
  have "splits (\<lambda>s. case printActorID b s of ((a, rest), s1) \<Rightarrow>
      case actor_ids n rest s1 of ((ids, b'), s2) \<Rightarrow> ((case a of None \<Rightarrow> ids | Some a \<Rightarrow> a # ids, b'), s2)) b"
    by (intro splits_then [OF splits_printActorID] splits_map Suc)
  then show ?case by simp
qed

lemma splits_heads_loop: "splits (heads_loop n b) b"
proof (induction n arbitrary: b)
  case 0
  then show ?case using splits_return [of "[]" b] by simp
next
  case (Suc n)
  have step: "splits (\<lambda>s. case heads_loop n (drop 32 b) (pBytes (take 32 b) desc args s) of
      ((heads, b'), s') \<Rightarrow> ((take 32 b # heads, b'), s')) b" for desc args
    by (rule splits_map, rule splits_after [OF Suc]) simp
  show ?case
  proof (cases "length b < 32")
    case True
    then show ?thesis
      using splits_all [of "[]" b "[Lit '' ERROR: missing head'']" "[]"] splits_all [of "[]" b "[Lit '' ERROR: incomplete head'']" "[]"]
      by (cases "length b = 0") simp_all
  next
    case False
    then have "length b \<noteq> 0" by auto
    then show ?thesis using step False by (simp only: heads_loop.simps if_False simp_thms)
  qed
qed

lemma splits_column_meta: "splits (column_meta n b) b"
proof (induction n arbitrary: b)
  case 0
  then show ?case using splits_return [of "[]" b] by simp
next
  case (Suc n)
  obtain spec rest1 err where u: "readULEB b = (spec, rest1, err)" by (cases "readULEB b") auto
  obtain l rest err2 where u2: "readULEB rest1 = (l, rest, err2)" by (cases "readULEB rest1") auto
  have "used b rest @ rest = b"
    using uleb_reader.read_suffix [OF u] uleb_reader.read_suffix [OF u2] by (auto simp: used_def)
  then have "splits (\<lambda>s. case column_meta n rest (pBytes (used b rest) desc args s) of
      ((cols, b'), s') \<Rightarrow> ((column_of spec l # cols, b'), s')) b" for desc args
    by (intro splits_map splits_after [OF Suc])
  then show ?case by (simp add: u u2 Let_def)
qed

text \<open>A counted list: the count, then the indented items.\<close>

lemma splits_counted:
  assumes "readULEB b = (n, rest, err)" and "splits (m (unat n) rest) rest"
  shows "splits (\<lambda>s. indent (m (unat n) rest) (pBytes (used b rest) desc args s)) b"
  by (rule splits_after [OF splits_indent [OF assms(2)] uleb_reader.used_rest [OF assms(1)]])

lemma splits_lists: "splits (printActorIDs b) b" "splits (printHeads b) b" "splits (\<lambda>s. printColumnMeta b kind s) b"
proof -
  obtain n rest err where u: "readULEB b = (n, rest, err)" by (cases "readULEB b") auto
  note c = splits_counted [OF u]
  have "splits (\<lambda>s. printActorIDs b s) b" "splits (\<lambda>s. printHeads b s) b"
    unfolding printActorIDs_def printHeads_def u prod.case by (rule c, rule splits_actor_ids splits_heads_loop)+
  then show "splits (printActorIDs b) b" "splits (printHeads b) b" by simp_all
  show "splits (\<lambda>s. printColumnMeta b kind s) b"
    unfolding printColumnMeta_def u prod.case by (rule c, rule splits_column_meta)
qed

lemma prints_head_indexes:
  "\<exists>rest p. prints (head_indexes hs b) rest p \<and> p @ rest = b"
proof (induction hs arbitrary: b)
  case Nil
  then show ?case using prints_return [of b] by auto
next
  case (Cons h hs)
  obtain n rest err where u: "readULEB b = (n, rest, err)" by (cases "readULEB b") auto
  obtain rest' p where p: "prints (head_indexes hs rest) rest' p" "p @ rest' = rest" using Cons by blast
  from prints_after [OF p(1), of "used b rest"] have "prints (\<lambda>s. head_indexes (h # hs) b s) rest' (used b rest @ p)"
    by (cases err) (simp_all add: u)
  then show ?case using p(2) uleb_reader.used_rest [OF u] by (metis append.assoc)
qed

lemma prints_printHeadIndexes: "\<exists>rest p. prints (printHeadIndexes b hs) rest p \<and> p @ rest = b"
proof -
  obtain rest p where p: "prints (head_indexes hs b) rest p" "p @ rest = b" using prints_head_indexes by blast
  have "prints (\<lambda>s. printHeadIndexes b hs s) (if length b = 0 then b else rest) (if length b = 0 then [] else p)"
    using prints_after [OF prints_indent [OF p(1)], of "[]"] prints_pBytes [of "[] :: bytes" "[]"] by (simp add: printHeadIndexes_def)
  then show ?thesis using p(2) by (cases "length b = 0") auto
qed

section \<open>Columns\<close>

lemma prints_literal_values: "\<exists>rest ms p. prints (literal_values u k n b) (rest, ms) p \<and> p @ rest = b"
proof (induction n arbitrary: b)
  case 0
  then show ?case using prints_return [of "(b, [])"] by auto
next
  case (Suc n)
  obtain t rest ms where r: "rle_item u k 1 b = (t, rest, ms)" by (cases "rle_item u k 1 b") auto
  obtain rest' ms' p where p: "prints (literal_values u k n rest) (rest', ms') p" "p @ rest' = rest" using Suc by blast
  have "prints (\<lambda>s. case literal_values u k n rest (pBytes (used b rest) t [] s) of
      (x, s') \<Rightarrow> (case x of (b', ms') \<Rightarrow> \<lambda>s'. ((b', ms @ ms'), s')) s') (rest', ms @ ms') ((used b rest @ p) @ [])"
    by (rule prints_then [OF prints_after [OF p(1)]]) (simp add: prints_return)
  then have "prints (\<lambda>s. literal_values u k (Suc n) b s) (rest', ms @ ms') (used b rest @ p)"
    by (simp add: r split_beta)
  then show ?case using p(2) rle_reader.used_rest [OF r] by (metis append.assoc)
qed

lemma prints_literal_deltas: "\<exists>rest i' p. prints (literal_deltas n i b) (i', rest) p \<and> p @ rest = b"
proof (induction n arbitrary: i b)
  case 0
  then show ?case using prints_return [of "(i, b)"] by auto
next
  case (Suc n)
  obtain d rest err where r: "readSLEB b = (d, rest, err)" by (cases "readSLEB b") auto
  obtain rest' i' p where p: "prints (literal_deltas n (i + d) rest) (i', rest') p" "p @ rest' = rest" using Suc by blast
  from prints_after [OF p(1), of "used b rest"] have "prints (\<lambda>s. literal_deltas (Suc n) i b s) (i', rest') (used b rest @ p)"
    by (simp add: r Let_def)
  then show ?case using p(2) sleb_reader.used_rest [OF r] by (metis append.assoc)
qed

text \<open>Two readers one after the other use what the first one leaves.\<close>

lemma used_twice:
  assumes "b = p @ rest" and "rest = q @ rest'"
  shows "used b rest' @ rest' = b"
  using assms by (simp add: used_def)

text \<open>Every run-length encoded column is listed whole, with whatever errors it has.\<close>

lemma prints_printRunLengthEncoded: "\<exists>ms. prints (printRunLengthEncoded u k b) ms b"
proof (induction "length b" arbitrary: b rule: less_induct)
  case less
  show ?case
  proof (cases "b = []")
    case True
    then show ?thesis
      using prints_return [of "[]"] by (intro exI [of _ "[]"]) (simp add: printRunLengthEncoded.simps [abs_def])
  next
    case False
    obtain n rest err where r: "readSLEB b = (n, rest, err)" by (cases "readSLEB b") auto
    obtain p where b: "b = p @ rest" using sleb_reader.read_suffix [OF r] by blast
    note shorter = round_shorter [OF r False] and unfold = printRunLengthEncoded.simps [of u k b] r False Let_def
    show ?thesis
    proof (cases "n = 0")
      case True
      obtain l rest' err' where u: "readULEB rest = (l, rest', err')" by (cases "readULEB rest") auto
      obtain ms where ms: "prints (printRunLengthEncoded u k rest') ms rest'" using less shorter(1) [OF u] by blast
      obtain q where "rest = q @ rest'" using uleb_reader.read_suffix [OF u] by blast
      from prints_after [OF ms, of "used b rest'"] used_twice [OF b this]
      have "prints (\<lambda>s. printRunLengthEncoded u k b s) ms b" by (simp add: unfold u True)
      then show ?thesis by auto
    next
      case nz: False
      show ?thesis
      proof (cases "0 < sint n")
        case True
        obtain t rest' ms where u: "rle_item u k n rest = (t, rest', ms)" by (cases "rle_item u k n rest") auto
        obtain ms' where ms: "prints (printRunLengthEncoded u k rest') ms' rest'" using less shorter(2) [OF u] by blast
        obtain q where "rest = q @ rest'" using rle_reader.read_suffix [OF u] by blast
        from prints_map [OF prints_after [OF ms, of "used b rest'"], of "\<lambda>x. ms @ x"] used_twice [OF b this]
        have "prints (\<lambda>s. printRunLengthEncoded u k b s) (ms @ ms') b" by (simp add: unfold u True nz)
        then show ?thesis by auto
      next
        case False
        obtain rest' ms q where q: "prints (literal_values u k (nat (- sint n)) rest) (rest', ms) q" "q @ rest' = rest"
          using prints_literal_values by blast
        have "length rest' < length b" using q b r \<open>b \<noteq> []\<close> sleb_reader.read_progress by fastforce
        then obtain ms' where ms: "prints (printRunLengthEncoded u k rest') ms' rest'" using less by blast
        have "prints (\<lambda>s. case indent (literal_values u k (nat (- sint n)) rest) (pBytes (used b rest) d a s) of
            (x, s1) \<Rightarrow> (case x of (b', ms) \<Rightarrow> \<lambda>s1. case printRunLengthEncoded u k b' s1 of (ms', s') \<Rightarrow> (ms @ ms', s')) s1)
            (ms @ ms') ((used b rest @ q) @ rest')" for d a
        proof (rule prints_then [OF prints_after [OF prints_indent [OF q(1)]]])
          from prints_map [OF ms, of "\<lambda>x. ms @ x"]
          show "prints (case (rest', ms) of (b', ms) \<Rightarrow> \<lambda>s1. case printRunLengthEncoded u k b' s1 of (ms', s') \<Rightarrow> (ms @ ms', s'))
            (ms @ ms') rest'" by simp
        qed
        then have "prints (\<lambda>s. printRunLengthEncoded u k b s) (ms @ ms') ((used b rest @ q) @ rest')"
          using False nz by (simp add: unfold split_beta)
        moreover have "(used b rest @ q) @ rest' = b" using q(2) sleb_reader.used_rest [OF r] by simp
        ultimately show ?thesis by auto
      qed
    qed
  qed
qed

lemma prints_delta_loop: "prints (\<lambda>s. ((), delta_loop i b s)) () b"
proof (induction "length b" arbitrary: i b rule: less_induct)
  case less
  show ?case
  proof (cases "b = []")
    case True
    then show ?thesis using prints_return [of "()"] by (simp add: delta_loop.simps)
  next
    case False
    obtain n rest err where r: "readSLEB b = (n, rest, err)" by (cases "readSLEB b") auto
    obtain p where b: "b = p @ rest" using sleb_reader.read_suffix [OF r] by blast
    note unfold = delta_loop.simps [of i b] r False Let_def
    have onward: "prints (\<lambda>s. ((), delta_loop j rest' (pBytes (used b rest') d a s))) () b"
      if "rest = q @ rest'" "length rest' < length b" for q rest' j d a
      using prints_after [OF less [OF that(2), of j], of "used b rest'"] used_twice [OF b that(1)] by simp
    consider "n = 0" | "n \<noteq> 0" "0 < sint n" | "n \<noteq> 0" "\<not> 0 < sint n" by blast
    then show ?thesis
    proof cases
      case 1
      obtain l rest' err' where u: "readULEB rest = (l, rest', err')" by (cases "readULEB rest") auto
      obtain q where "rest = q @ rest'" using uleb_reader.read_suffix [OF u] by blast
      from onward [OF this round_shorter(1) [OF r False u]] show ?thesis by (simp add: unfold u 1)
    next
      case 2
      obtain l rest' err' where u: "readSLEB rest = (l, rest', err')" by (cases "readSLEB rest") auto
      obtain q where "rest = q @ rest'" using sleb_reader.read_suffix [OF u] by blast
      from onward [OF this delta_shorter(1) [OF r False u]] show ?thesis by (simp add: unfold u 2)
    next
      case 3
      obtain rest' i' q where q: "prints (literal_deltas (nat (- sint n)) i rest) (i', rest') q" "q @ rest' = rest"
        using prints_literal_deltas by blast
      have "length rest' < length b" using q b r False sleb_reader.read_progress by fastforce
      then have d: "prints (\<lambda>s. ((), delta_loop i' rest' s)) () rest'" by (rule less)
      have "prints (\<lambda>s. case indent (literal_deltas (nat (- sint n)) i rest) (pBytes (used b rest) d a s) of
          (x, s1) \<Rightarrow> (case x of (i', b') \<Rightarrow> \<lambda>s1. ((), delta_loop i' b' s1)) s1) () ((used b rest @ q) @ rest')" for d a
        by (rule prints_then [OF prints_after [OF prints_indent [OF q(1)]]]) (simp add: d)
      moreover have "(used b rest @ q) @ rest' = b" using q(2) sleb_reader.used_rest [OF r] by simp
      ultimately show ?thesis using 3 by (simp add: unfold split_beta)
    qed
  qed
qed

lemma prints_bool_loop: "prints (\<lambda>s. ((), bool_loop now b s)) () b"
proof (induction "length b" arbitrary: now b rule: less_induct)
  case less
  show ?case
  proof (cases "b = []")
    case True
    then show ?thesis using prints_return [of "()"] by (simp add: bool_loop.simps)
  next
    case False
    obtain n rest err where r: "readULEB b = (n, rest, err)" by (cases "readULEB b") auto
    from prints_after [OF less [OF uleb_reader.read_progress [OF r False], of "\<not> now"], of "used b rest"] show ?thesis
      using uleb_reader.used_rest [OF r] by (simp add: bool_loop.simps [of now b] r False)
  qed
qed

text \<open>The lengths in the metadata add up to the length of the value column, and floats have their eight bytes.\<close>

fun values_fit :: "Meta list \<Rightarrow> bytes \<Rightarrow> bool" where
  "values_fit [] b \<longleftrightarrow> b = []"
| "values_fit (m # ms) b \<longleftrightarrow>
     m_Length m \<le> length b \<and> (m_Type m = 5 \<longrightarrow> 8 \<le> length b) \<and> values_fit ms (drop (m_Length m) b)"

lemma prints_printValueColumn: "values_fit ms b \<Longrightarrow> prints (printValueColumn u behind b ms) (Ok ()) b"
proof (induction ms arbitrary: b)
  case Nil
  then show ?case using prints_return [of "Ok ()"] by (simp add: fun_eq_iff cong: option.case_cong)
next
  case (Cons m ms)
  obtain t e where v: "value_text u b (take (m_Length m) b) m = (t, e)" by fastforce
  have "prints (\<lambda>s. printValueColumn u behind b (m # ms) s) (Ok ()) (take (m_Length m) b @ drop (m_Length m) b)"
    using Cons.prems prints_after [OF Cons.IH, of "drop (m_Length m) b" "take (m_Length m) b"]
    by (auto simp: slice_to_def v Let_def)
  then show ?case by simp
qed

text \<open>The metadata a column leaves behind, and when a column can be listed whole.\<close>

definition metas_of :: "(bytes \<Rightarrow> bool) \<Rightarrow> bytes \<Rightarrow> Meta list" where
  "metas_of u b = fst (printValueMetaColumn u b dbg_start)"

definition next_meta :: "(bytes \<Rightarrow> bool) \<Rightarrow> Column \<Rightarrow> bytes \<Rightarrow> uint32 \<times> Meta list \<Rightarrow> uint32 \<times> Meta list" where
  "next_meta u c b st = (if \<not> col_Deflate c \<and> col_Type c = 6 then (col_ID c, metas_of u b) else st)"

definition column_fits :: "uint32 \<times> Meta list \<Rightarrow> Column \<Rightarrow> bytes \<Rightarrow> bool" where
  "column_fits st c b \<longleftrightarrow> (\<not> col_Deflate c \<and> col_Type c = 7 \<and> fst st = col_ID c \<longrightarrow> values_fit (snd st) b)"

lemma prints_value_meta: "prints (printValueMetaColumn u b) (metas_of u b) b"
proof -
  obtain ms where "prints (printValueMetaColumn u b) ms b"
    using prints_printRunLengthEncoded unfolding printValueMetaColumn_def [abs_def] by metis
  moreover then have "metas_of u b = ms" by (simp add: metas_of_def prints_def)
  ultimately show ?thesis by simp
qed

lemma prints_plain_columns:
  "prints (\<lambda>s. (Ok (), printUlebColumn u b s)) (Ok ()) b" "prints (\<lambda>s. (Ok (), printStringColumn u b s)) (Ok ()) b"
  "prints (\<lambda>s. (Ok (), printDeltaColumn b s)) (Ok ()) b" "prints (\<lambda>s. (Ok (), printBoolColumn b s)) (Ok ()) b"
proof -
  obtain ms where "prints (printRunLengthEncoded u UlebItem b) ms b" using prints_printRunLengthEncoded by blast
  from prints_map [OF this, of "\<lambda>_. Ok ()"] show "prints (\<lambda>s. (Ok (), printUlebColumn u b s)) (Ok ()) b"
    by (simp add: printUlebColumn_def split_beta)
  obtain ms where "prints (printRunLengthEncoded u StringItem b) ms b" using prints_printRunLengthEncoded by blast
  from prints_map [OF this, of "\<lambda>_. Ok ()"] show "prints (\<lambda>s. (Ok (), printStringColumn u b s)) (Ok ()) b"
    by (simp add: printStringColumn_def split_beta)
  from prints_map [OF prints_delta_loop, of "\<lambda>_. Ok ()" 0 b] show "prints (\<lambda>s. (Ok (), printDeltaColumn b s)) (Ok ()) b"
    by (simp add: printDeltaColumn_def)
  from prints_map [OF prints_bool_loop, of "\<lambda>_. Ok ()" False b] show "prints (\<lambda>s. (Ok (), printBoolColumn b s)) (Ok ()) b"
    by (simp add: printBoolColumn_def)
qed

text \<open>
  \<open>emits m r p F s\<close>: from the state \<open>s\<close>, \<open>m\<close> returns \<open>r\<close>, emits \<open>p\<close>, keeps the indentation and leaves
  the metadata \<open>F\<close>.
\<close>

definition emits :: "(dbg \<Rightarrow> 'a \<times> dbg) \<Rightarrow> 'a \<Rightarrow> bytes \<Rightarrow> uint32 \<times> Meta list \<Rightarrow> dbg \<Rightarrow> bool" where
  "emits m r p F s \<longleftrightarrow> (\<exists>s'. m s = (r, s') \<and> listed s' = listed s @ p \<and> frame s' = (fst (frame s), F))"

lemma prints_emits: "prints m r p \<Longrightarrow> emits m r p (snd (frame s)) s"
  unfolding emits_def by (rule prints_apply [of m r p s]) auto

lemma emits_indent:
  assumes "\<And>t. listed t = listed s \<Longrightarrow> snd (frame t) = snd (frame s) \<Longrightarrow> emits m r p F t"
  shows "emits (indent m) r p F s"
proof -
  let ?t = "s\<lparr>d_prefix := d_prefix s @ ''    ''\<rparr>"
  have "emits m r p F ?t" by (rule assms) simp_all
  then obtain s' where "m ?t = (r, s')" "listed s' = listed s @ p" "snd (frame s') = F" by (auto simp: emits_def)
  from indent_effect [of m s r s' p, OF this] show ?thesis by (auto simp: emits_def frame_def)
qed

lemma emits_after: "emits m r p F (pBytes b desc args s) \<Longrightarrow> emits (\<lambda>s. m (pBytes b desc args s)) r (b @ p) F s"
  by (auto simp: emits_def)

lemma printColumn_emits:
  assumes "column_fits (snd (frame s)) c b"
  shows "emits (printColumn u behind b c) (Ok ()) b (next_meta u c b (snd (frame s))) s"
proof -
  have keep: ?thesis if "prints (\<lambda>s. printColumn u behind b c s) (Ok ()) b" "col_Deflate c \<or> col_Type c \<noteq> 6"
    using prints_emits [OF that(1), of s] that(2) by (auto simp: next_meta_def)
  note plain = prints_plain_columns [where b = b] prints_pBytes [of "Ok ()" b]
  consider "col_Deflate c \<or> col_Type c \<noteq> 6 \<and> col_Type c \<noteq> 7" | "\<not> col_Deflate c" "col_Type c = 6"
    | "\<not> col_Deflate c" "col_Type c = 7" by blast
  then show ?thesis
  proof cases
    case 1
    then have "prints (\<lambda>s. printColumn u behind b c s) (Ok ()) b"
      unfolding printColumn_def by (intro prints_if plain) auto
    then show ?thesis using keep 1 by blast
  next
    case 2
    obtain s' where "printValueMetaColumn u b s = (metas_of u b, s')" "listed s' = listed s @ b" "frame s' = frame s"
      by (rule prints_apply [OF prints_value_meta])
    then show ?thesis using 2 by (simp add: emits_def printColumn_def next_meta_def listed_def frame_def)
  next
    case 3
    then have "emits (printColumn u behind b c) (Ok ()) b (snd (frame s)) s"
      using assms prints_emits [OF prints_printValueColumn, of "d_metaColumn s" b u behind s] prints_emits [OF plain(5), where s = s]
      by (auto simp: printColumn_def column_fits_def frame_def emits_def)
    then show ?thesis using 3 by (simp add: next_meta_def)
  qed
qed

lemma titled_column_emits:
  assumes "column_fits (snd (frame s)) c b"
  shows "emits (titled_column names u behind b c) (Ok ()) b (next_meta u c b (snd (frame s))) s"
proof -
  have "emits (indent (printColumn u behind b c)) (Ok ()) b (next_meta u c b (snd (frame s))) (pBytes [] desc args s)" for desc args
  proof (rule emits_indent)
    fix t
    assume "snd (frame t) = snd (frame (pBytes [] desc args s))"
    then show "emits (printColumn u behind b c) (Ok ()) b (next_meta u c b (snd (frame s))) t"
      using printColumn_emits [of t c b u behind] assms by simp
  qed
  from emits_after [OF this] show ?thesis by (simp add: titled_column_def [abs_def] Let_def)
qed

text \<open>
  The columns as the printer meets them: the metadata and the bytes that remain after the last
  column, or \<open>None\<close> for the remaining bytes when a column is cut short and the printer stops.
  The whole is \<open>None\<close> when a value column does not fit its metadata or a length is negative.
\<close>

fun walk :: "(bytes \<Rightarrow> bool) \<Rightarrow> uint32 \<times> Meta list \<Rightarrow> Column list \<Rightarrow> bytes \<Rightarrow> ((uint32 \<times> Meta list) \<times> bytes option) option" where
  "walk u st [] b = Some (st, Some b)"
| "walk u st (c # cs) b =
     (if int (length b) < sint (col_Length c) then Some (st, None)
      else let d = take (nat (sint (col_Length c))) b in
        if sint (col_Length c) < 0 \<or> \<not> column_fits st c d then None
        else walk u (next_meta u c d st) cs (drop (nat (sint (col_Length c))) b))"

definition left :: "bytes option \<Rightarrow> bytes" where
  "left r = (case r of None \<Rightarrow> [] | Some b \<Rightarrow> b)"

lemma emits_andThen:
  assumes "emits m (Ok x) p F s" and "\<And>t. snd (frame t) = F \<Longrightarrow> emits (f x) r q G t"
  shows "emits (andThen m f) r (p @ q) G s"
proof -
  obtain t where t: "m s = (Ok x, t)" "listed t = listed s @ p" "frame t = (fst (frame s), F)" using assms(1) by (auto simp: emits_def)
  then obtain s' where "f x t = (r, s')" "listed s' = listed t @ q" "frame s' = (fst (frame t), G)"
    using assms(2) [of t] by (auto simp: emits_def)
  then show ?thesis using t by (simp add: emits_def andThen_def)
qed

lemma print_columns_emits:
  assumes "walk u st cs b = Some (F, r)" and "snd (frame s) = st"
  shows "\<exists>p. emits (print_columns (titled_column names u) spare cs b) (Ok r) p F s \<and> p @ left r = b"
  using assms
proof (induction cs arbitrary: st b s)
  case Nil
  then show ?case using prints_emits [OF prints_return [of "Ok (Some b)"], of s] by (auto simp: left_def emits_def)
next
  case (Cons c cs)
  let ?n = "nat (sint (col_Length c))"
  show ?case
  proof (cases "int (length b) < sint (col_Length c)")
    case True
    then show ?thesis using Cons.prems by (auto simp: emits_def left_def prod_eq_iff)
  next
    case False
    then have w: "\<not> sint (col_Length c) < 0" "column_fits st c (take ?n b)"
      "walk u (next_meta u c (take ?n b) st) cs (drop ?n b) = Some (F, r)"
      using Cons.prems by (auto simp: Let_def split: if_splits)
    obtain t where t: "titled_column names u (drop ?n b @ spare) (take ?n b) c s = (Ok (), t)" "listed t = listed s @ take ?n b"
      "frame t = (fst (frame s), next_meta u c (take ?n b) st)"
      using titled_column_emits [of s c "take ?n b" names u] w(2) Cons.prems(2) by (auto simp: emits_def)
    obtain p where p: "emits (print_columns (titled_column names u) spare cs (drop ?n b)) (Ok r) p F t" "p @ left r = drop ?n b"
      using Cons.IH [OF w(3), of t] t(3) by auto
    then have "emits (print_columns (titled_column names u) spare (c # cs) b) (Ok r) (take ?n b @ p) F s"
      using t False w(1) by (auto simp: emits_def andThen_def Let_def)
    then show ?thesis using p(2) by (metis append.assoc append_take_drop_id)
  qed
qed

section \<open>Documents and changes\<close>

text \<open>
  The columns of a document or change chunk fit: a cut-off chunk is fine, a value column whose
  bytes are not the ones that the metadata announces is not.
\<close>

definition doc_fits :: "(bytes \<Rightarrow> bool) \<Rightarrow> uint32 \<times> Meta list \<Rightarrow> bytes \<Rightarrow> bool" where
  "doc_fits u st b =
     (case fst (printActorIDs b dbg_start) of (_, b1) \<Rightarrow>
      case fst (printHeads b1 dbg_start) of (_, b2) \<Rightarrow>
      case fst (printColumnMeta b2 ''change'' dbg_start) of (cc, b3) \<Rightarrow>
      case fst (printColumnMeta b3 ''operation'' dbg_start) of (oc, b4) \<Rightarrow>
      case walk u st cc b4 of
        None \<Rightarrow> False
      | Some (st', None) \<Rightarrow> True
      | Some (st', Some b5) \<Rightarrow> walk u st' oc b5 \<noteq> None)"

definition change_fits :: "(bytes \<Rightarrow> bool) \<Rightarrow> uint32 \<times> Meta list \<Rightarrow> bytes \<Rightarrow> bool" where
  "change_fits u st b =
     (case readULEB (fst (change_fields b dbg_start)) of (mlen, rest, _) \<Rightarrow> length rest < unat mlen \<or>
       (case fst (printActorIDs (drop (unat mlen) rest) dbg_start) of (_, b7) \<Rightarrow>
        case fst (printColumnMeta b7 ''operation'' dbg_start) of (oc, b8) \<Rightarrow> walk u st oc b8 \<noteq> None))"

lemma splits_apply:
  assumes "splits m b"
  obtains x rest p s' where "fst (m dbg_start) = (x, rest)" "m s = ((x, rest), s')" "p @ rest = b"
    "listed s' = listed s @ p" "frame s' = frame s"
proof -
  obtain x rest p where p: "prints m (x, rest) p" "p @ rest = b" using assms by (rule splitsE)
  moreover obtain s' where "m s = ((x, rest), s')" "listed s' = listed s @ p" "frame s' = frame s" by (rule prints_apply [OF p(1)])
  moreover have "fst (m dbg_start) = (x, rest)" using p(1) by (simp add: prints_def)
  ultimately show ?thesis using that by blast
qed

text \<open>The whole of \<open>b\<close> is listed, and the indentation is back where it was.\<close>

definition whole :: "(dbg, unit) comp \<Rightarrow> bytes \<Rightarrow> dbg \<Rightarrow> bool" where
  "whole m b s \<longleftrightarrow> (\<exists>s'. m s = (Ok (), s') \<and> listed s' = listed s @ b \<and> d_prefix s' = d_prefix s)"

lemma prints_whole: "prints m (Ok ()) b \<Longrightarrow> whole m b s"
  unfolding whole_def by (rule prints_apply [of m "Ok ()" b s]) (auto simp: frame_def)

lemma whole_indent:
  assumes "\<And>t. snd (frame t) = snd (frame s) \<Longrightarrow> whole m b t"
  shows "whole (indent m) b s"
proof -
  have "whole m b (s\<lparr>d_prefix := d_prefix s @ ''    ''\<rparr>)" by (rule assms) simp
  then show ?thesis by (auto simp: whole_def indent_def listed_def)
qed

text \<open>The columns and what is printed after them.\<close>

lemma columns_then_whole:
  assumes "walk u (snd (frame s)) cs b = Some (st, r)"
    and "\<And>rest t. r = Some rest \<Longrightarrow> snd (frame t) = st \<Longrightarrow> whole (f rest) rest t"
  shows "whole (andThen (print_columns (titled_column names u) spare cs b) (\<lambda>r. case r of None \<Rightarrow> ret () | Some rest \<Rightarrow> f rest)) b s"
proof -
  obtain p where p: "emits (print_columns (titled_column names u) spare cs b) (Ok r) p st s" "p @ left r = b"
    using print_columns_emits [OF assms(1) refl] by blast
  then obtain t where t: "print_columns (titled_column names u) spare cs b s = (Ok r, t)" "listed t = listed s @ p" "frame t = (fst (frame s), st)"
    by (auto simp: emits_def)
  have "whole (case r of None \<Rightarrow> ret () | Some rest \<Rightarrow> f rest) (left r) t"
  proof (cases r)
    case None
    then show ?thesis by (simp add: whole_def left_def ret_def)
  next
    case (Some rest)
    then show ?thesis using assms(2) [OF Some, of t] t(3) by (simp add: left_def)
  qed
  moreover have "d_prefix t = d_prefix s" using t(3) by (simp add: frame_def)
  ultimately show ?thesis using t p(2) by (auto simp: whole_def andThen_def)
qed

lemma prints_print_rest: "prints (print_rest desc b) (Ok ()) b"
proof -
  have "prints (\<lambda>s. print_rest desc b s) (Ok ()) b" by (auto simp: print_rest_def prints_def)
  then show ?thesis by simp
qed

lemma whole_tail: "whole (\<lambda>s. case printHeadIndexes b hs s of (rest, s') \<Rightarrow> print_rest desc rest s') b t"
proof -
  obtain rest q where q: "prints (printHeadIndexes b hs) rest q" "q @ rest = b" using prints_printHeadIndexes by blast
  show ?thesis using prints_whole [OF prints_then [OF q(1) prints_print_rest]] q(2) by auto
qed

lemma prettyPrintDoc_whole:
  assumes "doc_fits u (snd (frame s)) b"
  shows "whole (prettyPrintDoc u spare b) b s"
  unfolding prettyPrintDoc_def
proof (rule whole_indent)
  fix t
  assume fr: "snd (frame t) = snd (frame s)"
  obtain x1 b1 p1 t1 where 1: "fst (printActorIDs b dbg_start) = (x1, b1)" "printActorIDs b t = ((x1, b1), t1)" "p1 @ b1 = b"
    "listed t1 = listed t @ p1" "frame t1 = frame t" by (rule splits_apply [OF splits_lists(1)])
  obtain hs b2 p2 t2 where 2: "fst (printHeads b1 dbg_start) = (hs, b2)" "printHeads b1 t1 = ((hs, b2), t2)" "p2 @ b2 = b1"
    "listed t2 = listed t1 @ p2" "frame t2 = frame t1" by (rule splits_apply [OF splits_lists(2)])
  obtain cc b3 p3 t3 where 3: "fst (printColumnMeta b2 ''change'' dbg_start) = (cc, b3)"
    "printColumnMeta b2 ''change'' t2 = ((cc, b3), t3)" "p3 @ b3 = b2"
    "listed t3 = listed t2 @ p3" "frame t3 = frame t2" by (rule splits_apply [OF splits_lists(3)])
  obtain oc b4 p4 t4 where 4: "fst (printColumnMeta b3 ''operation'' dbg_start) = (oc, b4)"
    "printColumnMeta b3 ''operation'' t3 = ((oc, b4), t4)" "p4 @ b4 = b3"
    "listed t4 = listed t3 @ p4" "frame t4 = frame t3" by (rule splits_apply [OF splits_lists(3)])
  have fr4: "snd (frame t4) = snd (frame s)" "d_prefix t4 = d_prefix t" using fr 1 2 3 4 by (simp_all add: frame_def)
  obtain st r where w: "walk u (snd (frame t4)) cc b4 = Some (st, r)" and w': "\<And>b5. r = Some b5 \<Longrightarrow> walk u st oc b5 \<noteq> None"
    using assms 1(1) 2(1) 3(1) 4(1) unfolding fr4(1) by (auto simp: doc_fits_def split: option.splits)
  have "whole (andThen (print_columns (titled_column changeCols u) spare cc b4) (\<lambda>r. case r of None \<Rightarrow> ret () | Some b5 \<Rightarrow>
     andThen (print_columns (titled_column opCols u) spare oc b5) (\<lambda>r. case r of None \<Rightarrow> ret () | Some b6 \<Rightarrow>
       (\<lambda>s. case printHeadIndexes b6 hs s of (b7, s7) \<Rightarrow> print_rest ''remaining data in chunk'' b7 s7)))) b4 t4"
  proof (rule columns_then_whole [OF w])
    fix rest t'
    assume "r = Some rest" "snd (frame t') = st"
    then obtain st' r' where "walk u (snd (frame t')) oc rest = Some (st', r')" using w' by auto
    then show "whole (andThen (print_columns (titled_column opCols u) spare oc rest) (\<lambda>r. case r of None \<Rightarrow> ret () | Some b6 \<Rightarrow>
       (\<lambda>s. case printHeadIndexes b6 hs s of (b7, s7) \<Rightarrow> print_rest ''remaining data in chunk'' b7 s7))) rest t'"
      by (rule columns_then_whole) (rule whole_tail)
  qed
  then show "whole (\<lambda>s0.
     case printActorIDs b s0 of ((_, b1), s1) \<Rightarrow>
     case printHeads b1 s1 of ((hs, b2), s2) \<Rightarrow>
     case printColumnMeta b2 ''change'' s2 of ((cc, b3), s3) \<Rightarrow>
     case printColumnMeta b3 ''operation'' s3 of ((oc, b4), s4) \<Rightarrow>
       andThen (print_columns (printChangeColumn u) spare cc b4) (\<lambda>r. case r of None \<Rightarrow> ret () | Some b5 \<Rightarrow>
       andThen (print_columns (printOperationColumn u) spare oc b5) (\<lambda>r. case r of None \<Rightarrow> ret () | Some b6 \<Rightarrow>
         (\<lambda>s. case printHeadIndexes b6 hs s of (b7, s7) \<Rightarrow> print_rest ''remaining data in chunk'' b7 s7))) s4) b t"
    using 1(2-4) 2(2-4) 3(2-4) 4(2-4) fr4(2) by (auto simp: whole_def printChangeColumn_def printOperationColumn_def)
qed

lemma prints_change_fields: "\<exists>rest p. prints (change_fields b) rest p \<and> p @ rest = b"
proof -
  obtain x1 b1 p1 where 1: "prints (printHeads b) (x1, b1) p1" "p1 @ b1 = b" using splits_lists(2) by (rule splitsE)
  obtain x2 b2 p2 where 2: "prints (printActorID b1) (x2, b2) p2" "p2 @ b2 = b1" using splits_printActorID by (rule splitsE)
  obtain n3 b3 e3 where 3: "readULEB b2 = (n3, b3, e3)" by (cases "readULEB b2") auto
  obtain n4 b4 e4 where 4: "readULEB b3 = (n4, b4, e4)" by (cases "readULEB b3") auto
  obtain n5 b5 e5 where 5: "readSLEB b4 = (n5, b5, e5)" by (cases "readSLEB b4") auto
  have "prints (change_fields b) b5 (p1 @ p2 @ used b2 b3 @ used b3 b4 @ used b4 b5)"
  proof (rule printsI)
    fix s
    obtain s1 where s1: "printHeads b s = ((x1, b1), s1)" "listed s1 = listed s @ p1" "frame s1 = frame s"
      by (rule prints_apply [OF 1(1)])
    obtain s2 where "printActorID b1 s1 = ((x2, b2), s2)" "listed s2 = listed s1 @ p2" "frame s2 = frame s1"
      by (rule prints_apply [OF 2(1)])
    then show "\<exists>s'. change_fields b s = (b5, s') \<and> listed s' = listed s @ p1 @ p2 @ used b2 b3 @ used b3 b4 @ used b4 b5 \<and> frame s' = frame s"
      using s1 3 4 5 by (simp add: change_fields_def number_line_def)
  qed
  moreover have "(p1 @ p2 @ used b2 b3 @ used b3 b4 @ used b4 b5) @ b5 = b"
    using 1(2) 2(2) uleb_reader.used_rest [OF 3] uleb_reader.used_rest [OF 4] sleb_reader.used_rest [OF 5] by simp
  ultimately show ?thesis by blast
qed

lemma prettyPrintChange_whole:
  assumes "change_fits u (snd (frame s)) b"
  shows "whole (prettyPrintChange u spare b) b s"
  unfolding prettyPrintChange_def
proof (rule whole_indent, goal_cases)
  case (1 t)
  obtain b5 p where f: "prints (change_fields b) b5 p" "p @ b5 = b" using prints_change_fields by blast
  obtain t5 where p: "change_fields b t = (b5, t5)" "listed t5 = listed t @ p" "frame t5 = frame t"
    by (rule prints_apply [OF f(1)])
  have start: "fst (change_fields b dbg_start) = b5" using f(1) by (simp add: prints_def)
  obtain mlen rest err where m: "readULEB b5 = (mlen, rest, err)" by (cases "readULEB b5") auto
  have pre: "d_prefix t5 = d_prefix t" using p(3) by (simp add: frame_def)
  show ?case
  proof (cases "length rest < unat mlen")
    case True
    then show ?thesis
      using f(2) m p pre uleb_reader.used_rest [OF m] by (auto simp: whole_def Let_def pBytes_def listed_def)
  next
    case False
    let ?d = "drop (unat mlen) rest"
    define t6 where "t6 = pBytes (take (unat mlen) rest) [Lit ''commit message = %#v''] [PQuoted (bytes_str (take (unat mlen) rest))]
      (pBytes (used b5 rest) [Lit ''message len = %v %s''] [PInt (uint mlen), PText (err_text ''(error: '' err '')'')] t5)"
    obtain x7 b7 p7 t7 where 7: "fst (printActorIDs ?d dbg_start) = (x7, b7)" "printActorIDs ?d t6 = ((x7, b7), t7)" "p7 @ b7 = ?d"
      "listed t7 = listed t6 @ p7" "frame t7 = frame t6" by (rule splits_apply [OF splits_lists(1)])
    obtain oc b8 p8 t8 where 8: "fst (printColumnMeta b7 ''operation'' dbg_start) = (oc, b8)"
      "printColumnMeta b7 ''operation'' t7 = ((oc, b8), t8)" "p8 @ b8 = b7"
      "listed t8 = listed t7 @ p8" "frame t8 = frame t7" by (rule splits_apply [OF splits_lists(3)])
    have fr: "frame t8 = frame t" using 7 8 p(3) by (simp add: t6_def)
    have "b = p @ used b5 rest @ take (unat mlen) rest @ p7 @ p8 @ b8"
      using f(2) 7(3) 8(3) uleb_reader.used_rest [OF m] by (metis append_take_drop_id append.assoc)
    moreover have "listed t8 = listed t @ p @ used b5 rest @ take (unat mlen) rest @ p7 @ p8"
      using 7(4) 8(4) p(2) by (simp add: t6_def)
    ultimately have all8: "listed s' = listed t8 @ b8 \<Longrightarrow> listed s' = listed t @ b" for s' by simp
    obtain st r where "walk u (snd (frame t8)) oc b8 = Some (st, r)"
      using assms 1 start m False 7(1) 8(1) fr by (auto simp: change_fits_def)
    then have "whole (andThen (print_columns (titled_column opCols u) spare oc b8)
        (\<lambda>r. case r of None \<Rightarrow> ret () | Some b9 \<Rightarrow> print_rest ''extra bytes'' b9)) b8 t8"
      by (rule columns_then_whole) (rule prints_whole [OF prints_print_rest])
    then show ?thesis
      using p(1) m False 7(2) 8(2) fr all8
      by (auto simp: whole_def Let_def t6_def [symmetric] printOperationColumn_def frame_def)
  qed
qed

end
