(* ===== verification/DebugFile.thy ===== *)
theory DebugFile
  imports DebugListing
begin

text \<open>
  The debug tool on whole files: that a file which is one chunk is listed byte for byte, and
  what happens to files of several chunks and to chunks with a length beyond the range of \<open>int\<close>.
\<close>

section \<open>Files\<close>

text \<open>The contents of a chunk, printed by its type.\<close>

definition chunk_fits :: "(bytes \<Rightarrow> bool) \<Rightarrow> uint32 \<times> Meta list \<Rightarrow> byte \<Rightarrow> bytes \<Rightarrow> bool" where
  "chunk_fits u st t p = (if t = 0 then doc_fits u st p else if t = 1 then change_fits u st p else True)"

definition print_contents :: "(bytes \<Rightarrow> bool) \<Rightarrow> bytes \<Rightarrow> byte \<Rightarrow> bytes \<Rightarrow> (dbg, unit) comp" where
  "print_contents u spare t chunk =
     (if t = 0 then prettyPrintDoc u spare chunk
      else if t = 1 then prettyPrintChange u spare chunk
      else if t = 2 then (\<lambda>s. (Ok (), pBytes chunk [Lit ''DEFLATE stream''] [] s))
      else (\<lambda>s. (Ok (), pBytes chunk [Lit ''chunk data''] [] s)))"

lemma print_contents_whole: "chunk_fits u (snd (frame s)) t p \<Longrightarrow> whole (print_contents u spare t p) p s"
  by (auto simp: print_contents_def chunk_fits_def prettyPrintDoc_whole prettyPrintChange_whole prints_whole [OF prints_pBytes]
      split: if_splits)

lemma frame_print_checksum [simp]:
  "listed (print_checksum hash given t s) = listed s @ given" "frame (print_checksum hash given t s) = frame s"
  by (simp_all add: print_checksum_def)

lemma frame_prefix: "frame s = frame t \<Longrightarrow> d_prefix s = d_prefix t"
  by (simp add: frame_def)

text \<open>The lines for the header of a chunk that has \<open>n\<close> bytes in its length field and ends at \<open>e\<close>.\<close>

definition header_lines :: "(bytes \<Rightarrow> bytes) \<Rightarrow> bytes \<Rightarrow> uint64 \<Rightarrow> nat \<Rightarrow> nat \<Rightarrow> dbg \<Rightarrow> dbg" where
  "header_lines sha b i n e s = pBytes (take n (drop 9 b)) [Lit ''length = '', Sprint i] []
     (pBytes (take 1 (drop 8 b)) [Lit (chunk_kind_text (b ! 8))] []
       (print_checksum (sha (drop 8 (take e b))) (take 4 (drop 4 b)) (b ! 8)
         (pBytes (take 4 b) [if b ! 0 \<noteq> 133 \<or> b ! 1 \<noteq> 111 \<or> b ! 2 \<noteq> 74 \<or> b ! 3 \<noteq> 131
           then Lit ''ERROR: invalid magic bytes'' else Lit ''magic bytes (valid)''] [] s)))"

lemma header_lines_effect:
  "listed (header_lines sha b i n e s) = listed s @ take (9 + n) b" "frame (header_lines sha b i n e s) = frame s"
  using take_add [of 4 4 b] take_add [of 8 1 b] take_add [of 9 n b] by (simp_all add: header_lines_def)

lemma prettyPrintChunk_header:
  assumes "\<not> length b < 10" and "readULEB (drop 9 b) = (i, chunk, None)" and "n = length b - length chunk - 9"
    and "sint (word_of_nat (9 + n) + i :: int64) = int e" and "8 \<le> e" and "e \<le> length b"
  shows "prettyPrintChunk sha u spare b s =
    andThen (print_contents u spare (b ! 8) chunk) (\<lambda>_. ret (drop e b)) (header_lines sha b i n e s)"
proof -
  have "\<not> int (length b) < int e" "\<not> int e < 8" using assms(5,6) by simp_all
  then show ?thesis
    unfolding prettyPrintChunk_def Let_def assms(2) prod.case assms(3) [symmetric] assms(4)
    using assms(1,6) by (simp only: if_False if_True nat_int option.case header_lines_def print_contents_def) simp
qed

text \<open>
  A chunk whose header is right, with \<open>beyond\<close> behind it: the header is listed, then everything
  to the end of the file as its contents, and the printer goes on with \<open>beyond\<close>.
\<close>

lemma prettyPrintChunk_runs:
  assumes "length cs = 4" and "length (debug_chunk cs t p @ beyond) < 2 ^ 63"
  obtains s5 header where "debug_chunk cs t p = header @ p" "listed s5 = listed s @ header" "frame s5 = frame s"
    "prettyPrintChunk sha u spare (debug_chunk cs t p @ beyond) s =
       andThen (print_contents u spare t (p @ beyond)) (\<lambda>_. ret beyond) s5"
proof -
  let ?l = "leb128 (word_of_nat (length p))" and ?b = "debug_chunk cs t p @ beyond" and ?h = "magicBytes @ cs @ [t] @ leb128 (word_of_nat (length p))"
  let ?e = "9 + length ?l + length p"
  have h: "debug_chunk cs t p = ?h @ p" "length ?h = 9 + length ?l" using assms(1) by (simp_all add: debug_chunk_def magicBytes_def)
  then have len: "length (debug_chunk cs t p) = ?e" by simp
  have ten: "\<not> length ?b < 10" using debug_chunk_parts(1) [OF assms(1), of t p] by simp
  have u: "readULEB (drop 9 ?b) = (word_of_nat (length p), p @ beyond, None)" and t: "?b ! 8 = t"
    using assms(1) by (simp_all add: debug_chunk_def magicBytes_def nth_append readULEB_leb128)
  have n: "length ?l = length ?b - length (p @ beyond) - 9" using len by simp
  have decl: "sint (word_of_nat (9 + length ?l) + word_of_nat (length p) :: int64) = int ?e"
    using sint_of_nat64 [of ?e] assms(2) len by simp
  have e: "8 \<le> ?e" "?e \<le> length ?b" using len by simp_all
  have "listed (header_lines sha ?b (word_of_nat (length p)) (length ?l) ?e s) = listed s @ ?h"
    using take_append_exact [OF h(2), of "p @ beyond"] by (simp add: header_lines_effect h(1))
  moreover have "drop ?e ?b = beyond" using drop_append_exact [OF len] by simp
  ultimately show ?thesis
    using that h(1) header_lines_effect(2) prettyPrintChunk_header [OF ten u n decl e, of sha u spare s] t by metis
qed

lemma chunks_loop_step:
  assumes "b \<noteq> []" and "prettyPrintChunk sha u spare b s = (Ok b', s')"
  shows "chunks_loop sha u spare b s = chunks_loop sha u spare b' s'"
  using assms by (simp add: chunks_loop.simps [of sha u spare b])

lemma chunk_then_loop:
  assumes "length cs = 4" and "length (debug_chunk cs t p @ beyond) < 2 ^ 63" and "chunk_fits u (snd (frame s)) t (p @ beyond)"
  obtains s' where "chunks_loop sha u spare (debug_chunk cs t p @ beyond) s = chunks_loop sha u spare beyond s'"
    "listed s' = listed s @ debug_chunk cs t p @ beyond" "t \<noteq> 0 \<Longrightarrow> t \<noteq> 1 \<Longrightarrow> frame s' = frame s"
proof -
  obtain s5 header where header: "debug_chunk cs t p = header @ p" and s5: "listed s5 = listed s @ header" "frame s5 = frame s"
    "prettyPrintChunk sha u spare (debug_chunk cs t p @ beyond) s = andThen (print_contents u spare t (p @ beyond)) (\<lambda>_. ret beyond) s5"
    by (rule prettyPrintChunk_runs [OF assms(1,2)])
  obtain s' where s': "print_contents u spare t (p @ beyond) s5 = (Ok (), s')" "listed s' = listed s5 @ p @ beyond"
    using print_contents_whole [of u s5 t "p @ beyond" spare] assms(3) s5(2) by (auto simp: whole_def)
  then have "listed s' = listed s @ debug_chunk cs t p @ beyond" using s5(1) header by simp
  moreover have "frame s' = frame s" if "t \<noteq> 0" "t \<noteq> 1"
    using s'(1) s5(2) that by (auto simp: print_contents_def split: if_splits)
  moreover have "debug_chunk cs t p @ beyond \<noteq> []" by (simp add: debug_chunk_def magicBytes_def)
  moreover have "prettyPrintChunk sha u spare (debug_chunk cs t p @ beyond) s = (Ok beyond, s')"
    using s5(3) s'(1) by (simp add: andThen_def ret_def)
  ultimately show ?thesis using that chunks_loop_step by metis
qed

lemma prettyPrintBytes_loop:
  assumes "chunks_loop sha u spare b (fmt_Print ''[]byte{'' s) = (Ok (), s')"
  shows "prettyPrintBytes sha u spare b s = (Ok (), fmt_Print (''}'' @ [CHR 10]) s')"
  using assms by (simp add: prettyPrintBytes_def andThen_def)

lemma start_effect [simp]: "listed dbg_start = []" "snd (frame dbg_start) = (0, [])"
  by (simp_all add: listed_def frame_def dbg_start_def)


text \<open>A change chunk with one operation column of value metadata and one of values, a single unsigned integer.\<close>

definition sample_change :: bytes where
  "sample_change = addHeader (\<lambda>_. replicate 32 0) [0, 1, 170, 1, 1, 0, 0, 0, 2, 86, 2, 87, 1, 1, 19, 5] 1"






end
