(* ===== verification/Wazero.thy ===== *)
theory Wazero
  imports Codec ChangeChunks
begin

text \<open>
  The backend of \<open>internal/wazero/wazero.go\<close>: the Go half of the foreign-function interface.

  The instantiated WASM module (\<open>api.Module\<close> of the wazero runtime) is third-party code and is
  a parameter \<open>M\<close> of every definition: a record with what the source calls of it. Its state is
  of an arbitrary type \<open>'w\<close>. \<open>Guest.thy\<close> builds such a module from the Rust shim.

  Every method of \<open>Backend\<close> is a computation over the state of the module. \<open>deferred\<close> stands
  for the \<open>defer b.free(...)\<close> statements, so the order of frees and the frees on error paths
  are those of the source. \<open>res[0]\<close> on an empty result slice panics in Go; \<open>call0\<close> writes the
  panic out.
\<close>

section \<open>The module and the low-level helpers\<close>

text \<open>A block of guest memory: its address and its size.\<close>

type_synonym block = "uint32 \<times> uint32"

record 'w api_module =
  ExportedFunction :: "string \<Rightarrow> bool"
  fn_Call :: "string \<Rightarrow> uint64 list \<Rightarrow> 'w \<Rightarrow> (go_error + uint64 list) \<times> 'w"
  Memory_Write :: "uint32 \<Rightarrow> bytes \<Rightarrow> 'w \<Rightarrow> 'w option"
  Memory_Read :: "uint32 \<Rightarrow> uint32 \<Rightarrow> 'w \<Rightarrow> bytes option"
  mod_Close :: "'w \<Rightarrow> go_error option \<times> 'w"

definition export_not_found :: "string \<Rightarrow> go_error" where
  "export_not_found name = Errorf ''automerge: WASM export %q not found'' [AStr name]"

definition call :: "'w api_module \<Rightarrow> string \<Rightarrow> uint64 list \<Rightarrow> ('w, uint64 list) comp" where
  "call M name params = (\<lambda>w.
     if \<not> ExportedFunction M name then (Error (export_not_found name), w)
     else (case fn_Call M name params w of
             (Inl e, w') \<Rightarrow> (Error e, w')
           | (Inr res, w') \<Rightarrow> (Ok res, w')))"

definition index_panic :: go_error where
  "index_panic = Errorf ''index out of range [0] with length 0'' []"

fun at0 :: "uint64 list \<Rightarrow> uint64 outcome" where
  "at0 [] = Panic index_panic"
| "at0 (r # _) = Ok r"

definition call0 :: "'w api_module \<Rightarrow> string \<Rightarrow> uint64 list \<Rightarrow> ('w, uint64) comp" where
  "call0 M name params = andThen (call M name params) (\<lambda>res. lift (at0 res))"

definition u32 :: "uint64 \<Rightarrow> uint32" where "u32 r = ucast r"

definition i32 :: "uint64 \<Rightarrow> int" where "i32 r = sint (ucast r :: 32 word)"

definition u64 :: "uint32 \<Rightarrow> uint64" where "u64 x = ucast x"

lemma u32_u64 [simp]: "u32 (u64 x) = x"
  by (simp add: u32_def u64_def ucast_up_ucast_id is_up)

lemma word_of_int_i32 [simp]: "(word_of_int (i32 r) :: uint32) = u32 r"
  by (simp add: i32_def u32_def)

definition alloc_null :: "uint32 \<Rightarrow> go_error" where
  "alloc_null n = Errorf ''automerge: am_alloc(%d) returned null'' [AInt (uint n)]"

definition alloc :: "'w api_module \<Rightarrow> uint32 \<Rightarrow> ('w, uint32) comp" where
  "alloc M n = andThen (call0 M ''am_alloc'' [u64 n]) (\<lambda>r.
     let ptr = u32 r in
     if ptr = 0 \<and> 0 < n then fail (alloc_null n) else ret ptr)"

definition free :: "'w api_module \<Rightarrow> uint32 \<Rightarrow> uint32 \<Rightarrow> 'w \<Rightarrow> 'w" where
  "free M ptr sz w =
     (if ptr \<noteq> 0 \<and> sz \<noteq> 0 then snd (call M ''am_free'' [u64 ptr, u64 sz] w) else w)"

definition write_failed :: "uint32 \<Rightarrow> uint32 \<Rightarrow> go_error" where
  "write_failed ptr sz =
     Errorf ''automerge: memory write failed at ptr=%d size=%d'' [AInt (uint ptr), AInt (uint sz)]"

definition mem_write :: "'w api_module \<Rightarrow> uint32 \<Rightarrow> bytes \<Rightarrow> ('w, bool) comp" where
  "mem_write M ptr data = (\<lambda>w. case Memory_Write M ptr data w of
     Some w' \<Rightarrow> (Ok True, w') | None \<Rightarrow> (Ok False, w))"

definition writeBytes :: "'w api_module \<Rightarrow> bytes \<Rightarrow> ('w, uint32 \<times> uint32) comp" where
  "writeBytes M data =
     (let size = word_of_nat (length data) in
      if size = 0 then ret (0, 0)
      else andThen (alloc M size) (\<lambda>ptr.
        andThen (mem_write M ptr data) (\<lambda>ok.
          if \<not> ok then deferred (free M ptr size) (fail (write_failed ptr size))
          else ret (ptr, size))))"

definition read_failed :: "uint32 \<Rightarrow> uint32 \<Rightarrow> go_error" where
  "read_failed ptr sz =
     Errorf ''automerge: memory read failed at ptr=%d size=%d'' [AInt (uint ptr), AInt (uint sz)]"

definition readBytes :: "'w api_module \<Rightarrow> uint32 \<Rightarrow> uint32 \<Rightarrow> ('w, bytes) comp" where
  "readBytes M ptr sz = (\<lambda>w.
     if sz = 0 then (Ok [], w)
     else (case Memory_Read M ptr sz w of
             None \<Rightarrow> (Error (read_failed ptr sz), w)
           | Some view \<Rightarrow> (Ok view, w)))"

text \<open>
  The two shapes that every method is built from: bytes handed to the guest, freed on return,
  and a block for the guest to fill, freed on return.
\<close>

definition withBytes :: "'w api_module \<Rightarrow> bytes \<Rightarrow> (uint32 \<Rightarrow> uint32 \<Rightarrow> ('w, 'a) comp) \<Rightarrow> ('w, 'a) comp" where
  "withBytes M data body =
     andThen (writeBytes M data) (\<lambda>(ptr, size). deferred (free M ptr size) (body ptr size))"

definition withAlloc :: "'w api_module \<Rightarrow> uint32 \<Rightarrow> (uint32 \<Rightarrow> ('w, 'a) comp) \<Rightarrow> ('w, 'a) comp" where
  "withAlloc M n body = andThen (alloc M n) (\<lambda>ptr. deferred (free M ptr n) (body ptr))"

fun swallow :: "'a \<Rightarrow> 'a outcome \<Rightarrow> 'a outcome" where
  "swallow d (Ok x) = Ok x"
| "swallow d (Error _) = Ok d"
| "swallow d (Panic p) = Panic p"

definition swallowed :: "'a \<Rightarrow> ('w, 'a) comp \<Rightarrow> ('w, 'a) comp" where
  "swallowed d m = (\<lambda>w. case m w of (r, w') \<Rightarrow> (swallow d r, w'))"

text \<open>\<open>lastError\<close> turns each of its errors into the empty string.\<close>

definition lastError :: "'w api_module \<Rightarrow> ('w, string) comp" where
  "lastError M = swallowed [] (
     andThen (call0 M ''am_last_error_len'' []) (\<lambda>r.
     let errLen = u32 r in
     if errLen = 0 then ret []
     else withAlloc M errLen (\<lambda>ptr.
       andThen (call M ''am_last_error'' [u64 ptr]) (\<lambda>_.
       andThen (readBytes M ptr errLen) (\<lambda>data. ret (bytes_str data))))))"

definition rc_error :: "string \<Rightarrow> int \<Rightarrow> go_error" where
  "rc_error fmt rc = Errorf fmt [AInt rc]"

definition fail_with_last :: "'w api_module \<Rightarrow> go_error \<Rightarrow> ('w, 'a) comp" where
  "fail_with_last M e = andThen (lastError M) (\<lambda>errMsg.
     if errMsg \<noteq> [] then fail (Errorf ''%s'' [AStr errMsg]) else fail e)"

text \<open>\<open>if int32(res[0]) != 0 { return fmt.Errorf(...) }; return nil\<close>\<close>

definition expect0 :: "'w api_module \<Rightarrow> string \<Rightarrow> uint64 list \<Rightarrow> string \<Rightarrow> ('w, unit) comp" where
  "expect0 M name params fmt = andThen (call0 M name params) (\<lambda>r.
     if i32 r \<noteq> 0 then fail (rc_error fmt (i32 r)) else ret ())"

definition expect0_msg :: "'w api_module \<Rightarrow> string \<Rightarrow> uint64 list \<Rightarrow> string \<Rightarrow> ('w, unit) comp" where
  "expect0_msg M name params fmt = andThen (call0 M name params) (\<lambda>r.
     if i32 r \<noteq> 0 then fail_with_last M (rc_error fmt (i32 r)) else ret ())"

text \<open>
  The two-phase protocol: a call that prepares data and returns its length, then, unless the
  length is 0, a block of that length that a second call fills. The second call's return code
  is ignored here, as it is in the source.
\<close>

definition fetch ::
  "'w api_module \<Rightarrow> string \<Rightarrow> uint64 list \<Rightarrow> string \<Rightarrow> (uint32 \<Rightarrow> uint64 list) \<Rightarrow> ('w, 'a) comp \<Rightarrow>
   (bytes \<Rightarrow> ('w, 'a) comp) \<Rightarrow> ('w, 'a) comp" where
  "fetch M len_name len_params get_name get_params none some =
     andThen (call0 M len_name len_params) (\<lambda>r.
     let n = u32 r in
     if n = 0 then none
     else withAlloc M n (\<lambda>ptr.
       andThen (call M get_name (get_params ptr)) (\<lambda>_.
       andThen (readBytes M ptr n) some)))"

section \<open>Lifecycle, saving and the actor\<close>

definition Close :: "'w api_module \<Rightarrow> ('w, unit) comp" where
  "Close M = (\<lambda>w. case mod_Close M w of
     (None, w') \<Rightarrow> (Ok (), w') | (Some e, w') \<Rightarrow> (Error e, w'))"

definition Save :: "'w api_module \<Rightarrow> ('w, bytes) comp" where
  "Save M = andThen (call0 M ''am_save_len'' []) (\<lambda>r.
     let saveLen = u32 r in
     if saveLen = 0 then fail (Errorf ''automerge: am_save_len returned 0'' [])
     else withAlloc M saveLen (\<lambda>ptr.
       andThen (call0 M ''am_save'' [u64 ptr]) (\<lambda>rc.
       if i32 rc \<noteq> 0 then fail (rc_error ''automerge: am_save failed: %d'' (i32 rc))
       else readBytes M ptr saveLen)))"

definition GetActorID :: "'w api_module \<Rightarrow> ('w, string) comp" where
  "GetActorID M = andThen (call0 M ''am_get_actor_len'' []) (\<lambda>r.
     let actLen = u32 r in
     if actLen = 0 then ret []
     else withAlloc M actLen (\<lambda>ptr.
       andThen (call0 M ''am_get_actor'' [u64 ptr]) (\<lambda>rc.
       if i32 rc \<noteq> 0 then fail (rc_error ''automerge: am_get_actor failed: %d'' (i32 rc))
       else andThen (readBytes M ptr actLen) (\<lambda>data. ret (bytes_str data)))))"

definition SetActorID :: "'w api_module \<Rightarrow> string \<Rightarrow> ('w, unit) comp" where
  "SetActorID M ident = withBytes M (str_bytes ident) (\<lambda>ptr sz.
     expect0 M ''am_set_actor'' [u64 ptr, u64 sz] ''automerge: am_set_actor failed: %d'')"

section \<open>Maps\<close>

definition void_value :: BackendValue where
  "void_value = bval KindVoid VNil"

definition is_object_tag :: "byte \<Rightarrow> bool" where
  "is_object_tag tag \<longleftrightarrow> tag = TagMap \<or> tag = TagList \<or> tag = TagText"

text \<open>The return code of the two put calls: an object handle for the three object tags.\<close>

definition put_result :: "byte \<Rightarrow> string \<Rightarrow> uint64 \<Rightarrow> ('w, ObjHandle) comp" where
  "put_result tag fmt r = (let rc = i32 r in
     if rc < 0 then fail (rc_error fmt rc)
     else if is_object_tag tag then ret (word_of_int rc)
     else ret 0)"

definition MapGet :: "'w api_module \<Rightarrow> ObjHandle \<Rightarrow> string \<Rightarrow> ('w, BackendValue) comp" where
  "MapGet M obj key = withBytes M (str_bytes key) (\<lambda>keyPtr keySize.
     fetch M ''am_map_get_len'' [u64 obj, u64 keyPtr, u64 keySize]
             ''am_map_get'' (\<lambda>outPtr. [u64 obj, u64 keyPtr, u64 keySize, u64 outPtr])
       (ret void_value) (\<lambda>data. lift (DecodeValue data)))"

definition MapPut :: "'w api_module \<Rightarrow> ObjHandle \<Rightarrow> string \<Rightarrow> byte \<Rightarrow> bytes \<Rightarrow> ('w, ObjHandle) comp" where
  "MapPut M obj key tag payload = withBytes M (str_bytes key) (\<lambda>keyPtr keySize.
     withBytes M payload (\<lambda>valPtr valSize.
       andThen (call0 M ''am_map_put''
         [u64 obj, u64 keyPtr, u64 keySize, ucast tag, u64 valPtr, u64 valSize])
         (put_result tag ''automerge: am_map_put failed: %d'')))"

definition MapDelete :: "'w api_module \<Rightarrow> ObjHandle \<Rightarrow> string \<Rightarrow> ('w, unit) comp" where
  "MapDelete M obj key = withBytes M (str_bytes key) (\<lambda>keyPtr keySize.
     expect0 M ''am_map_delete'' [u64 obj, u64 keyPtr, u64 keySize] ''automerge: am_map_delete failed: %d'')"

definition MapIncrement :: "'w api_module \<Rightarrow> ObjHandle \<Rightarrow> string \<Rightarrow> int64 \<Rightarrow> ('w, unit) comp" where
  "MapIncrement M obj key delta = withBytes M (str_bytes key) (\<lambda>keyPtr keySize.
     expect0 M ''am_map_increment'' [u64 obj, u64 keyPtr, u64 keySize, delta]
       ''automerge: am_map_increment failed: %d'')"

section \<open>Lists\<close>

definition ListGet :: "'w api_module \<Rightarrow> ObjHandle \<Rightarrow> uint64 \<Rightarrow> ('w, BackendValue) comp" where
  "ListGet M obj index =
     fetch M ''am_list_get_len'' [u64 obj, index] ''am_list_get'' (\<lambda>outPtr. [u64 obj, index, u64 outPtr])
       (ret void_value) (\<lambda>data. lift (DecodeValue data))"

definition ListPut ::
  "'w api_module \<Rightarrow> ObjHandle \<Rightarrow> uint64 \<Rightarrow> bool \<Rightarrow> byte \<Rightarrow> bytes \<Rightarrow> ('w, ObjHandle) comp" where
  "ListPut M obj index ins tag payload =
     (let insertFlag = (if ins then 1 else 0) in
      withBytes M payload (\<lambda>valPtr valSize.
        andThen (call0 M ''am_list_put''
          [u64 obj, index, insertFlag, ucast tag, u64 valPtr, u64 valSize])
          (put_result tag ''automerge: am_list_put failed: %d'')))"

definition ListDelete :: "'w api_module \<Rightarrow> ObjHandle \<Rightarrow> uint64 \<Rightarrow> ('w, unit) comp" where
  "ListDelete M obj index =
     expect0 M ''am_list_delete'' [u64 obj, index] ''automerge: am_list_delete failed: %d''"

definition ListLen :: "'w api_module \<Rightarrow> ObjHandle \<Rightarrow> ('w, uint64) comp" where
  "ListLen M obj = andThen (call0 M ''am_list_len'' [u64 obj]) (\<lambda>r. ret (u64 (u32 r)))"

definition ListIncrement :: "'w api_module \<Rightarrow> ObjHandle \<Rightarrow> uint64 \<Rightarrow> int64 \<Rightarrow> ('w, unit) comp" where
  "ListIncrement M obj index delta =
     expect0 M ''am_list_increment'' [u64 obj, index, delta] ''automerge: am_list_increment failed: %d''"

section \<open>Text, marks, spans and blocks\<close>

definition TextGet :: "'w api_module \<Rightarrow> ObjHandle \<Rightarrow> ('w, string) comp" where
  "TextGet M obj = fetch M ''am_text_get_len'' [u64 obj] ''am_text_get'' (\<lambda>ptr. [u64 obj, u64 ptr])
     (ret []) (\<lambda>data. ret (bytes_str data))"

definition TextSplice :: "'w api_module \<Rightarrow> ObjHandle \<Rightarrow> uint64 \<Rightarrow> int64 \<Rightarrow> string \<Rightarrow> ('w, unit) comp" where
  "TextSplice M obj pos del text = withBytes M (str_bytes text) (\<lambda>txtPtr txtSize.
     expect0_msg M ''am_text_splice'' [u64 obj, pos, del, u64 txtPtr, u64 txtSize]
       ''automerge: am_text_splice failed: %d'')"

definition Mark ::
  "'w api_module \<Rightarrow> ObjHandle \<Rightarrow> string \<Rightarrow> string \<Rightarrow> uint64 \<Rightarrow> uint64 \<Rightarrow> byte \<Rightarrow> ('w, unit) comp" where
  "Mark M obj name val start stop expand =
     withBytes M (str_bytes name) (\<lambda>namePtr nameSize.
     withBytes M (str_bytes val) (\<lambda>valuePtr valueSize.
       expect0_msg M ''am_mark''
         [u64 obj, u64 namePtr, u64 nameSize, u64 valuePtr, u64 valueSize, start, stop, ucast expand]
         ''automerge: am_mark failed: %d''))"

definition Unmark ::
  "'w api_module \<Rightarrow> ObjHandle \<Rightarrow> string \<Rightarrow> uint64 \<Rightarrow> uint64 \<Rightarrow> byte \<Rightarrow> ('w, unit) comp" where
  "Unmark M obj name start stop expand = withBytes M (str_bytes name) (\<lambda>namePtr nameSize.
     expect0_msg M ''am_unmark'' [u64 obj, u64 namePtr, u64 nameSize, start, stop, ucast expand]
       ''automerge: am_unmark failed: %d'')"

definition Marks :: "'w api_module \<Rightarrow> ObjHandle \<Rightarrow> ('w, string) comp" where
  "Marks M obj = fetch M ''am_marks_len'' [u64 obj] ''am_marks'' (\<lambda>ptr. [u64 obj, u64 ptr])
     (ret ''[]'') (\<lambda>data. ret (bytes_str data))"

definition Spans :: "'w api_module \<Rightarrow> ObjHandle \<Rightarrow> ('w, string) comp" where
  "Spans M obj = fetch M ''am_spans_len'' [u64 obj] ''am_spans'' (\<lambda>ptr. [u64 obj, u64 ptr])
     (ret ''[]'') (\<lambda>data. ret (bytes_str data))"

definition block_call :: "'w api_module \<Rightarrow> string \<Rightarrow> ObjHandle \<Rightarrow> uint64 \<Rightarrow> string \<Rightarrow> ('w, ObjHandle) comp" where
  "block_call M name obj index fmt = andThen (call0 M name [u64 obj, index]) (\<lambda>r.
     let rc = i32 r in
     if rc < 0 then fail_with_last M (rc_error fmt rc) else ret (word_of_int rc))"

definition SplitBlock :: "'w api_module \<Rightarrow> ObjHandle \<Rightarrow> uint64 \<Rightarrow> ('w, ObjHandle) comp" where
  "SplitBlock M obj index =
     block_call M ''am_split_block'' obj index ''automerge: am_split_block failed: %d''"

definition JoinBlock :: "'w api_module \<Rightarrow> ObjHandle \<Rightarrow> uint64 \<Rightarrow> ('w, unit) comp" where
  "JoinBlock M obj index =
     expect0_msg M ''am_join_block'' [u64 obj, index] ''automerge: am_join_block failed: %d''"

definition ReplaceBlock :: "'w api_module \<Rightarrow> ObjHandle \<Rightarrow> uint64 \<Rightarrow> ('w, ObjHandle) comp" where
  "ReplaceBlock M obj index =
     block_call M ''am_replace_block'' obj index ''automerge: am_replace_block failed: %d''"

section \<open>Cursors and object introspection\<close>

definition GetCursor :: "'w api_module \<Rightarrow> ObjHandle \<Rightarrow> uint64 \<Rightarrow> ('w, string) comp" where
  "GetCursor M obj index = andThen (call0 M ''am_get_cursor'' [u64 obj, index]) (\<lambda>r.
     let cursorLen = i32 r in
     if cursorLen < 0 then fail (rc_error ''automerge: am_get_cursor failed: %d'' cursorLen)
     else withAlloc M (word_of_int cursorLen) (\<lambda>ptr.
       andThen (call M ''am_get_cursor_str'' [u64 ptr]) (\<lambda>_.
       andThen (readBytes M ptr (word_of_int cursorLen)) (\<lambda>data. ret (bytes_str data)))))"

definition LookupCursor :: "'w api_module \<Rightarrow> ObjHandle \<Rightarrow> string \<Rightarrow> ('w, uint64) comp" where
  "LookupCursor M obj cursor = withBytes M (str_bytes cursor) (\<lambda>cursorPtr cursorSize.
     andThen (call0 M ''am_lookup_cursor'' [u64 obj, u64 cursorPtr, u64 cursorSize]) (\<lambda>r.
     let index = i32 r in
     if index < 0 then fail (rc_error ''automerge: am_lookup_cursor failed: %d'' index)
     else ret (word_of_int index)))"

definition ObjSize :: "'w api_module \<Rightarrow> ObjHandle \<Rightarrow> ('w, uint64) comp" where
  "ObjSize M obj = andThen (call0 M ''am_obj_size'' [u64 obj]) (\<lambda>r. ret (u64 (u32 r)))"

definition obj_kind :: "int \<Rightarrow> Kind" where
  "obj_kind rc = (if rc = 1 then KindMap else if rc = 2 then KindList
     else if rc = 3 then KindText else KindUnknown)"

definition ObjType :: "'w api_module \<Rightarrow> ObjHandle \<Rightarrow> ('w, Kind) comp" where
  "ObjType M obj = andThen (call0 M ''am_obj_type'' [u64 obj]) (\<lambda>r. ret (obj_kind (i32 r)))"

text \<open>The loop of \<open>ObjKeys\<close>, over the part of the data from \<open>offset\<close> on.\<close>

function keys_loop :: "bytes \<Rightarrow> string list" where
  "keys_loop data = (if 4 \<le> length data then
     (let keyLen = unat (Uint32 data); data' = drop 4 data in
      if length data' < keyLen then []
      else bytes_str (take keyLen data') # keys_loop (drop keyLen data'))
   else [])"
  by pat_completeness auto

termination
  by (relation "measure length") auto

declare keys_loop.simps [simp del]

definition ObjKeys :: "'w api_module \<Rightarrow> ObjHandle \<Rightarrow> ('w, string list) comp" where
  "ObjKeys M obj = fetch M ''am_obj_keys_len'' [u64 obj] ''am_obj_keys'' (\<lambda>ptr. [u64 obj, u64 ptr])
     (ret []) (\<lambda>data. ret (keys_loop data))"

definition ObjItems :: "'w api_module \<Rightarrow> ObjHandle \<Rightarrow> ('w, BackendValue list) comp" where
  "ObjItems M obj = fetch M ''am_obj_items_len'' [u64 obj] ''am_obj_items'' (\<lambda>ptr. [u64 obj, u64 ptr])
     (ret []) (\<lambda>data. lift (DecodeValueList data))"

definition ObjFree :: "'w api_module \<Rightarrow> ObjHandle \<Rightarrow> ('w, unit) comp" where
  "ObjFree M obj = (if obj = RootObjHandle then ret ()
     else expect0 M ''am_obj_free'' [u64 obj] ''automerge: am_obj_free failed: %d'')"

section \<open>Commits and history\<close>

text \<open>\<open>copy(ch[:], hashBytes)\<close> into a zeroed 32-byte array.\<close>

definition copy_hash :: "bytes \<Rightarrow> ChangeHash" where
  "copy_hash b = take 32 b @ replicate (32 - length b) 0"

definition read_hash :: "'w api_module \<Rightarrow> uint32 \<Rightarrow> ('w, ChangeHash) comp" where
  "read_hash M n = withAlloc M n (\<lambda>hashPtr.
     andThen (call M ''am_commit_hash'' [u64 hashPtr]) (\<lambda>_.
     andThen (readBytes M hashPtr n) (\<lambda>hashBytes. ret (copy_hash hashBytes))))"

definition Commit :: "'w api_module \<Rightarrow> string \<Rightarrow> int64 \<Rightarrow> ('w, ChangeHash) comp" where
  "Commit M msg timestamp = withBytes M (str_bytes msg) (\<lambda>msgPtr msgSize.
     andThen (call0 M ''am_commit'' [u64 msgPtr, u64 msgSize, timestamp]) (\<lambda>r.
     let rc = i32 r in
     if rc = - 3 then fail ErrEmptyCommit
     else if rc \<noteq> 0 then fail_with_last M (rc_error ''automerge: am_commit returned %d'' rc)
     else andThen (call0 M ''am_commit_hash_len'' []) (\<lambda>h.
       let hashLen = u32 h in
       if hashLen \<noteq> 32
       then fail (Errorf ''automerge: expected 32-byte commit hash, got %d'' [AInt (uint hashLen)])
       else read_hash M 32)))"

definition EmptyChange :: "'w api_module \<Rightarrow> string \<Rightarrow> int64 \<Rightarrow> ('w, ChangeHash) comp" where
  "EmptyChange M msg timestamp = withBytes M (str_bytes msg) (\<lambda>msgPtr msgSize.
     andThen (expect0 M ''am_empty_change'' [u64 msgPtr, u64 msgSize, timestamp]
       ''automerge: am_empty_change failed: %d'') (\<lambda>_.
     andThen (call0 M ''am_commit_hash_len'' []) (\<lambda>h. read_hash M (u32 h))))"

definition Heads :: "'w api_module \<Rightarrow> ('w, ChangeHash list) comp" where
  "Heads M = fetch M ''am_get_heads_len'' [] ''am_get_heads'' (\<lambda>ptr. [u64 ptr])
     (ret []) (\<lambda>data. ret (ParseChangeHashes data))"

definition GetChanges :: "'w api_module \<Rightarrow> ChangeHash list \<Rightarrow> ('w, bytes list) comp" where
  "GetChanges M since = withBytes M (EncodeChangeHashes since) (\<lambda>headsPtr headsSize.
     let headsCount = word_of_nat (length since) in
     fetch M ''am_get_changes_len'' [u64 headsPtr, u64 headsCount]
             ''am_get_changes'' (\<lambda>outPtr. [u64 headsPtr, u64 headsCount, u64 outPtr])
       (ret []) (\<lambda>data. ret (ParseLengthPrefixedList data)))"

text \<open>A change that is not in the document is the \<open>nil\<close> slice, which \<open>Doc.Change\<close> tests for.\<close>

definition GetChangeByHash :: "'w api_module \<Rightarrow> ChangeHash \<Rightarrow> ('w, bytes option) comp" where
  "GetChangeByHash M h = withBytes M h (\<lambda>hashPtr hashSize.
     fetch M ''am_get_change_by_hash_len'' [u64 hashPtr]
             ''am_get_change_by_hash'' (\<lambda>outPtr. [u64 hashPtr, u64 outPtr])
       (ret None) (\<lambda>data. ret (Some data)))"

definition ApplyChanges :: "'w api_module \<Rightarrow> bytes list \<Rightarrow> ('w, unit) comp" where
  "ApplyChanges M changes = withBytes M (EncodeLengthPrefixedList changes) (\<lambda>ptr sz.
     expect0 M ''am_apply_changes'' [u64 ptr, u64 sz] ''automerge: am_apply_changes failed: %d'')"

definition GetChangeInfo :: "'w api_module \<Rightarrow> bytes \<Rightarrow> ('w, ChangeInfo) comp" where
  "GetChangeInfo M raw = withBytes M raw (\<lambda>rawPtr rawSize.
     fetch M ''am_change_info_len'' [u64 rawPtr, u64 rawSize]
             ''am_change_info'' (\<lambda>outPtr. [u64 rawPtr, u64 rawSize, u64 outPtr])
       (fail (Errorf ''automerge: am_change_info_len returned 0 (invalid change?)'' []))
       (\<lambda>data. lift (ParseChangeInfo data)))"

definition SaveIncremental :: "'w api_module \<Rightarrow> ('w, bytes) comp" where
  "SaveIncremental M = fetch M ''am_save_incremental_len'' [] ''am_save_incremental'' (\<lambda>ptr. [u64 ptr])
     (ret []) ret"

definition LoadIncremental :: "'w api_module \<Rightarrow> bytes \<Rightarrow> ('w, unit) comp" where
  "LoadIncremental M data = withBytes M data (\<lambda>ptr sz.
     expect0 M ''am_load_incremental'' [u64 ptr, u64 sz] ''automerge: am_load_incremental failed: %d'')"

definition Merge :: "'w api_module \<Rightarrow> bytes \<Rightarrow> ('w, unit) comp" where
  "Merge M otherSaved = withBytes M otherSaved (\<lambda>ptr sz.
     expect0_msg M ''am_merge'' [u64 ptr, u64 sz] ''automerge: am_merge failed: %d'')"

section \<open>The sync protocol\<close>

definition SyncInit :: "'w api_module \<Rightarrow> ('w, uint32) comp" where
  "SyncInit M = andThen (call0 M ''am_sync_state_init'' []) (\<lambda>r.
     let peerID = u32 r in
     if peerID = 0 then fail (Errorf ''automerge: am_sync_state_init failed'' []) else ret peerID)"

definition SyncFree :: "'w api_module \<Rightarrow> uint32 \<Rightarrow> ('w, unit) comp" where
  "SyncFree M peerID =
     expect0 M ''am_sync_state_free'' [u64 peerID] ''automerge: am_sync_state_free failed: %d''"

definition SyncGenerateMessage :: "'w api_module \<Rightarrow> uint32 \<Rightarrow> ('w, bytes \<times> bool) comp" where
  "SyncGenerateMessage M peerID = andThen (call0 M ''am_sync_gen_len'' [u64 peerID]) (\<lambda>r.
     let msgLen = u32 r in
     if msgLen = 0 then ret ([], False)
     else withAlloc M msgLen (\<lambda>ptr.
       andThen (call0 M ''am_sync_gen'' [u64 peerID, u64 ptr]) (\<lambda>rc.
       if i32 rc = 1 then ret ([], False)
       else if i32 rc \<noteq> 0 then fail (rc_error ''automerge: am_sync_gen failed: %d'' (i32 rc))
       else andThen (readBytes M ptr msgLen) (\<lambda>data. ret (data, True)))))"

definition SyncReceiveMessage :: "'w api_module \<Rightarrow> uint32 \<Rightarrow> bytes \<Rightarrow> ('w, unit) comp" where
  "SyncReceiveMessage M peerID msg = withBytes M msg (\<lambda>ptr sz.
     expect0 M ''am_sync_recv'' [u64 peerID, u64 ptr, u64 sz] ''automerge: am_sync_recv failed: %d'')"

definition SyncSave :: "'w api_module \<Rightarrow> uint32 \<Rightarrow> ('w, bytes) comp" where
  "SyncSave M peerID = fetch M ''am_sync_state_save_len'' [u64 peerID]
     ''am_sync_state_save'' (\<lambda>ptr. [u64 peerID, u64 ptr]) (ret []) ret"

definition SyncLoad :: "'w api_module \<Rightarrow> bytes \<Rightarrow> ('w, uint32) comp" where
  "SyncLoad M data = withBytes M data (\<lambda>ptr sz.
     andThen (call0 M ''am_sync_state_load'' [u64 ptr, u64 sz]) (\<lambda>r.
     let peerID = u32 r in
     if peerID = 0 then fail (Errorf ''automerge: am_sync_state_load failed'' []) else ret peerID))"

end
