(* ===== verification/RichText.thy ===== *)
theory RichText
  imports Wire
begin

text \<open>
  The JSON that the Rust shim writes for marks and spans (\<open>richtext_ops.rs\<close>). A Rust string is its
  UTF-8 bytes, each as a character; the characters that \<open>json_escape\<close> replaces are single bytes, so
  it works byte by byte. How Rust prints a double is a parameter.
\<close>

section \<open>Marks, spans and blocks of the crate\<close>

record rmark =
  rm_name :: string
  rm_value :: ScalarValue
  rm_start :: uint32
  rm_end :: uint32

datatype hydrate = HScalar ScalarValue | HMap "(string \<times> hydrate) list" | HList "hydrate list" | HText string

datatype rspan = RSpanText string "(string \<times> ScalarValue) list option" | RSpanBlock "(string \<times> hydrate) list"

section \<open>Printing\<close>

definition hex_char :: "nat \<Rightarrow> char" where
  "hex_char n = char_of (if n < 10 then 0x30 + n else 0x57 + n)"

definition json_escape_char :: "char \<Rightarrow> string" where
  "json_escape_char c =
     (if c = CHR 0x22 then [CHR 0x5C, CHR 0x22]
      else if c = CHR 0x5C then [CHR 0x5C, CHR 0x5C]
      else if c = CHR 0x0A then [CHR 0x5C, CHR 0x6E]
      else if c = CHR 0x0D then [CHR 0x5C, CHR 0x72]
      else if c = CHR 0x09 then [CHR 0x5C, CHR 0x74]
      else if of_char c < (0x20 :: nat) then
        [CHR 0x5C, CHR 0x75, CHR 0x30, CHR 0x30, hex_char (of_char c div 16), hex_char (of_char c mod 16)]
      else [c])"

definition json_escape :: "string \<Rightarrow> string" where
  "json_escape s = concat (map json_escape_char s)"

definition dec_int :: "int \<Rightarrow> string" where
  "dec_int i = (if i < 0 then CHR 0x2D # dec_digits (nat (- i)) else dec_digits (nat i))"

fun bool_string :: "bool \<Rightarrow> string" where
  "bool_string True = ''true''"
| "bool_string False = ''false''"

fun scalar_to_string :: "(uint64 \<Rightarrow> string) \<Rightarrow> ScalarValue \<Rightarrow> string" where
  "scalar_to_string f64s (SStr s) = s"
| "scalar_to_string f64s (SBoolean b) = bool_string b"
| "scalar_to_string f64s (SInt i) = dec_int (sint i)"
| "scalar_to_string f64s (SUint u) = dec_digits (unat u)"
| "scalar_to_string f64s (SF64 x) = f64s x"
| "scalar_to_string f64s _ = ''null''"

definition quoted :: "string \<Rightarrow> string" where
  "quoted s = CHR 0x22 # json_escape s @ [CHR 0x22]"

fun scalar_to_json :: "(uint64 \<Rightarrow> string) \<Rightarrow> ScalarValue \<Rightarrow> string" where
  "scalar_to_json f64s SNull = ''null''"
| "scalar_to_json f64s (SBoolean b) = bool_string b"
| "scalar_to_json f64s (SInt i) = dec_int (sint i)"
| "scalar_to_json f64s (SUint u) = dec_digits (unat u)"
| "scalar_to_json f64s (SF64 x) = f64s x"
| "scalar_to_json f64s (SStr s) = quoted s"
| "scalar_to_json f64s (SBytes b) =
     CHR 0x22 # concat (map (\<lambda>x. [hex_char (unat x div 16), hex_char (unat x mod 16)]) b) @ [CHR 0x22]"
| "scalar_to_json f64s (SCounter i) = dec_int (sint i)"
| "scalar_to_json f64s (STimestamp i) = dec_int (sint i)"
| "scalar_to_json f64s SUnknown = ''null''"

text \<open>The loops that put a comma before every element but the first.\<close>

fun commas :: "string list \<Rightarrow> string" where
  "commas [] = []"
| "commas [x] = x"
| "commas (x # xs) = x @ CHR 0x2C # commas xs"

definition mark_json :: "(uint64 \<Rightarrow> string) \<Rightarrow> rmark \<Rightarrow> string" where
  "mark_json f64s m = CHR 0x7B # quoted ''name'' @ CHR 0x3A # quoted (rm_name m) @
     CHR 0x2C # quoted ''value'' @ CHR 0x3A # quoted (scalar_to_string f64s (rm_value m)) @
     CHR 0x2C # quoted ''start'' @ CHR 0x3A # dec_digits (unat (rm_start m)) @
     CHR 0x2C # quoted ''end'' @ CHR 0x3A # dec_digits (unat (rm_end m)) @ [CHR 0x7D]"

definition marks_to_json :: "(uint64 \<Rightarrow> string) \<Rightarrow> rmark list \<Rightarrow> string" where
  "marks_to_json f64s ms = CHR 0x5B # commas (map (mark_json f64s) ms) @ [CHR 0x5D]"

definition marks_option_to_json :: "(uint64 \<Rightarrow> string) \<Rightarrow> (string \<times> ScalarValue) list option \<Rightarrow> string" where
  "marks_option_to_json f64s ms = (case ms of
     None \<Rightarrow> ''{}''
   | Some kvs \<Rightarrow> CHR 0x7B # commas (map (\<lambda>(k, v). quoted k @ CHR 0x3A # quoted (scalar_to_string f64s v)) kvs) @ [CHR 0x7D])"

fun hydrate_value_to_json :: "(uint64 \<Rightarrow> string) \<Rightarrow> hydrate \<Rightarrow> string"
  and hydrate_items_json :: "(uint64 \<Rightarrow> string) \<Rightarrow> hydrate list \<Rightarrow> string list"
  and hydrate_entries_json :: "(uint64 \<Rightarrow> string) \<Rightarrow> (string \<times> hydrate) list \<Rightarrow> string list" where
  "hydrate_value_to_json f64s (HScalar s) = scalar_to_json f64s s"
| "hydrate_value_to_json f64s (HMap kvs) = CHR 0x7B # commas (hydrate_entries_json f64s kvs) @ [CHR 0x7D]"
| "hydrate_value_to_json f64s (HList vs) = CHR 0x5B # commas (hydrate_items_json f64s vs) @ [CHR 0x5D]"
| "hydrate_value_to_json f64s (HText t) = quoted t"
| "hydrate_items_json f64s [] = []"
| "hydrate_items_json f64s (v # vs) = hydrate_value_to_json f64s v # hydrate_items_json f64s vs"
| "hydrate_entries_json f64s [] = []"
| "hydrate_entries_json f64s ((k, v) # kvs) =
     (quoted k @ CHR 0x3A # hydrate_value_to_json f64s v) # hydrate_entries_json f64s kvs"

definition hydrate_map_to_json :: "(uint64 \<Rightarrow> string) \<Rightarrow> (string \<times> hydrate) list \<Rightarrow> string" where
  "hydrate_map_to_json f64s kvs = CHR 0x7B # commas (hydrate_entries_json f64s kvs) @ [CHR 0x7D]"

fun span_json :: "(uint64 \<Rightarrow> string) \<Rightarrow> rspan \<Rightarrow> string" where
  "span_json f64s (RSpanText t ms) = CHR 0x7B # quoted ''type'' @ CHR 0x3A # quoted ''text'' @
     CHR 0x2C # quoted ''text'' @ CHR 0x3A # quoted t @
     CHR 0x2C # quoted ''marks'' @ CHR 0x3A # marks_option_to_json f64s ms @ [CHR 0x7D]"
| "span_json f64s (RSpanBlock kvs) = CHR 0x7B # quoted ''type'' @ CHR 0x3A # quoted ''block'' @
     CHR 0x2C # quoted ''value'' @ CHR 0x3A # hydrate_map_to_json f64s kvs @ [CHR 0x7D]"

definition spans_to_json :: "(uint64 \<Rightarrow> string) \<Rightarrow> rspan list \<Rightarrow> string" where
  "spans_to_json f64s sps = CHR 0x5B # commas (map (span_json f64s) sps) @ [CHR 0x5D]"

end
