(* ===== verification/Guest.thy ===== *)
theory Guest
  imports Wazero RichText
begin

text \<open>
  The guest: the Rust shim of \<open>wasi/src\<close>, which is compiled to the WASM module that the Go
  backend drives. The state is that of \<open>state.rs\<close> and \<open>sync.rs\<close> (the document, the handle
  table, the return buffer, the last error, the sync states) together with the linear memory
  and the blocks handed out by \<open>am_alloc\<close>. Each export is a function of the state.

  Two things are parameters. The automerge crate is third-party code: the record \<open>automerge\<close>
  has what the shim calls of it, each mutating call with the document it leaves behind, and how
  Rust prints a double. The
  global allocator is a function of the live blocks, the memory size and the requested size.

  A read or a copy outside every live block is undefined behaviour in Rust; the model records
  it in \<open>g_ub\<close> and goes on. A \<open>Vec\<close> of \<open>isize::MAX\<close> bytes or more cannot be built on a 32-bit
  target: the model traps.
\<close>

section \<open>State\<close>

datatype am_prop = PMap string | PSeq nat

record ('d, 'o, 's) automerge =
  c_root :: 'o
  c_new :: 'd
  c_load :: "bytes \<Rightarrow> 'd option"
  c_save :: "'d \<Rightarrow> bytes \<times> 'd"
  c_merge :: "'d \<Rightarrow> 'd \<Rightarrow> (string + unit) \<times> 'd"
  c_fork :: "'d \<Rightarrow> 'd \<times> 'd"
  c_fork_at :: "ChangeHash list \<Rightarrow> 'd \<Rightarrow> 'd option \<times> 'd"
  c_actor_hex :: "'d \<Rightarrow> string"
  c_set_actor :: "bytes \<Rightarrow> 'd \<Rightarrow> 'd"
  c_put :: "'o \<Rightarrow> am_prop \<Rightarrow> ScalarValue \<Rightarrow> 'd \<Rightarrow> (string + unit) \<times> 'd"
  c_put_object :: "'o \<Rightarrow> am_prop \<Rightarrow> ObjType \<Rightarrow> 'd \<Rightarrow> (string + 'o) \<times> 'd"
  c_insert :: "'o \<Rightarrow> nat \<Rightarrow> ScalarValue \<Rightarrow> 'd \<Rightarrow> (string + unit) \<times> 'd"
  c_insert_object :: "'o \<Rightarrow> nat \<Rightarrow> ObjType \<Rightarrow> 'd \<Rightarrow> (string + 'o) \<times> 'd"
  c_get :: "'o \<Rightarrow> am_prop \<Rightarrow> 'd \<Rightarrow> (rvalue \<times> 'o) option"
  c_delete :: "'o \<Rightarrow> am_prop \<Rightarrow> 'd \<Rightarrow> (string + unit) \<times> 'd"
  c_increment :: "'o \<Rightarrow> am_prop \<Rightarrow> int64 \<Rightarrow> 'd \<Rightarrow> (string + unit) \<times> 'd"
  c_length :: "'o \<Rightarrow> 'd \<Rightarrow> nat"
  c_object_type :: "'o \<Rightarrow> 'd \<Rightarrow> ObjType option"
  c_keys :: "'o \<Rightarrow> 'd \<Rightarrow> string list"
  c_text :: "'o \<Rightarrow> 'd \<Rightarrow> string option"
  c_splice_text :: "'o \<Rightarrow> nat \<Rightarrow> nat \<Rightarrow> string \<Rightarrow> 'd \<Rightarrow> (string + unit) \<times> 'd"
  c_mark :: "'o \<Rightarrow> string \<Rightarrow> string \<Rightarrow> nat \<Rightarrow> nat \<Rightarrow> byte \<Rightarrow> 'd \<Rightarrow> (string + unit) \<times> 'd"
  c_unmark :: "'o \<Rightarrow> string \<Rightarrow> nat \<Rightarrow> nat \<Rightarrow> byte \<Rightarrow> 'd \<Rightarrow> (string + unit) \<times> 'd"
  c_marks :: "'o \<Rightarrow> 'd \<Rightarrow> rmark list option"
  c_spans :: "'o \<Rightarrow> 'd \<Rightarrow> rspan list option"
  c_split_block :: "'o \<Rightarrow> nat \<Rightarrow> 'd \<Rightarrow> (string + 'o) \<times> 'd"
  c_join_block :: "'o \<Rightarrow> nat \<Rightarrow> 'd \<Rightarrow> (string + unit) \<times> 'd"
  c_replace_block :: "'o \<Rightarrow> nat \<Rightarrow> 'd \<Rightarrow> (string + 'o) \<times> 'd"
  c_get_cursor :: "'o \<Rightarrow> nat \<Rightarrow> 'd \<Rightarrow> string option"
  c_cursor_position :: "'o \<Rightarrow> string \<Rightarrow> 'd \<Rightarrow> nat option"
  c_commit_with :: "string option \<Rightarrow> int64 option \<Rightarrow> 'd \<Rightarrow> ChangeHash option \<times> 'd"
  c_empty_change :: "string option \<Rightarrow> int64 option \<Rightarrow> 'd \<Rightarrow> ChangeHash \<times> 'd"
  c_save_incremental :: "'d \<Rightarrow> bytes \<times> 'd"
  c_load_incremental :: "bytes \<Rightarrow> 'd \<Rightarrow> (string + unit) \<times> 'd"
  c_get_heads :: "'d \<Rightarrow> ChangeHash list \<times> 'd"
  c_get_changes :: "ChangeHash list \<Rightarrow> 'd \<Rightarrow> bytes list \<times> 'd"
  c_change_by_hash :: "ChangeHash \<Rightarrow> 'd \<Rightarrow> bytes option \<times> 'd"
  c_parse_change :: "bytes \<Rightarrow> RChange option"
  c_apply_change :: "bytes \<Rightarrow> 'd \<Rightarrow> (string + unit) \<times> 'd"
  f64_to_string :: "uint64 \<Rightarrow> string"
  c_sync_new :: 's
  c_sync_generate :: "'s \<Rightarrow> 'd \<Rightarrow> bytes option \<times> 's \<times> 'd"
  c_sync_decodable :: "bytes \<Rightarrow> bool"
  c_sync_receive :: "bytes \<Rightarrow> 's \<Rightarrow> 'd \<Rightarrow> (string + unit) \<times> 's \<times> 'd"
  c_sync_encode :: "'s \<Rightarrow> bytes"
  c_sync_decode :: "bytes \<Rightarrow> 's option"

record ('d, 'o, 's) guest =
  g_mem :: "nat \<Rightarrow> byte"
  g_size :: nat
  g_blocks :: "block list"
  g_ub :: bool
  g_doc :: "'d option"
  g_table :: "'o option list"
  g_return_buf :: bytes
  g_last_error :: string
  g_sync :: "uint32 \<Rightarrow> 's option"
  g_next_peer :: uint32

type_synonym allocator = "block list \<Rightarrow> nat \<Rightarrow> uint32 \<Rightarrow> uint32 \<times> nat"

type_synonym ('d, 'o, 's) export = "('d, 'o, 's) guest \<Rightarrow> uint32 option \<times> ('d, 'o, 's) guest"

section \<open>Memory\<close>

definition covers :: "block list \<Rightarrow> uint32 \<Rightarrow> nat \<Rightarrow> bool" where
  "covers bs p n \<longleftrightarrow> (\<exists>(q, m) \<in> set bs. unat q \<le> unat p \<and> unat p + n \<le> unat q + unat m)"

definition read_mem :: "nat \<Rightarrow> nat \<Rightarrow> (nat \<Rightarrow> byte) \<Rightarrow> bytes" where
  "read_mem p n mem = map mem [p..<p + n]"

definition write_mem :: "nat \<Rightarrow> bytes \<Rightarrow> (nat \<Rightarrow> byte) \<Rightarrow> nat \<Rightarrow> byte" where
  "write_mem p d mem = (\<lambda>a. if p \<le> a \<and> a < p + length d then d ! (a - p) else mem a)"

definition note_access :: "uint32 \<Rightarrow> nat \<Rightarrow> ('d, 'o, 's) guest \<Rightarrow> ('d, 'o, 's) guest" where
  "note_access p n g = (if covers (g_blocks g) p n then g else g\<lparr>g_ub := True\<rparr>)"

text \<open>\<open>std::slice::from_raw_parts\<close>\<close>

definition with_slice :: "uint32 \<Rightarrow> nat \<Rightarrow> (bytes \<Rightarrow> ('d, 'o, 's) export) \<Rightarrow> ('d, 'o, 's) export" where
  "with_slice p n k = (\<lambda>g. k (read_mem (unat p) n (g_mem g)) (note_access p n g))"

definition poke :: "uint32 \<Rightarrow> bytes \<Rightarrow> ('d, 'o, 's) guest \<Rightarrow> ('d, 'o, 's) guest" where
  "poke p d g = (note_access p (length d) g)\<lparr>g_mem := write_mem (unat p) d (g_mem g)\<rparr>"

text \<open>
  The contract of \<open>std::alloc::alloc\<close>: the memory only grows, up to 4 GiB, and a block that is
  not null lies in it and overlaps no live block. \<open>am_alloc\<close> honours only answers that keep the
  contract, so every real allocator is an instance of the parameter.
\<close>

definition fits :: "block list \<Rightarrow> nat \<Rightarrow> uint32 \<Rightarrow> uint32 \<times> nat \<Rightarrow> bool" where
  "fits bs sz n r = (case r of (p, sz') \<Rightarrow> sz \<le> sz' \<and> sz' \<le> 2 ^ 32 \<and>
     (p \<noteq> 0 \<longrightarrow> unat p + unat n \<le> sz' \<and>
       list_all (\<lambda>(q, m). unat p + unat n \<le> unat q \<or> unat q + unat m \<le> unat p) bs))"

definition am_alloc :: "allocator \<Rightarrow> uint32 \<Rightarrow> ('d, 'o, 's) export" where
  "am_alloc A n = (\<lambda>g. let r = A (g_blocks g) (g_size g) n in
     if n = 0 \<or> \<not> fits (g_blocks g) (g_size g) n r then (Some 0, g)
     else if fst r = 0 then (Some 0, g\<lparr>g_size := snd r\<rparr>)
     else (Some (fst r), g\<lparr>g_blocks := (fst r, n) # g_blocks g, g_size := snd r\<rparr>))"

definition am_free :: "uint32 \<Rightarrow> uint32 \<Rightarrow> ('d, 'o, 's) guest \<Rightarrow> ('d, 'o, 's) guest" where
  "am_free p n g = (if p = 0 \<or> n = 0 then g
     else if (p, n) \<in> set (g_blocks g) then g\<lparr>g_blocks := remove1 (p, n) (g_blocks g)\<rparr>
     else g\<lparr>g_ub := True\<rparr>)"

section \<open>The helpers of \<open>state.rs\<close>\<close>

definition reply :: "uint32 \<Rightarrow> ('d, 'o, 's) export" where
  "reply r = (\<lambda>g. (Some r, g))"

definition trap :: "('d, 'o, 's) export" where
  "trap = (\<lambda>g. (None, g))"

text \<open>The handle table; slot 0 stands for the root object and holds nothing.\<close>

fun free_slot :: "nat \<Rightarrow> 'o option list \<Rightarrow> nat option" where
  "free_slot i [] = None"
| "free_slot i (e # es) = (if e = None then Some i else free_slot (Suc i) es)"

definition table_insert :: "'o \<Rightarrow> 'o \<Rightarrow> 'o option list \<Rightarrow> uint32 \<times> 'o option list" where
  "table_insert root ob t = (if ob = root then (0, t)
     else (case free_slot 1 (tl t) of
             Some i \<Rightarrow> (word_of_nat i, t[i := Some ob])
           | None \<Rightarrow> (word_of_nat (length t), t @ [Some ob])))"

definition table_get :: "'o \<Rightarrow> 'o option list \<Rightarrow> uint32 \<Rightarrow> 'o option" where
  "table_get root t h = (if h = 0 then Some root
     else if unat h < length t then t ! unat h else None)"

definition table_remove :: "uint32 \<Rightarrow> 'o option list \<Rightarrow> 'o option list" where
  "table_remove h t = (if h = 0 then t else if unat h < length t then t[unat h := None] else t)"

definition init_doc :: "'d \<Rightarrow> ('d, 'o, 's) guest \<Rightarrow> ('d, 'o, 's) guest" where
  "init_doc d g = g\<lparr>g_doc := Some d, g_table := [None], g_return_buf := []\<rparr>"

definition with_doc :: "('d \<Rightarrow> ('d, 'o, 's) export) \<Rightarrow> uint32 \<Rightarrow> ('d, 'o, 's) export" where
  "with_doc f none = (\<lambda>g. case g_doc g of None \<Rightarrow> (Some none, g) | Some d \<Rightarrow> f d g)"

definition with_doc_mut ::
  "('d \<Rightarrow> 'r \<times> 'd) \<Rightarrow> ('r \<Rightarrow> ('d, 'o, 's) export) \<Rightarrow> uint32 \<Rightarrow> ('d, 'o, 's) export" where
  "with_doc_mut f k none = (\<lambda>g. case g_doc g of
     None \<Rightarrow> (Some none, g)
   | Some d \<Rightarrow> (case f d of (r, d') \<Rightarrow> k r (g\<lparr>g_doc := Some d'\<rparr>)))"

definition register_obj ::
  "('d, 'o, 's) automerge \<Rightarrow> 'o \<Rightarrow> (uint32 \<Rightarrow> ('d, 'o, 's) export) \<Rightarrow> ('d, 'o, 's) export" where
  "register_obj C ob k = (\<lambda>g. case table_insert (c_root C) ob (g_table g) of
     (h, t) \<Rightarrow> k h (g\<lparr>g_table := t\<rparr>))"

definition resolve_obj ::
  "('d, 'o, 's) automerge \<Rightarrow> uint32 \<Rightarrow> ('o \<Rightarrow> ('d, 'o, 's) export) \<Rightarrow> uint32 \<Rightarrow> ('d, 'o, 's) export" where
  "resolve_obj C h k bad = (\<lambda>g. case table_get (c_root C) (g_table g) h of
     None \<Rightarrow> (Some bad, g) | Some ob \<Rightarrow> k ob g)"

definition set_return_buf :: "bytes \<Rightarrow> ('d, 'o, 's) export \<Rightarrow> ('d, 'o, 's) export" where
  "set_return_buf d k = (\<lambda>g. if length d < 2 ^ 31 then k (g\<lparr>g_return_buf := d\<rparr>) else (None, g))"

definition return_buf_len :: "('d, 'o, 's) export" where
  "return_buf_len = (\<lambda>g. (Some (word_of_nat (length (g_return_buf g))), g))"

definition prepare :: "bytes \<Rightarrow> ('d, 'o, 's) export" where
  "prepare d = set_return_buf d return_buf_len"

definition copy_return_buf :: "uint32 \<Rightarrow> ('d, 'o, 's) export \<Rightarrow> ('d, 'o, 's) export" where
  "copy_return_buf p k = (\<lambda>g.
     if p \<noteq> 0 \<and> g_return_buf g \<noteq> [] then k (poke p (g_return_buf g) g) else k g)"

definition set_last_error :: "string \<Rightarrow> ('d, 'o, 's) export \<Rightarrow> ('d, 'o, 's) export" where
  "set_last_error msg k = (\<lambda>g. if length msg < 2 ^ 31 then k (g\<lparr>g_last_error := msg\<rparr>) else (None, g))"

definition am_last_error_len :: "('d, 'o, 's) export" where
  "am_last_error_len = (\<lambda>g. (Some (word_of_nat (length (g_last_error g))), g))"

definition am_last_error :: "uint32 \<Rightarrow> ('d, 'o, 's) export" where
  "am_last_error p = (if p = 0 then reply (- 1) else (\<lambda>g.
     if g_last_error g \<noteq> [] then (Some 0, poke p (str_bytes (g_last_error g)) g) else (Some 0, g)))"

text \<open>The second phase of most two-phase exports.\<close>

definition copy_out :: "uint32 \<Rightarrow> ('d, 'o, 's) export" where
  "copy_out p = (if p = 0 then reply (- 1) else copy_return_buf p (reply 0))"

text \<open>The three return codes of a mutating export.\<close>

definition mutate :: "('d \<Rightarrow> (string + unit) \<times> 'd) \<Rightarrow> ('d, 'o, 's) export" where
  "mutate f = with_doc_mut f (\<lambda>r. case r of Inl _ \<Rightarrow> reply (- 5) | Inr _ \<Rightarrow> reply 0) (- 2)"

definition with_utf8 :: "uint32 \<Rightarrow> uint32 \<Rightarrow> (string \<Rightarrow> ('d, 'o, 's) export) \<Rightarrow> uint32 \<Rightarrow> ('d, 'o, 's) export" where
  "with_utf8 p n k bad = with_slice p (unat n) (\<lambda>b.
     if utf8_valid b then k (bytes_str b) else reply bad)"

text \<open>A slice that may be absent: \<open>if ptr.is_null() || len == 0 { empty }\<close>.\<close>

definition with_opt_slice :: "uint32 \<Rightarrow> uint32 \<Rightarrow> (bytes \<Rightarrow> ('d, 'o, 's) export) \<Rightarrow> ('d, 'o, 's) export" where
  "with_opt_slice p n k = (if p = 0 \<or> n = 0 then k [] else with_slice p (unat n) k)"

section \<open>Documents: \<open>document.rs\<close> and \<open>actor.rs\<close>\<close>

definition am_create :: "('d, 'o, 's) automerge \<Rightarrow> ('d, 'o, 's) export" where
  "am_create C = (\<lambda>g. (Some 0, init_doc (c_new C) g))"

definition am_save_len :: "('d, 'o, 's) automerge \<Rightarrow> ('d, 'o, 's) export" where
  "am_save_len C = with_doc_mut (c_save C) prepare 0"

definition am_save :: "uint32 \<Rightarrow> ('d, 'o, 's) export" where
  "am_save p = (if p = 0 then reply (- 1) else with_doc (\<lambda>_. copy_return_buf p (reply 0)) (- 2))"

definition am_load :: "('d, 'o, 's) automerge \<Rightarrow> uint32 \<Rightarrow> uint32 \<Rightarrow> ('d, 'o, 's) export" where
  "am_load C p n = (if p = 0 \<or> n = 0 then reply (- 1) else with_slice p (unat n) (\<lambda>b.
     case c_load C b of
       Some d \<Rightarrow> (\<lambda>g. (Some 0, init_doc d g))
     | None \<Rightarrow> reply (- 2)))"

definition am_merge :: "('d, 'o, 's) automerge \<Rightarrow> uint32 \<Rightarrow> uint32 \<Rightarrow> ('d, 'o, 's) export" where
  "am_merge C p n = (if p = 0 \<or> n = 0 then reply (- 1) else with_slice p (unat n) (\<lambda>b.
     case c_load C b of
       None \<Rightarrow> reply (- 3)
     | Some other \<Rightarrow> with_doc_mut (c_merge C other) (\<lambda>r. case r of
         Inr _ \<Rightarrow> reply 0
       | Inl e \<Rightarrow> set_last_error e (reply (- 4))) (- 2)))"

text \<open>A list of 32-byte hashes; \<open>chunks_exact(32)\<close> drops an incomplete last one.\<close>

definition with_heads :: "uint32 \<Rightarrow> uint32 \<Rightarrow> (ChangeHash list \<Rightarrow> ('d, 'o, 's) export) \<Rightarrow> ('d, 'o, 's) export" where
  "with_heads p cnt k = (if p = 0 \<or> cnt = 0 then k []
     else with_slice p (unat (cnt * 32)) (\<lambda>b. k (ParseChangeHashes b)))"

definition fork_of :: "('d, 'o, 's) automerge \<Rightarrow> bool \<Rightarrow> ChangeHash list \<Rightarrow> 'd \<Rightarrow> 'd option \<times> 'd" where
  "fork_of C now heads d = (if now then (case c_fork C d of (f, d') \<Rightarrow> (Some f, d')) else c_fork_at C heads d)"

definition am_fork :: "('d, 'o, 's) automerge \<Rightarrow> uint32 \<Rightarrow> uint32 \<Rightarrow> ('d, 'o, 's) export" where
  "am_fork C p cnt = with_doc (\<lambda>_.
     with_heads p cnt (\<lambda>heads.
       with_doc_mut (fork_of C (p = 0 \<or> cnt = 0) heads) (\<lambda>r. case r of
         Some forked \<Rightarrow> set_return_buf (fst (c_save C forked)) (reply 0)
       | None \<Rightarrow> reply (- 3)) (- 2))) (- 2)"

definition am_get_actor_len :: "('d, 'o, 's) automerge \<Rightarrow> ('d, 'o, 's) export" where
  "am_get_actor_len C = with_doc (\<lambda>d. prepare (str_bytes (c_actor_hex C d))) 0"

definition am_get_actor :: "uint32 \<Rightarrow> ('d, 'o, 's) export" where
  "am_get_actor = am_save"

text \<open>\<open>u8::from_str_radix(_, 16)\<close> on two bytes; it accepts a leading plus sign.\<close>

definition hex_digit :: "byte \<Rightarrow> byte option" where
  "hex_digit c = (if 0x30 \<le> c \<and> c \<le> 0x39 then Some (c - 0x30)
     else if 0x61 \<le> c \<and> c \<le> 0x66 then Some (c - 0x57)
     else if 0x41 \<le> c \<and> c \<le> 0x46 then Some (c - 0x37) else None)"

definition radix16 :: "byte \<Rightarrow> byte \<Rightarrow> byte option" where
  "radix16 a b = (if a = 0x2B then hex_digit b
     else (case (hex_digit a, hex_digit b) of (Some x, Some y) \<Rightarrow> Some (x * 16 + y) | _ \<Rightarrow> None))"

text \<open>
  \<open>hex_to_bytes\<close>: the outer \<open>None\<close> is the panic of \<open>&hex[i..i + 2]\<close> inside a character.
\<close>

fun hex_to_bytes :: "bytes \<Rightarrow> bytes option option" where
  "hex_to_bytes (a # b # r) =
     (if r \<noteq> [] \<and> cont (hd r) then None
      else (case radix16 a b of
              None \<Rightarrow> Some None
            | Some x \<Rightarrow> map_option (map_option (\<lambda>xs. x # xs)) (hex_to_bytes r)))"
| "hex_to_bytes [a] = Some None"
| "hex_to_bytes [] = Some (Some [])"

definition am_set_actor :: "('d, 'o, 's) automerge \<Rightarrow> uint32 \<Rightarrow> uint32 \<Rightarrow> ('d, 'o, 's) export" where
  "am_set_actor C p n = (if p = 0 \<or> n = 0 then reply (- 1) else with_utf8 p n (\<lambda>s.
     if odd (length s) then reply (- 3)
     else (case hex_to_bytes (str_bytes s) of
             None \<Rightarrow> trap
           | Some None \<Rightarrow> reply (- 3)
           | Some (Some b) \<Rightarrow> with_doc_mut (\<lambda>d. ((), c_set_actor C b d)) (\<lambda>_. reply 0) (- 2))) (- 3))"

section \<open>Maps, lists and text\<close>

definition put_object_reply ::
  "('d, 'o, 's) automerge \<Rightarrow> ('d \<Rightarrow> (string + 'o) \<times> 'd) \<Rightarrow> ('d, 'o, 's) export" where
  "put_object_reply C f = with_doc_mut f (\<lambda>r. case r of
     Inl _ \<Rightarrow> reply (- 5) | Inr ob \<Rightarrow> register_obj C ob reply) (- 2)"

definition am_map_put ::
  "('d, 'o, 's) automerge \<Rightarrow> uint32 \<Rightarrow> uint32 \<Rightarrow> uint32 \<Rightarrow> byte \<Rightarrow> uint32 \<Rightarrow> uint32 \<Rightarrow> ('d, 'o, 's) export" where
  "am_map_put C h kp kn tag vp vn = (if kp = 0 \<or> kn = 0 then reply (- 1) else
     with_utf8 kp kn (\<lambda>key.
     with_opt_slice vp vn (\<lambda>payload.
     case parse_tagged_value tag payload of
       None \<Rightarrow> reply (- 1)
     | Some v \<Rightarrow> resolve_obj C h (\<lambda>ob. case v of
         RScalar x \<Rightarrow> mutate (c_put C ob (PMap key) x)
       | RObject t \<Rightarrow> put_object_reply C (c_put_object C ob (PMap key) t)) (- 3))) (- 4))"

text \<open>
  A value is prepared with a fresh handle when it is an object. What is absent is prepared as
  the void tag, and the export then returns the literal 1.
\<close>

definition prepare_value ::
  "('d, 'o, 's) automerge \<Rightarrow> (rvalue \<times> 'o) option \<Rightarrow> ('d, 'o, 's) export" where
  "prepare_value C r = (case r of
     None \<Rightarrow> set_return_buf [TagVoid] (reply 1)
   | Some (v, child) \<Rightarrow> (case v of
       RObject _ \<Rightarrow> register_obj C child (\<lambda>h. prepare (encode_value v h))
     | RScalar _ \<Rightarrow> prepare (encode_value v 0)))"

definition am_map_get_len :: "('d, 'o, 's) automerge \<Rightarrow> uint32 \<Rightarrow> uint32 \<Rightarrow> uint32 \<Rightarrow> ('d, 'o, 's) export" where
  "am_map_get_len C h kp kn = (if kp = 0 \<or> kn = 0 then reply 0 else
     with_utf8 kp kn (\<lambda>key. resolve_obj C h (\<lambda>ob.
       with_doc (\<lambda>d. prepare_value C (c_get C ob (PMap key) d)) 0) 0) 0)"

definition am_map_delete :: "('d, 'o, 's) automerge \<Rightarrow> uint32 \<Rightarrow> uint32 \<Rightarrow> uint32 \<Rightarrow> ('d, 'o, 's) export" where
  "am_map_delete C h kp kn = (if kp = 0 \<or> kn = 0 then reply (- 1) else
     with_utf8 kp kn (\<lambda>key. resolve_obj C h (\<lambda>ob. mutate (c_delete C ob (PMap key))) (- 3)) (- 1))"

definition am_map_increment ::
  "('d, 'o, 's) automerge \<Rightarrow> uint32 \<Rightarrow> uint32 \<Rightarrow> uint32 \<Rightarrow> int64 \<Rightarrow> ('d, 'o, 's) export" where
  "am_map_increment C h kp kn delta = (if kp = 0 \<or> kn = 0 then reply (- 1) else
     with_utf8 kp kn (\<lambda>key. resolve_obj C h (\<lambda>ob. mutate (c_increment C ob (PMap key) delta)) (- 3)) (- 1))"

definition am_list_put ::
  "('d, 'o, 's) automerge \<Rightarrow> uint32 \<Rightarrow> uint32 \<Rightarrow> byte \<Rightarrow> byte \<Rightarrow> uint32 \<Rightarrow> uint32 \<Rightarrow> ('d, 'o, 's) export" where
  "am_list_put C h index insert_flag tag vp vn =
     with_opt_slice vp vn (\<lambda>payload.
     case parse_tagged_value tag payload of
       None \<Rightarrow> reply (- 1)
     | Some v \<Rightarrow> resolve_obj C h (\<lambda>ob. let i = unat index in case v of
         RScalar x \<Rightarrow> mutate (if insert_flag \<noteq> 0 then c_insert C ob i x else c_put C ob (PSeq i) x)
       | RObject t \<Rightarrow> put_object_reply C
           (if insert_flag \<noteq> 0 then c_insert_object C ob i t else c_put_object C ob (PSeq i) t)) (- 3))"

definition am_list_get_len :: "('d, 'o, 's) automerge \<Rightarrow> uint32 \<Rightarrow> uint32 \<Rightarrow> ('d, 'o, 's) export" where
  "am_list_get_len C h index = resolve_obj C h (\<lambda>ob.
     with_doc (\<lambda>d. prepare_value C (c_get C ob (PSeq (unat index)) d)) 0) 0"

definition am_list_delete :: "('d, 'o, 's) automerge \<Rightarrow> uint32 \<Rightarrow> uint32 \<Rightarrow> ('d, 'o, 's) export" where
  "am_list_delete C h index = resolve_obj C h (\<lambda>ob. mutate (c_delete C ob (PSeq (unat index)))) (- 3)"

definition am_obj_size :: "('d, 'o, 's) automerge \<Rightarrow> uint32 \<Rightarrow> ('d, 'o, 's) export" where
  "am_obj_size C h = resolve_obj C h (\<lambda>ob. with_doc (\<lambda>d. reply (word_of_nat (c_length C ob d))) 0) 0"

definition am_list_len :: "('d, 'o, 's) automerge \<Rightarrow> uint32 \<Rightarrow> ('d, 'o, 's) export" where
  "am_list_len = am_obj_size"

definition am_list_increment :: "('d, 'o, 's) automerge \<Rightarrow> uint32 \<Rightarrow> uint32 \<Rightarrow> int64 \<Rightarrow> ('d, 'o, 's) export" where
  "am_list_increment C h index delta =
     resolve_obj C h (\<lambda>ob. mutate (c_increment C ob (PSeq (unat index)) delta)) (- 3)"

text \<open>A mutating export that stores the message of the crate's error.\<close>

definition mutate_msg :: "('d \<Rightarrow> (string + unit) \<times> 'd) \<Rightarrow> uint32 \<Rightarrow> uint32 \<Rightarrow> ('d, 'o, 's) export" where
  "mutate_msg f err none = with_doc_mut f (\<lambda>r. case r of
     Inl e \<Rightarrow> set_last_error e (reply err) | Inr _ \<Rightarrow> reply 0) none"

definition am_text_splice ::
  "('d, 'o, 's) automerge \<Rightarrow> uint32 \<Rightarrow> uint32 \<Rightarrow> uint32 \<Rightarrow> uint32 \<Rightarrow> uint32 \<Rightarrow> ('d, 'o, 's) export" where
  "am_text_splice C h pos del_count ip ilen = resolve_obj C h (\<lambda>ob.
     with_opt_slice ip ilen (\<lambda>b. if \<not> utf8_valid b then reply (- 4)
       else mutate_msg (c_splice_text C ob (unat pos) (nat (sint del_count)) (bytes_str b)) (- 5) (- 2))) (- 3)"

definition am_text_get_len :: "('d, 'o, 's) automerge \<Rightarrow> uint32 \<Rightarrow> ('d, 'o, 's) export" where
  "am_text_get_len C h = resolve_obj C h (\<lambda>ob. with_doc (\<lambda>d. case c_text C ob d of
     Some t \<Rightarrow> prepare (str_bytes t) | None \<Rightarrow> reply 0) 0) 0"

section \<open>Marks, blocks, cursors and objects\<close>

definition am_mark ::
  "('d, 'o, 's) automerge \<Rightarrow> uint32 \<Rightarrow> uint32 \<Rightarrow> uint32 \<Rightarrow> uint32 \<Rightarrow> uint32 \<Rightarrow> uint32 \<Rightarrow> uint32 \<Rightarrow> byte \<Rightarrow> ('d, 'o, 's) export" where
  "am_mark C h np nn vp vn start stop expand = resolve_obj C h (\<lambda>ob.
     if np = 0 then reply (- 1) else with_utf8 np nn (\<lambda>name.
     with_opt_slice vp vn (\<lambda>v. if \<not> utf8_valid v then reply (- 1)
       else if 3 < expand then reply (- 1)
       else mutate_msg (c_mark C ob name (bytes_str v) (unat start) (unat stop) expand) (- 2) (- 3))) (- 1)) (- 4)"

definition am_unmark ::
  "('d, 'o, 's) automerge \<Rightarrow> uint32 \<Rightarrow> uint32 \<Rightarrow> uint32 \<Rightarrow> uint32 \<Rightarrow> uint32 \<Rightarrow> byte \<Rightarrow> ('d, 'o, 's) export" where
  "am_unmark C h np nn start stop expand = resolve_obj C h (\<lambda>ob.
     if np = 0 then reply (- 1) else with_utf8 np nn (\<lambda>name.
       if 3 < expand then reply (- 1)
       else mutate_msg (c_unmark C ob name (unat start) (unat stop) expand) (- 2) (- 3)) (- 1)) (- 4)"

definition prepare_json :: "string option \<Rightarrow> ('d, 'o, 's) export" where
  "prepare_json r = (case r of Some j \<Rightarrow> prepare (str_bytes j) | None \<Rightarrow> reply 0)"

definition am_marks_len :: "('d, 'o, 's) automerge \<Rightarrow> uint32 \<Rightarrow> ('d, 'o, 's) export" where
  "am_marks_len C h = resolve_obj C h (\<lambda>ob. with_doc (\<lambda>d. prepare_json (map_option (marks_to_json (f64_to_string C)) (c_marks C ob d))) 0) 0"

definition am_spans_len :: "('d, 'o, 's) automerge \<Rightarrow> uint32 \<Rightarrow> ('d, 'o, 's) export" where
  "am_spans_len C h = resolve_obj C h (\<lambda>ob. with_doc (\<lambda>d. prepare_json (map_option (spans_to_json (f64_to_string C)) (c_spans C ob d))) 0) 0"

definition block_reply :: "('d, 'o, 's) automerge \<Rightarrow> ('d \<Rightarrow> (string + 'o) \<times> 'd) \<Rightarrow> ('d, 'o, 's) export" where
  "block_reply C f = with_doc_mut f (\<lambda>r. case r of
     Inl e \<Rightarrow> set_last_error e (reply (- 2)) | Inr ob \<Rightarrow> register_obj C ob reply) (- 3)"

definition am_split_block :: "('d, 'o, 's) automerge \<Rightarrow> uint32 \<Rightarrow> uint32 \<Rightarrow> ('d, 'o, 's) export" where
  "am_split_block C h i = resolve_obj C h (\<lambda>ob. block_reply C (c_split_block C ob (unat i))) (- 4)"

definition am_join_block :: "('d, 'o, 's) automerge \<Rightarrow> uint32 \<Rightarrow> uint32 \<Rightarrow> ('d, 'o, 's) export" where
  "am_join_block C h i = resolve_obj C h (\<lambda>ob. mutate_msg (c_join_block C ob (unat i)) (- 2) (- 3)) (- 4)"

definition am_replace_block :: "('d, 'o, 's) automerge \<Rightarrow> uint32 \<Rightarrow> uint32 \<Rightarrow> ('d, 'o, 's) export" where
  "am_replace_block C h i = resolve_obj C h (\<lambda>ob. block_reply C (c_replace_block C ob (unat i))) (- 4)"

definition am_get_cursor :: "('d, 'o, 's) automerge \<Rightarrow> uint32 \<Rightarrow> uint32 \<Rightarrow> ('d, 'o, 's) export" where
  "am_get_cursor C h i = resolve_obj C h (\<lambda>ob. with_doc (\<lambda>d. case c_get_cursor C ob (unat i) d of
     Some s \<Rightarrow> prepare (str_bytes s) | None \<Rightarrow> reply (- 2)) (- 3)) (- 1)"

definition am_lookup_cursor :: "('d, 'o, 's) automerge \<Rightarrow> uint32 \<Rightarrow> uint32 \<Rightarrow> uint32 \<Rightarrow> ('d, 'o, 's) export" where
  "am_lookup_cursor C h p n = resolve_obj C h (\<lambda>ob.
     if p = 0 then reply (- 2) else with_utf8 p n (\<lambda>s.
       with_doc (\<lambda>d. case c_cursor_position C ob s d of
         Some i \<Rightarrow> reply (word_of_nat i) | None \<Rightarrow> reply (- 2)) (- 3)) (- 2)) (- 1)"

fun type_code :: "ObjType option \<Rightarrow> uint32" where
  "type_code (Some OMap) = 1"
| "type_code (Some OTable) = 1"
| "type_code (Some OList) = 2"
| "type_code (Some OText) = 3"
| "type_code None = - 1"

definition am_obj_type :: "('d, 'o, 's) automerge \<Rightarrow> uint32 \<Rightarrow> ('d, 'o, 's) export" where
  "am_obj_type C h = resolve_obj C h (\<lambda>ob. with_doc (\<lambda>d.
     if h = 0 then reply 1 else reply (type_code (c_object_type C ob d))) (- 2)) (- 1)"

definition am_obj_keys_len :: "('d, 'o, 's) automerge \<Rightarrow> uint32 \<Rightarrow> ('d, 'o, 's) export" where
  "am_obj_keys_len C h = resolve_obj C h (\<lambda>ob. with_doc (\<lambda>d. prepare (encode_keys (c_keys C ob d))) 0) 0"

text \<open>The loop over the entries of an object, which registers a handle for each child object.\<close>

fun collect_items ::
  "('d, 'o, 's) automerge \<Rightarrow> 'd \<Rightarrow> 'o \<Rightarrow> (string \<times> am_prop) list \<Rightarrow> 'o option list \<Rightarrow> bytes \<times> 'o option list" where
  "collect_items C d ob [] t = ([], t)"
| "collect_items C d ob ((k, p) # ps) t = (case c_get C ob p d of
     None \<Rightarrow> collect_items C d ob ps t
   | Some (v, child) \<Rightarrow>
       (let (h, t') = (case v of RObject _ \<Rightarrow> table_insert (c_root C) child t | RScalar _ \<Rightarrow> (0, t));
            (rest, t'') = collect_items C d ob ps t'
        in (encode_items [(k, v, h)] @ rest, t'')))"

definition item_props :: "('d, 'o, 's) automerge \<Rightarrow> uint32 \<Rightarrow> 'o \<Rightarrow> 'd \<Rightarrow> (string \<times> am_prop) list" where
  "item_props C h ob d =
     (if h = 0 \<or> c_object_type C ob d = Some OMap \<or> c_object_type C ob d = Some OTable
      then map (\<lambda>k. (k, PMap k)) (c_keys C ob d)
      else map (\<lambda>i. ([], PSeq i)) [0..<c_length C ob d])"

definition am_obj_items_len :: "('d, 'o, 's) automerge \<Rightarrow> uint32 \<Rightarrow> ('d, 'o, 's) export" where
  "am_obj_items_len C h = resolve_obj C h (\<lambda>ob. with_doc (\<lambda>d g.
     case collect_items C d ob (item_props C h ob d) (g_table g) of
       (b, t) \<Rightarrow> prepare b (g\<lparr>g_table := t\<rparr>)) 0) 0"

definition am_obj_free :: "uint32 \<Rightarrow> ('d, 'o, 's) export" where
  "am_obj_free h = (if h = 0 then reply (- 1) else (\<lambda>g. (Some 0, g\<lparr>g_table := table_remove h (g_table g)\<rparr>)))"

section \<open>Commits and history: \<open>commit.rs\<close> and \<open>changes.rs\<close>\<close>

definition opt_time :: "int64 \<Rightarrow> int64 option" where
  "opt_time t = (if t \<noteq> 0 then Some t else None)"

definition opt_msg :: "bytes \<Rightarrow> string option" where
  "opt_msg b = (if b = [] then None else Some (bytes_str b))"

definition am_commit :: "('d, 'o, 's) automerge \<Rightarrow> uint32 \<Rightarrow> uint32 \<Rightarrow> int64 \<Rightarrow> ('d, 'o, 's) export" where
  "am_commit C p n t = with_opt_slice p n (\<lambda>b.
     if \<not> utf8_valid b then set_last_error ''invalid UTF-8 in commit message'' (reply (- 1))
     else (\<lambda>g. with_doc_mut (c_commit_with C (opt_msg b) (opt_time t)) (\<lambda>r. case r of
       Some h \<Rightarrow> set_return_buf h (reply 0)
     | None \<Rightarrow> reply (- 3)) (- 2) (g\<lparr>g_last_error := []\<rparr>)))"

definition am_empty_change :: "('d, 'o, 's) automerge \<Rightarrow> uint32 \<Rightarrow> uint32 \<Rightarrow> int64 \<Rightarrow> ('d, 'o, 's) export" where
  "am_empty_change C p n t = with_opt_slice p n (\<lambda>b.
     if \<not> utf8_valid b then reply (- 1)
     else with_doc_mut (c_empty_change C (opt_msg b) (opt_time t)) (\<lambda>h. set_return_buf h (reply 0)) (- 2))"

definition am_save_incremental_len :: "('d, 'o, 's) automerge \<Rightarrow> ('d, 'o, 's) export" where
  "am_save_incremental_len C = with_doc_mut (c_save_incremental C) prepare 0"

definition am_load_incremental :: "('d, 'o, 's) automerge \<Rightarrow> uint32 \<Rightarrow> uint32 \<Rightarrow> ('d, 'o, 's) export" where
  "am_load_incremental C p n = (if p = 0 \<or> n = 0 then reply (- 1)
     else with_slice p (unat n) (\<lambda>b. mutate (c_load_incremental C b)))"

definition am_get_heads_len :: "('d, 'o, 's) automerge \<Rightarrow> ('d, 'o, 's) export" where
  "am_get_heads_len C = with_doc_mut (c_get_heads C) (\<lambda>heads. prepare (concat heads)) 0"

definition am_get_changes_len :: "('d, 'o, 's) automerge \<Rightarrow> uint32 \<Rightarrow> uint32 \<Rightarrow> ('d, 'o, 's) export" where
  "am_get_changes_len C p cnt = with_heads p cnt (\<lambda>heads.
     with_doc_mut (c_get_changes C heads) (\<lambda>chs.
       prepare (concat (map (\<lambda>raw. PutUint32 (word_of_nat (length raw)) @ raw) chs))) 0)"

text \<open>The loop of \<open>am_apply_changes\<close>: the changes before the first bad one stay applied.\<close>

function apply_loop :: "('d, 'o, 's) automerge \<Rightarrow> bytes \<Rightarrow> 'd \<Rightarrow> (string + unit) \<times> 'd" where
  "apply_loop C data d = (if 4 \<le> length data then
     (let len = unat (Uint32 data); data' = drop 4 data in
      if length data' < len then (Inl [], d)
      else if c_parse_change C (take len data') = None then (Inl [], d)
      else (case c_apply_change C (take len data') d of
              (Inl e, d') \<Rightarrow> (Inl e, d')
            | (Inr _, d') \<Rightarrow> apply_loop C (drop len data') d'))
   else (Inr (), d))"
  by pat_completeness auto

termination
  by (relation "measure (\<lambda>(_, data, _). length data)") auto

declare apply_loop.simps [simp del]

definition am_apply_changes :: "('d, 'o, 's) automerge \<Rightarrow> uint32 \<Rightarrow> uint32 \<Rightarrow> ('d, 'o, 's) export" where
  "am_apply_changes C p n = (if p = 0 \<or> n = 0 then reply (- 1)
     else with_slice p (unat n) (\<lambda>b. mutate (apply_loop C b)))"

definition am_get_change_by_hash_len :: "('d, 'o, 's) automerge \<Rightarrow> uint32 \<Rightarrow> ('d, 'o, 's) export" where
  "am_get_change_by_hash_len C p = (if p = 0 then reply 0
     else with_slice p 32 (\<lambda>h. with_doc_mut (c_change_by_hash C h) (\<lambda>r. case r of
       Some raw \<Rightarrow> prepare raw | None \<Rightarrow> reply 0) 0))"

definition am_change_info_len :: "('d, 'o, 's) automerge \<Rightarrow> uint32 \<Rightarrow> uint32 \<Rightarrow> ('d, 'o, 's) export" where
  "am_change_info_len C p n = (if p = 0 \<or> n = 0 then reply 0
     else with_slice p (unat n) (\<lambda>raw. case c_parse_change C raw of
       None \<Rightarrow> reply 0 | Some c \<Rightarrow> prepare (encode_change_info c)))"

section \<open>Sync: \<open>sync.rs\<close>\<close>

definition add_peer :: "'s \<Rightarrow> ('d, 'o, 's) export" where
  "add_peer st = (\<lambda>g. (Some (g_next_peer g),
     g\<lparr>g_sync := (g_sync g)(g_next_peer g \<mapsto> st), g_next_peer := g_next_peer g + 1\<rparr>))"

definition am_sync_state_init :: "('d, 'o, 's) automerge \<Rightarrow> ('d, 'o, 's) export" where
  "am_sync_state_init C = add_peer (c_sync_new C)"

definition am_sync_state_free :: "uint32 \<Rightarrow> ('d, 'o, 's) export" where
  "am_sync_state_free peer = (\<lambda>g. case g_sync g peer of
     None \<Rightarrow> (Some (- 1), g)
   | Some _ \<Rightarrow> (Some 0, g\<lparr>g_sync := (g_sync g)(peer := None)\<rparr>))"

definition am_sync_gen_len :: "('d, 'o, 's) automerge \<Rightarrow> uint32 \<Rightarrow> ('d, 'o, 's) export" where
  "am_sync_gen_len C peer = (\<lambda>g. case g_sync g peer of
     None \<Rightarrow> (Some 0, g)
   | Some st \<Rightarrow> (case g_doc g of
       None \<Rightarrow> (Some 0, g)
     | Some d \<Rightarrow> (case c_sync_generate C st d of (m, st', d') \<Rightarrow>
         (case m of Some msg \<Rightarrow> prepare msg | None \<Rightarrow> reply 0)
           (g\<lparr>g_sync := (g_sync g)(peer \<mapsto> st'), g_doc := Some d'\<rparr>))))"

definition am_sync_gen :: "uint32 \<Rightarrow> ('d, 'o, 's) export" where
  "am_sync_gen p = (if p = 0 then reply (- 1) else (\<lambda>g.
     if g_return_buf g = [] then (Some 1, g) else copy_return_buf p (reply 0) g))"

definition am_sync_recv :: "('d, 'o, 's) automerge \<Rightarrow> uint32 \<Rightarrow> uint32 \<Rightarrow> uint32 \<Rightarrow> ('d, 'o, 's) export" where
  "am_sync_recv C peer p n = (if p = 0 \<or> n = 0 then reply (- 1)
     else with_slice p (unat n) (\<lambda>b.
       if \<not> c_sync_decodable C b then reply (- 5)
       else (\<lambda>g. case g_sync g peer of
         None \<Rightarrow> (Some (- 3), g)
       | Some st \<Rightarrow> (case g_doc g of
           None \<Rightarrow> (Some (- 2), g)
         | Some d \<Rightarrow> (case c_sync_receive C b st d of (r, st', d') \<Rightarrow>
             (case r of Inl _ \<Rightarrow> reply (- 5) | Inr _ \<Rightarrow> reply 0)
               (g\<lparr>g_sync := (g_sync g)(peer \<mapsto> st'), g_doc := Some d'\<rparr>))))))"

definition am_sync_state_save_len :: "('d, 'o, 's) automerge \<Rightarrow> uint32 \<Rightarrow> ('d, 'o, 's) export" where
  "am_sync_state_save_len C peer = (\<lambda>g. case g_sync g peer of
     None \<Rightarrow> (Some 0, g) | Some st \<Rightarrow> prepare (c_sync_encode C st) g)"

definition am_sync_state_load :: "('d, 'o, 's) automerge \<Rightarrow> uint32 \<Rightarrow> uint32 \<Rightarrow> ('d, 'o, 's) export" where
  "am_sync_state_load C p n = (if p = 0 \<or> n = 0 then reply 0
     else with_slice p (unat n) (\<lambda>b. case c_sync_decode C b of
       None \<Rightarrow> reply 0 | Some st \<Rightarrow> add_peer st))"

section \<open>The module\<close>

text \<open>
  The exports by name, each with its number of parameters. A WASM \<open>i32\<close> parameter is the low
  half of the \<open>uint64\<close> that the host passes. Exports that the Go code never calls are left out.
\<close>

definition exports ::
  "('d, 'o, 's) automerge \<Rightarrow> allocator \<Rightarrow> (string \<times> nat \<times> (uint64 list \<Rightarrow> ('d, 'o, 's) export)) list" where
  "exports C A =
    [(''am_alloc'', 1, \<lambda>ps. am_alloc A (u32 (ps ! 0))),
     (''am_create'', 0, \<lambda>ps. am_create C),
     (''am_load'', 2, \<lambda>ps. am_load C (u32 (ps ! 0)) (u32 (ps ! 1))),
     (''am_save_len'', 0, \<lambda>ps. am_save_len C),
     (''am_save'', 1, \<lambda>ps. am_save (u32 (ps ! 0))),
     (''am_merge'', 2, \<lambda>ps. am_merge C (u32 (ps ! 0)) (u32 (ps ! 1))),
     (''am_fork'', 2, \<lambda>ps. am_fork C (u32 (ps ! 0)) (u32 (ps ! 1))),
     (''am_fork_len'', 0, \<lambda>ps. return_buf_len),
     (''am_fork_get'', 1, \<lambda>ps. copy_out (u32 (ps ! 0))),
     (''am_get_actor_len'', 0, \<lambda>ps. am_get_actor_len C),
     (''am_get_actor'', 1, \<lambda>ps. am_get_actor (u32 (ps ! 0))),
     (''am_set_actor'', 2, \<lambda>ps. am_set_actor C (u32 (ps ! 0)) (u32 (ps ! 1))),
     (''am_map_put'', 6, \<lambda>ps. am_map_put C (u32 (ps ! 0)) (u32 (ps ! 1)) (u32 (ps ! 2)) (ucast (ps ! 3))
        (u32 (ps ! 4)) (u32 (ps ! 5))),
     (''am_map_get_len'', 3, \<lambda>ps. am_map_get_len C (u32 (ps ! 0)) (u32 (ps ! 1)) (u32 (ps ! 2))),
     (''am_map_get'', 4, \<lambda>ps. copy_out (u32 (ps ! 3))),
     (''am_map_delete'', 3, \<lambda>ps. am_map_delete C (u32 (ps ! 0)) (u32 (ps ! 1)) (u32 (ps ! 2))),
     (''am_map_increment'', 4, \<lambda>ps. am_map_increment C (u32 (ps ! 0)) (u32 (ps ! 1)) (u32 (ps ! 2)) (ps ! 3)),
     (''am_list_put'', 6, \<lambda>ps. am_list_put C (u32 (ps ! 0)) (u32 (ps ! 1)) (ucast (ps ! 2)) (ucast (ps ! 3))
        (u32 (ps ! 4)) (u32 (ps ! 5))),
     (''am_list_get_len'', 2, \<lambda>ps. am_list_get_len C (u32 (ps ! 0)) (u32 (ps ! 1))),
     (''am_list_get'', 3, \<lambda>ps. copy_out (u32 (ps ! 2))),
     (''am_list_delete'', 2, \<lambda>ps. am_list_delete C (u32 (ps ! 0)) (u32 (ps ! 1))),
     (''am_list_len'', 1, \<lambda>ps. am_list_len C (u32 (ps ! 0))),
     (''am_list_increment'', 3, \<lambda>ps. am_list_increment C (u32 (ps ! 0)) (u32 (ps ! 1)) (ps ! 2)),
     (''am_text_splice'', 5, \<lambda>ps. am_text_splice C (u32 (ps ! 0)) (u32 (ps ! 1)) (u32 (ps ! 2)) (u32 (ps ! 3))
        (u32 (ps ! 4))),
     (''am_text_get_len'', 1, \<lambda>ps. am_text_get_len C (u32 (ps ! 0))),
     (''am_text_get'', 2, \<lambda>ps. copy_out (u32 (ps ! 1))),
     (''am_mark'', 8, \<lambda>ps. am_mark C (u32 (ps ! 0)) (u32 (ps ! 1)) (u32 (ps ! 2)) (u32 (ps ! 3)) (u32 (ps ! 4))
        (u32 (ps ! 5)) (u32 (ps ! 6)) (ucast (ps ! 7))),
     (''am_unmark'', 6, \<lambda>ps. am_unmark C (u32 (ps ! 0)) (u32 (ps ! 1)) (u32 (ps ! 2)) (u32 (ps ! 3)) (u32 (ps ! 4))
        (ucast (ps ! 5))),
     (''am_marks_len'', 1, \<lambda>ps. am_marks_len C (u32 (ps ! 0))),
     (''am_marks'', 2, \<lambda>ps. copy_out (u32 (ps ! 1))),
     (''am_spans_len'', 1, \<lambda>ps. am_spans_len C (u32 (ps ! 0))),
     (''am_spans'', 2, \<lambda>ps. copy_out (u32 (ps ! 1))),
     (''am_split_block'', 2, \<lambda>ps. am_split_block C (u32 (ps ! 0)) (u32 (ps ! 1))),
     (''am_join_block'', 2, \<lambda>ps. am_join_block C (u32 (ps ! 0)) (u32 (ps ! 1))),
     (''am_replace_block'', 2, \<lambda>ps. am_replace_block C (u32 (ps ! 0)) (u32 (ps ! 1))),
     (''am_get_cursor'', 2, \<lambda>ps. am_get_cursor C (u32 (ps ! 0)) (u32 (ps ! 1))),
     (''am_get_cursor_str'', 1, \<lambda>ps. copy_out (u32 (ps ! 0))),
     (''am_lookup_cursor'', 3, \<lambda>ps. am_lookup_cursor C (u32 (ps ! 0)) (u32 (ps ! 1)) (u32 (ps ! 2))),
     (''am_obj_type'', 1, \<lambda>ps. am_obj_type C (u32 (ps ! 0))),
     (''am_obj_size'', 1, \<lambda>ps. am_obj_size C (u32 (ps ! 0))),
     (''am_obj_keys_len'', 1, \<lambda>ps. am_obj_keys_len C (u32 (ps ! 0))),
     (''am_obj_keys'', 2, \<lambda>ps. copy_out (u32 (ps ! 1))),
     (''am_obj_items_len'', 1, \<lambda>ps. am_obj_items_len C (u32 (ps ! 0))),
     (''am_obj_items'', 2, \<lambda>ps. copy_out (u32 (ps ! 1))),
     (''am_obj_free'', 1, \<lambda>ps. am_obj_free (u32 (ps ! 0))),
     (''am_commit'', 3, \<lambda>ps. am_commit C (u32 (ps ! 0)) (u32 (ps ! 1)) (ps ! 2)),
     (''am_commit_hash_len'', 0, \<lambda>ps. return_buf_len),
     (''am_commit_hash'', 1, \<lambda>ps. copy_out (u32 (ps ! 0))),
     (''am_empty_change'', 3, \<lambda>ps. am_empty_change C (u32 (ps ! 0)) (u32 (ps ! 1)) (ps ! 2)),
     (''am_save_incremental_len'', 0, \<lambda>ps. am_save_incremental_len C),
     (''am_save_incremental'', 1, \<lambda>ps. copy_out (u32 (ps ! 0))),
     (''am_load_incremental'', 2, \<lambda>ps. am_load_incremental C (u32 (ps ! 0)) (u32 (ps ! 1))),
     (''am_get_heads_len'', 0, \<lambda>ps. am_get_heads_len C),
     (''am_get_heads'', 1, \<lambda>ps. copy_out (u32 (ps ! 0))),
     (''am_get_changes_len'', 2, \<lambda>ps. am_get_changes_len C (u32 (ps ! 0)) (u32 (ps ! 1))),
     (''am_get_changes'', 3, \<lambda>ps. copy_out (u32 (ps ! 2))),
     (''am_apply_changes'', 2, \<lambda>ps. am_apply_changes C (u32 (ps ! 0)) (u32 (ps ! 1))),
     (''am_get_change_by_hash_len'', 1, \<lambda>ps. am_get_change_by_hash_len C (u32 (ps ! 0))),
     (''am_get_change_by_hash'', 2, \<lambda>ps. copy_out (u32 (ps ! 1))),
     (''am_change_info_len'', 2, \<lambda>ps. am_change_info_len C (u32 (ps ! 0)) (u32 (ps ! 1))),
     (''am_change_info'', 3, \<lambda>ps. copy_out (u32 (ps ! 2))),
     (''am_sync_state_init'', 0, \<lambda>ps. am_sync_state_init C),
     (''am_sync_state_free'', 1, \<lambda>ps. am_sync_state_free (u32 (ps ! 0))),
     (''am_sync_gen_len'', 1, \<lambda>ps. am_sync_gen_len C (u32 (ps ! 0))),
     (''am_sync_gen'', 2, \<lambda>ps. am_sync_gen (u32 (ps ! 1))),
     (''am_sync_recv'', 3, \<lambda>ps. am_sync_recv C (u32 (ps ! 0)) (u32 (ps ! 1)) (u32 (ps ! 2))),
     (''am_sync_state_save_len'', 1, \<lambda>ps. am_sync_state_save_len C (u32 (ps ! 0))),
     (''am_sync_state_save'', 2, \<lambda>ps. copy_out (u32 (ps ! 1))),
     (''am_sync_state_load'', 2, \<lambda>ps. am_sync_state_load C (u32 (ps ! 0)) (u32 (ps ! 1))),
     (''am_last_error_len'', 0, \<lambda>ps. am_last_error_len),
     (''am_last_error'', 1, \<lambda>ps. am_last_error (u32 (ps ! 0)))]"

definition closed_error :: go_error where
  "closed_error = WasmErr ''module closed with exit_code(0)''"

definition arity_error :: "nat \<Rightarrow> nat \<Rightarrow> go_error" where
  "arity_error want got = Errorf ''expected %d params, but passed %d'' [AInt (int want), AInt (int got)]"

definition trap_error :: go_error where
  "trap_error = WasmErr ''wasm error: unreachable''"

definition guest_call ::
  "('d, 'o, 's) automerge \<Rightarrow> allocator \<Rightarrow> string \<Rightarrow> uint64 list \<Rightarrow> ('d, 'o, 's) guest \<Rightarrow>
   (go_error + uint64 list) \<times> ('d, 'o, 's) guest" where
  "guest_call C A name ps g =
     (if name = ''am_free'' then
        (if length ps = 2 then (Inr [], am_free (u32 (ps ! 0)) (u32 (ps ! 1)) g)
         else (Inl (arity_error 2 (length ps)), g))
      else (case map_of (exports C A) name of
        None \<Rightarrow> (Inl (export_not_found name), g)
      | Some (n, f) \<Rightarrow>
          (if length ps \<noteq> n then (Inl (arity_error n (length ps)), g)
           else (case f ps g of
                   (None, g') \<Rightarrow> (Inl trap_error, g')
                 | (Some r, g') \<Rightarrow> (Inr [u64 r], g')))))"

text \<open>An instance of the module is the guest together with whether wazero has closed it.\<close>

type_synonym ('d, 'o, 's) instance_state = "('d, 'o, 's) guest \<times> bool"

definition guest_module ::
  "('d, 'o, 's) automerge \<Rightarrow> allocator \<Rightarrow> ('d, 'o, 's) instance_state api_module" where
  "guest_module C A = \<lparr>
     ExportedFunction = (\<lambda>name. name = ''am_free'' \<or> name \<in> set (map fst (exports C A))),
     fn_Call = (\<lambda>name ps (g, closed). if closed then (Inl closed_error, (g, closed))
        else (case guest_call C A name ps g of (r, g') \<Rightarrow> (r, (g', closed)))),
     Memory_Write = (\<lambda>p d (g, closed). if unat p + length d \<le> g_size g then Some (poke p d g, closed) else None),
     Memory_Read = (\<lambda>p n (g, closed). if unat p + unat n \<le> g_size g
        then Some (read_mem (unat p) (unat n) (g_mem g)) else None),
     mod_Close = (\<lambda>(g, closed). (None, (g, True)))\<rparr>"

text \<open>A module that has just been instantiated.\<close>

definition fresh_guest :: "nat \<Rightarrow> ('d, 'o, 's) guest" where
  "fresh_guest sz = \<lparr>g_mem = (\<lambda>_. 0), g_size = sz, g_blocks = [], g_ub = False,
     g_doc = None, g_table = [None], g_return_buf = [], g_last_error = [], g_sync = (\<lambda>_. None),
     g_next_peer = 1\<rparr>"

end
