(* ===== verification/GuestInterface.thy ===== *)
theory GuestInterface
  imports Wazero
begin

text \<open>
  The contract between the Go backend and the WASM guest, as far as memory is concerned. Go
  allocates and frees blocks of guest memory through \<open>am_alloc\<close> and \<open>am_free\<close>, passes
  pointers into them, and lets the guest copy prepared data into them.

  \<open>guest_memory\<close> states what the guest promises: which blocks are live after each call, and
  that a call leaves the memory sound provided that every slice it is told to read lies in a
  live block and that the block it is told to fill is at least as long as the data it has
  prepared. Inside the locale every method of the backend is shown to meet these provisos and
  to leave the live blocks as they were, on success, on errors and on panics.
\<close>

section \<open>What the exports read and fill\<close>

definition slice_at :: "nat \<Rightarrow> nat \<Rightarrow> uint64 list \<Rightarrow> uint32 \<times> nat" where
  "slice_at i j ps = (u32 (ps ! i), unat (u32 (ps ! j)))"

definition hashes_at :: "nat \<Rightarrow> nat \<Rightarrow> uint64 list \<Rightarrow> uint32 \<times> nat" where
  "hashes_at i j ps = (u32 (ps ! i), unat (u32 (ps ! j)) * 32)"

definition read_table :: "(string \<times> (uint64 list \<Rightarrow> (uint32 \<times> nat) list)) list" where
  "read_table =
    [(''am_load'', \<lambda>ps. [slice_at 0 1 ps]),
     (''am_merge'', \<lambda>ps. [slice_at 0 1 ps]),
     (''am_fork'', \<lambda>ps. [hashes_at 0 1 ps]),
     (''am_set_actor'', \<lambda>ps. [slice_at 0 1 ps]),
     (''am_map_put'', \<lambda>ps. [slice_at 1 2 ps, slice_at 4 5 ps]),
     (''am_map_get_len'', \<lambda>ps. [slice_at 1 2 ps]),
     (''am_map_delete'', \<lambda>ps. [slice_at 1 2 ps]),
     (''am_map_increment'', \<lambda>ps. [slice_at 1 2 ps]),
     (''am_list_put'', \<lambda>ps. [slice_at 4 5 ps]),
     (''am_text_splice'', \<lambda>ps. [slice_at 3 4 ps]),
     (''am_mark'', \<lambda>ps. [slice_at 1 2 ps, slice_at 3 4 ps]),
     (''am_unmark'', \<lambda>ps. [slice_at 1 2 ps]),
     (''am_lookup_cursor'', \<lambda>ps. [slice_at 1 2 ps]),
     (''am_commit'', \<lambda>ps. [slice_at 0 1 ps]),
     (''am_empty_change'', \<lambda>ps. [slice_at 0 1 ps]),
     (''am_load_incremental'', \<lambda>ps. [slice_at 0 1 ps]),
     (''am_get_changes_len'', \<lambda>ps. [hashes_at 0 1 ps]),
     (''am_apply_changes'', \<lambda>ps. [slice_at 0 1 ps]),
     (''am_get_change_by_hash_len'', \<lambda>ps. [(u32 (ps ! 0), 32)]),
     (''am_change_info_len'', \<lambda>ps. [slice_at 0 1 ps]),
     (''am_sync_recv'', \<lambda>ps. [slice_at 1 2 ps]),
     (''am_sync_state_load'', \<lambda>ps. [slice_at 0 1 ps])]"

definition read_slices :: "string \<Rightarrow> uint64 list \<Rightarrow> (uint32 \<times> nat) list" where
  "read_slices name ps = (case map_of read_table name of None \<Rightarrow> [] | Some f \<Rightarrow> f ps)"

text \<open>The calls that prepare data, each with the call that copies the data out.\<close>

definition two_phase :: "(string \<times> string) list" where
  "two_phase =
    [(''am_save_len'', ''am_save''), (''am_fork_len'', ''am_fork_get''),
     (''am_get_actor_len'', ''am_get_actor''), (''am_map_get_len'', ''am_map_get''),
     (''am_list_get_len'', ''am_list_get''), (''am_text_get_len'', ''am_text_get''),
     (''am_marks_len'', ''am_marks''), (''am_spans_len'', ''am_spans''),
     (''am_get_cursor'', ''am_get_cursor_str''), (''am_obj_keys_len'', ''am_obj_keys''),
     (''am_obj_items_len'', ''am_obj_items''), (''am_commit_hash_len'', ''am_commit_hash''),
     (''am_save_incremental_len'', ''am_save_incremental''), (''am_get_heads_len'', ''am_get_heads''),
     (''am_get_changes_len'', ''am_get_changes''),
     (''am_get_change_by_hash_len'', ''am_get_change_by_hash''),
     (''am_change_info_len'', ''am_change_info''), (''am_sync_gen_len'', ''am_sync_gen''),
     (''am_sync_state_save_len'', ''am_sync_state_save''), (''am_last_error_len'', ''am_last_error'')]"

definition getters :: "string list" where
  "getters = map snd two_phase"

lemma getters_read_nothing:
  assumes "name \<in> set getters"
  shows "name \<noteq> ''am_alloc''" and "name \<noteq> ''am_free''" and "read_slices name ps = []"
proof -
  have "list_all (\<lambda>g. g \<noteq> ''am_alloc'' \<and> g \<noteq> ''am_free'' \<and> g \<notin> set (map fst read_table)) getters"
    by code_simp
  then have g: "name \<noteq> ''am_alloc''" "name \<noteq> ''am_free''" "name \<notin> set (map fst read_table)"
    using assms by (auto simp: list_all_iff)
  then show "name \<noteq> ''am_alloc''" "name \<noteq> ''am_free''" "read_slices name ps = []"
    by (simp_all add: read_slices_def map_of_eq_None_iff [THEN iffD2])
qed

definition in_block :: "block multiset \<Rightarrow> uint32 \<Rightarrow> nat \<Rightarrow> bool" where
  "in_block L p k \<longleftrightarrow> p = 0 \<or> (\<exists>n. (p, n) \<in># L \<and> k \<le> unat n)"

definition allocated :: "uint32 \<Rightarrow> go_error + uint64 list \<Rightarrow> block multiset \<Rightarrow> block multiset" where
  "allocated n res L = (case res of
     Inr (r # _) \<Rightarrow> if u32 r = 0 then L else add_mset (u32 r, n) L
   | _ \<Rightarrow> L)"

section \<open>Sequences of method calls\<close>

text \<open>
  A client calls the methods in any order and goes on after an error. The result of a call
  matters to the client only, so a run is the sequence of the effects.
\<close>

definition discard :: "('w, 'a) comp \<Rightarrow> ('w, unit) comp" where
  "discard m = andThen m (\<lambda>_. ret ())"

text \<open>
  The methods of the interface \<open>Backend\<close> with their parameters. \<open>Close\<close> and \<open>Fork\<close>, which end and
  start instances, are in \<open>Wazero\<close> and \<open>Runtime\<close>.
\<close>

datatype (plugins only: code) backend_op =
    OpSave
  | OpGetActorID
  | OpSetActorID string
  | OpMapGet ObjHandle string
  | OpMapPut ObjHandle string byte bytes
  | OpMapDelete ObjHandle string
  | OpMapIncrement ObjHandle string int64
  | OpListGet ObjHandle uint64
  | OpListPut ObjHandle uint64 bool byte bytes
  | OpListDelete ObjHandle uint64
  | OpListLen ObjHandle
  | OpListIncrement ObjHandle uint64 int64
  | OpTextGet ObjHandle
  | OpTextSplice ObjHandle uint64 int64 string
  | OpMark ObjHandle string string uint64 uint64 byte
  | OpUnmark ObjHandle string uint64 uint64 byte
  | OpMarks ObjHandle
  | OpSpans ObjHandle
  | OpSplitBlock ObjHandle uint64
  | OpJoinBlock ObjHandle uint64
  | OpReplaceBlock ObjHandle uint64
  | OpGetCursor ObjHandle uint64
  | OpLookupCursor ObjHandle string
  | OpObjSize ObjHandle
  | OpObjType ObjHandle
  | OpObjKeys ObjHandle
  | OpObjItems ObjHandle
  | OpObjFree ObjHandle
  | OpCommit string int64
  | OpEmptyChange string int64
  | OpHeads
  | OpGetChanges "ChangeHash list"
  | OpGetChangeByHash ChangeHash
  | OpApplyChanges "bytes list"
  | OpGetChangeInfo bytes
  | OpSaveIncremental
  | OpLoadIncremental bytes
  | OpMerge bytes
  | OpSyncInit
  | OpSyncFree uint32
  | OpSyncGenerateMessage uint32
  | OpSyncReceiveMessage uint32 bytes
  | OpSyncSave uint32
  | OpSyncLoad bytes

fun run_op :: "'w api_module \<Rightarrow> backend_op \<Rightarrow> ('w, unit) comp" where
  "run_op M OpSave = discard (Save M)"
| "run_op M OpGetActorID = discard (GetActorID M)"
| "run_op M (OpSetActorID a) = discard (SetActorID M a)"
| "run_op M (OpMapGet a b) = discard (MapGet M a b)"
| "run_op M (OpMapPut a b c d) = discard (MapPut M a b c d)"
| "run_op M (OpMapDelete a b) = discard (MapDelete M a b)"
| "run_op M (OpMapIncrement a b c) = discard (MapIncrement M a b c)"
| "run_op M (OpListGet a b) = discard (ListGet M a b)"
| "run_op M (OpListPut a b c d e) = discard (ListPut M a b c d e)"
| "run_op M (OpListDelete a b) = discard (ListDelete M a b)"
| "run_op M (OpListLen a) = discard (ListLen M a)"
| "run_op M (OpListIncrement a b c) = discard (ListIncrement M a b c)"
| "run_op M (OpTextGet a) = discard (TextGet M a)"
| "run_op M (OpTextSplice a b c d) = discard (TextSplice M a b c d)"
| "run_op M (OpMark a b c d e f) = discard (Mark M a b c d e f)"
| "run_op M (OpUnmark a b c d e) = discard (Unmark M a b c d e)"
| "run_op M (OpMarks a) = discard (Marks M a)"
| "run_op M (OpSpans a) = discard (Spans M a)"
| "run_op M (OpSplitBlock a b) = discard (SplitBlock M a b)"
| "run_op M (OpJoinBlock a b) = discard (JoinBlock M a b)"
| "run_op M (OpReplaceBlock a b) = discard (ReplaceBlock M a b)"
| "run_op M (OpGetCursor a b) = discard (GetCursor M a b)"
| "run_op M (OpLookupCursor a b) = discard (LookupCursor M a b)"
| "run_op M (OpObjSize a) = discard (ObjSize M a)"
| "run_op M (OpObjType a) = discard (ObjType M a)"
| "run_op M (OpObjKeys a) = discard (ObjKeys M a)"
| "run_op M (OpObjItems a) = discard (ObjItems M a)"
| "run_op M (OpObjFree a) = discard (ObjFree M a)"
| "run_op M (OpCommit a b) = discard (Commit M a b)"
| "run_op M (OpEmptyChange a b) = discard (EmptyChange M a b)"
| "run_op M OpHeads = discard (Heads M)"
| "run_op M (OpGetChanges a) = discard (GetChanges M a)"
| "run_op M (OpGetChangeByHash a) = discard (GetChangeByHash M a)"
| "run_op M (OpApplyChanges a) = discard (ApplyChanges M a)"
| "run_op M (OpGetChangeInfo a) = discard (GetChangeInfo M a)"
| "run_op M OpSaveIncremental = discard (SaveIncremental M)"
| "run_op M (OpLoadIncremental a) = discard (LoadIncremental M a)"
| "run_op M (OpMerge a) = discard (Merge M a)"
| "run_op M OpSyncInit = discard (SyncInit M)"
| "run_op M (OpSyncFree a) = discard (SyncFree M a)"
| "run_op M (OpSyncGenerateMessage a) = discard (SyncGenerateMessage M a)"
| "run_op M (OpSyncReceiveMessage a b) = discard (SyncReceiveMessage M a b)"
| "run_op M (OpSyncSave a) = discard (SyncSave M a)"
| "run_op M (OpSyncLoad a) = discard (SyncLoad M a)"

fun run_ops :: "'w api_module \<Rightarrow> backend_op list \<Rightarrow> 'w \<Rightarrow> 'w" where
  "run_ops M [] w = w"
| "run_ops M (op # ops) w = run_ops M ops (snd (run_op M op w))"

text \<open>A \<open>ChangeHash\<close> is an array of 32 bytes in Go.\<close>

fun wf_op :: "backend_op \<Rightarrow> bool" where
  "wf_op (OpGetChanges since) = list_all wf_hash since"
| "wf_op (OpGetChangeByHash h) = wf_hash h"
| "wf_op _ = True"

section \<open>The contract\<close>

locale guest_memory =
  fixes M :: "'w api_module"
    and live :: "'w \<Rightarrow> block multiset"
    and sound :: "'w \<Rightarrow> bool"
    and out_len :: "string \<Rightarrow> 'w \<Rightarrow> nat"
  assumes free_exported: "ExportedFunction M ''am_free''"
    and alloc_call: "sound w \<Longrightarrow> fn_Call M ''am_alloc'' [u64 n] w = (res, w') \<Longrightarrow>
      sound w' \<and> live w' = allocated n res (live w) \<and> (\<forall>g. out_len g w' = out_len g w)"
    and alloc_size: "fn_Call M ''am_alloc'' [u64 n] w = (Inr (r # rs), w') \<Longrightarrow> u32 r \<noteq> 0 \<Longrightarrow> n \<noteq> 0"
    and free_call: "sound w \<Longrightarrow> (p, n) \<in># live w \<Longrightarrow> fn_Call M ''am_free'' [u64 p, u64 n] w = (res, w') \<Longrightarrow>
      sound w' \<and> live w' = live w - {#(p, n)#}"
    and write_block: "sound w \<Longrightarrow> (p, word_of_nat (length d)) \<in># live w \<Longrightarrow> Memory_Write M p d w = Some w' \<Longrightarrow>
      sound w' \<and> live w' = live w \<and> unat (word_of_nat (length d) :: uint32) = length d"
    and other_call: "name \<noteq> ''am_alloc'' \<Longrightarrow> name \<noteq> ''am_free'' \<Longrightarrow> sound w \<Longrightarrow>
      list_all (\<lambda>(p, k). in_block (live w) p k) (read_slices name ps) \<Longrightarrow>
      (name \<in> set getters \<Longrightarrow> in_block (live w) (u32 (last ps)) (out_len name w)) \<Longrightarrow>
      fn_Call M name ps w = (res, w') \<Longrightarrow> sound w' \<and> live w' = live w"
    and len_call: "(len, g) \<in> set two_phase \<Longrightarrow> sound w \<Longrightarrow> fn_Call M len ps w = (Inr (r # rs), w') \<Longrightarrow>
      u32 r \<noteq> 0 \<Longrightarrow> (len = ''am_get_cursor'' \<Longrightarrow> 0 \<le> i32 r) \<Longrightarrow> out_len g w' = unat (u32 r)"
begin

text \<open>
  \<open>safe b F m\<close>: whenever the blocks \<open>F\<close> are live, and \<open>b\<close> is right about the data that a
  getter would copy, \<open>m\<close> leaves the memory sound and the live blocks as they were.
\<close>

definition pending :: "(string \<times> nat) option \<Rightarrow> 'w \<Rightarrow> bool" where
  "pending b w = (case b of None \<Rightarrow> True | Some (g, k) \<Rightarrow> out_len g w = k)"

definition safe :: "(string \<times> nat) option \<Rightarrow> block multiset \<Rightarrow> ('w, 'a) comp \<Rightarrow> bool" where
  "safe b F m \<longleftrightarrow> (\<forall>w. sound w \<longrightarrow> F \<subseteq># live w \<longrightarrow> pending b w \<longrightarrow>
     sound (snd (m w)) \<and> live (snd (m w)) = live w)"

lemma pending_None [simp]: "pending None w"
  and pending_Some [simp]: "pending (Some (g, k)) w \<longleftrightarrow> out_len g w = k"
  by (simp_all add: pending_def)

lemma safeI:
  "(\<And>w. sound w \<Longrightarrow> F \<subseteq># live w \<Longrightarrow> pending b w \<Longrightarrow> sound (snd (m w)) \<and> live (snd (m w)) = live w) \<Longrightarrow>
   safe b F m"
  by (auto simp: safe_def)

lemma safeD:
  assumes "safe b F m" and "sound w" and "F \<subseteq># live w" and "pending b w"
  shows "sound (snd (m w))" and "live (snd (m w)) = live w"
  using assms by (auto simp: safe_def)

lemma safe_ret [heap_intros]: "safe b F (ret x)"
  and safe_fail [heap_intros]: "safe b F (fail e)"
  and safe_panic [heap_intros]: "safe b F (panic e)"
  and safe_lift [heap_intros]: "safe b F (lift r)"
  by (simp_all add: safe_def ret_def fail_def panic_def lift_def)

lemma safe_andThen [heap_intros]:
  assumes "safe b F m" and "\<And>x. safe None F (f x)"
  shows "safe b F (andThen m f)"
proof (rule safeI)
  fix w assume w: "sound w" "F \<subseteq># live w" "pending b w"
  note m = safeD [OF assms(1) w]
  show "sound (snd (andThen m f w)) \<and> live (snd (andThen m f w)) = live w"
  proof (cases "m w")
    case (Pair r w')
    then have w': "sound w'" "live w' = live w" using m by simp_all
    then have "F \<subseteq># live w'" using w(2) by simp
    from safeD [OF assms(2) w'(1) this pending_None] show ?thesis
      using Pair w' by (cases r) (simp_all add: andThen_def)
  qed
qed

lemma safe_readBytes [heap_intros]: "safe b F (readBytes M p n)"
  by (auto simp: safe_def readBytes_def split: option.splits)

lemma safe_swallowed [heap_intros]: "safe b F m \<Longrightarrow> safe b F (swallowed d m)"
  by (auto simp: safe_def swallowed_def split: prod.splits)

lemma safe_if [heap_intros]: "(c \<Longrightarrow> safe b F x) \<Longrightarrow> (\<not> c \<Longrightarrow> safe b F y) \<Longrightarrow> safe b F (if c then x else y)"
  by simp

lemma safe_case_prod [heap_intros]: "(\<And>x y. safe b F (f x y)) \<Longrightarrow> safe b F (case_prod f p)"
  by (cases p) simp

section \<open>Calls\<close>

lemma in_block_mono: "in_block F p k \<Longrightarrow> F \<subseteq># L \<Longrightarrow> in_block L p k"
  by (auto simp: in_block_def dest: mset_subset_eqD)

lemma safe_call:
  assumes "name \<noteq> ''am_alloc''" and "name \<noteq> ''am_free''" and "name \<notin> set getters"
    and "list_all (\<lambda>(p, k). in_block F p k) (read_slices name ps)"
  shows "safe b F (call M name ps)"
proof (rule safeI)
  fix w assume w: "sound w" "F \<subseteq># live w"
  have slices: "list_all (\<lambda>(p, k). in_block (live w) p k) (read_slices name ps)"
    using assms(4) w(2) by (auto simp: list_all_iff intro: in_block_mono)
  obtain res w' where c: "fn_Call M name ps w = (res, w')" by (cases "fn_Call M name ps w")
  have "sound w' \<and> live w' = live w"
    using other_call [OF assms(1,2) w(1) slices _ c] assms(3) by simp
  then show "sound (snd (call M name ps w)) \<and> live (snd (call M name ps w)) = live w"
    using c w by (auto simp: call_def split: sum.splits)
qed

lemma safe_get:
  assumes "name \<in> set getters" and "(p, n) \<in># F" and "k \<le> unat n" and "u32 (last ps) = p"
  shows "safe (Some (name, k)) F (call M name ps)"
proof (rule safeI)
  fix w assume w: "sound w" "F \<subseteq># live w" "pending (Some (name, k)) w"
  note ne = getters_read_nothing [OF assms(1)]
  have out: "in_block (live w) (u32 (last ps)) (out_len name w)"
    using assms(2-4) w(2,3) by (auto simp: in_block_def dest: mset_subset_eqD)
  obtain res w' where c: "fn_Call M name ps w = (res, w')" by (cases "fn_Call M name ps w")
  have "sound w' \<and> live w' = live w"
    using other_call [OF ne(1,2) w(1) _ out c] by (simp add: ne(3))
  then show "sound (snd (call M name ps w)) \<and> live (snd (call M name ps w)) = live w"
    using c w by (auto simp: call_def split: sum.splits)
qed

lemma safe_call0 [heap_intros]: "safe b F (call M name ps) \<Longrightarrow> safe b F (call0 M name ps)"
  by (auto simp: call0_def intro: heap_intros)

text \<open>After a call that prepares data, its result is the length of the data.\<close>

lemma safe_len:
  assumes "safe None F (call M len ps)" and "(len, g) \<in> set two_phase"
    and "\<And>r. u32 r = 0 \<or> (len = ''am_get_cursor'' \<and> i32 r < 0) \<Longrightarrow> safe None F (f r)"
    and "\<And>r. u32 r \<noteq> 0 \<Longrightarrow> (len = ''am_get_cursor'' \<longrightarrow> 0 \<le> i32 r) \<Longrightarrow> safe (Some (g, unat (u32 r))) F (f r)"
  shows "safe b F (andThen (call0 M len ps) f)"
proof (rule safeI)
  fix w assume w: "sound w" "F \<subseteq># live w"
  note c = safeD [OF assms(1) w pending_None]
  show "sound (snd (andThen (call0 M len ps) f w)) \<and> live (snd (andThen (call0 M len ps) f w)) = live w"
  proof (cases "\<exists>r rs w'. ExportedFunction M len \<and> fn_Call M len ps w = (Inr (r # rs), w')")
    case True
    then obtain r rs w' where ex: "ExportedFunction M len" "fn_Call M len ps w = (Inr (r # rs), w')" by auto
    then have eq: "andThen (call0 M len ps) f w = f r w'"
      by (simp add: andThen_def call0_def call_def lift_def)
    have w': "sound w'" "live w' = live w" "F \<subseteq># live w'"
      using c ex w(2) by (simp_all add: call_def)
    show ?thesis
    proof (cases "u32 r = 0 \<or> (len = ''am_get_cursor'' \<and> i32 r < 0)")
      case True
      from safeD [OF assms(3) [OF True] w'(1,3)] show ?thesis by (simp add: eq w')
    next
      case False
      then have "out_len g w' = unat (u32 r)" using len_call [OF assms(2) w(1) ex(2)] by auto
      then show ?thesis using safeD [OF assms(4) w'(1,3)] False by (auto simp: eq w')
    qed
  next
    case False
    have "snd (andThen (call0 M len ps) f w) = snd (call M len ps w)"
    proof (cases "call M len ps w")
      case (Pair x w')
      then show ?thesis
      proof (cases x)
        case (Ok rs)
        then have "ExportedFunction M len" and "fn_Call M len ps w = (Inr rs, w')"
          using Pair by (auto simp: call_def split: if_splits prod.splits sum.splits)
        then have "rs = []" using False by (cases rs) auto
        then show ?thesis using Pair Ok by (simp add: andThen_def call0_def lift_def)
      qed (simp_all add: andThen_def call0_def)
    qed
    then show ?thesis using c by simp
  qed
qed

section \<open>Blocks\<close>

lemma safe_free:
  assumes "sound w" and "live w = add_mset (p, n) L" and "n \<noteq> 0" and "p \<noteq> 0"
  shows "sound (free M p n w)" and "live (free M p n w) = L"
proof -
  obtain res w' where c: "fn_Call M ''am_free'' [u64 p, u64 n] w = (res, w')"
    by (cases "fn_Call M ''am_free'' [u64 p, u64 n] w")
  have "free M p n w = w'"
    using assms(3,4) free_exported c by (simp add: free_def call_def split: sum.splits)
  then show "sound (free M p n w)" and "live (free M p n w) = L"
    using free_call [OF assms(1) _ c] assms(2) by simp_all
qed

lemma safe_deferred_free:
  assumes "safe b (add_mset (p, n) F) m" and "sound w" and "live w = add_mset (p, n) L"
    and "F \<subseteq># L" and "pending b w" and "n \<noteq> 0" and "p \<noteq> 0"
  shows "sound (snd (deferred (free M p n) m w))" and "live (snd (deferred (free M p n) m w)) = L"
proof -
  obtain r w' where m: "m w = (r, w')" by (cases "m w")
  have "sound w'" and "live w' = live w"
    using safeD [OF assms(1,2) _ assms(5)] assms(3,4) m by auto
  then show "sound (snd (deferred (free M p n) m w))" and "live (snd (deferred (free M p n) m w)) = L"
    using safe_free assms(3,6,7) m by (auto simp: deferred_def)
qed

text \<open>What a successful or failed allocation leaves behind.\<close>

lemma alloc_cases:
  assumes "sound w"
  obtains (null) w' where "alloc M n w = (Ok 0, w')" "n = 0" "sound w'" "live w' = live w"
      "\<And>g. out_len g w' = out_len g w"
    | (block) p w' where "alloc M n w = (Ok p, w')" "p \<noteq> 0" "n \<noteq> 0" "sound w'"
      "live w' = add_mset (p, n) (live w)" "\<And>g. out_len g w' = out_len g w"
    | (failed) r w' where "alloc M n w = (r, w')" "\<not> is_ok r" "sound w'" "live w' = live w"
proof -
  obtain res w' where c: "fn_Call M ''am_alloc'' [u64 n] w = (res, w')"
    by (cases "fn_Call M ''am_alloc'' [u64 n] w")
  note a = alloc_call [OF assms c]
  show thesis
  proof (cases "ExportedFunction M ''am_alloc'' \<and> (\<exists>r rs. res = Inr (r # rs))")
    case True
    then obtain r rs where r: "res = Inr (r # rs)" by auto
    have eq: "alloc M n w = (if u32 r = 0 \<and> 0 < n then (Error (alloc_null n), w') else (Ok (u32 r), w'))"
      using True c r by (simp add: alloc_def andThen_def call0_def call_def lift_def Let_def fail_def ret_def)
    show thesis
    proof (cases "u32 r = 0")
      case True
      then show thesis
        using null failed a eq r by (cases "n = 0") (auto simp: allocated_def word_neq_0_conv)
    next
      case False
      then show thesis
        using block a eq r alloc_size [of n w r rs w'] c by (auto simp: allocated_def)
    qed
  next
    case False
    then consider "\<not> ExportedFunction M ''am_alloc''"
      | e where "ExportedFunction M ''am_alloc''" "res = Inl e"
      | "ExportedFunction M ''am_alloc''" "res = Inr []"
      by (metis list.exhaust sum.exhaust)
    then show thesis
    proof cases
      case 1
      then have "alloc M n w = (Error (export_not_found ''am_alloc''), w)"
        by (simp add: alloc_def andThen_def call0_def call_def)
      then show thesis using failed assms by simp
    next
      case 2
      then have "alloc M n w = (Error e, w')"
        using c by (simp add: alloc_def andThen_def call0_def call_def)
      then show thesis using failed a 2 by (simp add: allocated_def)
    next
      case 3
      then have "alloc M n w = (Panic index_panic, w')"
        using c by (simp add: alloc_def andThen_def call0_def call_def lift_def)
      then show thesis using failed a 3 by (simp add: allocated_def)
    qed
  qed
qed

lemma safe_withAlloc [heap_intros]:
  assumes "\<And>p. p \<noteq> 0 \<Longrightarrow> n \<noteq> 0 \<Longrightarrow> safe b (add_mset (p, n) F) (body p)"
    and "n = 0 \<Longrightarrow> safe b F (body 0)"
  shows "safe b F (withAlloc M n body)"
proof (rule safeI)
  fix w assume w: "sound w" "F \<subseteq># live w" "pending b w"
  from w(1) show "sound (snd (withAlloc M n body w)) \<and> live (snd (withAlloc M n body w)) = live w"
  proof (cases rule: alloc_cases [where n = n])
    case (null w')
    then have "pending b w'" using w(3) by (auto simp: pending_def split: option.splits)
    then show ?thesis
      using null safeD [OF assms(2) [OF null(2)] null(3)] w(2)
      by (auto simp: withAlloc_def andThen_def deferred_def free_def split: prod.splits)
  next
    case (block p w')
    then have "pending b w'" using w(3) by (auto simp: pending_def split: option.splits)
    then show ?thesis
      using block safe_deferred_free [OF assms(1) block(4,5) w(2)]
      by (auto simp: withAlloc_def andThen_def)
  next
    case (failed r w')
    then show ?thesis by (cases r) (auto simp: withAlloc_def andThen_def)
  qed
qed

text \<open>The frame that \<open>writeBytes\<close> gives to its caller.\<close>

definition frame :: "uint32 \<Rightarrow> uint32 \<Rightarrow> block multiset" where
  "frame p n = (if p = 0 then {#} else {#(p, n)#})"

lemma safe_withBytes [heap_intros]:
  assumes "\<And>p n. p = 0 \<and> n = 0 \<or> p \<noteq> 0 \<and> unat n = length data \<Longrightarrow> safe None (F + frame p n) (body p n)"
  shows "safe b F (withBytes M data body)"
proof (rule safeI)
  fix w assume w: "sound w" "F \<subseteq># live w"
  let ?n = "word_of_nat (length data) :: uint32"
  show "sound (snd (withBytes M data body w)) \<and> live (snd (withBytes M data body w)) = live w"
  proof (cases "?n = 0")
    case True
    then have "withBytes M data body w = deferred (free M 0 0) (body 0 0) w"
      by (simp add: withBytes_def writeBytes_def)
    then show ?thesis
      using safeD [OF assms [of 0 0] w(1)] w(2)
      by (auto simp: deferred_def free_def frame_def split: prod.splits)
  next
    case False
    from w(1) show ?thesis
    proof (cases rule: alloc_cases [where n = ?n])
      case (block p w')
      have wb: "writeBytes M data w =
          (case Memory_Write M p data w' of
             Some w'' \<Rightarrow> (Ok (p, ?n), w'')
           | None \<Rightarrow> (Error (write_failed p ?n), free M p ?n w'))"
        using False block(1)
        by (simp add: writeBytes_def Let_def andThen_def mem_write_def deferred_def fail_def ret_def split: option.splits)
      show ?thesis
      proof (cases "Memory_Write M p data w'")
        case None
        then show ?thesis
          using wb safe_free [OF block(4,5,3,2)] by (simp add: withBytes_def andThen_def)
      next
        case (Some w'')
        note wr = write_block [OF block(4) _ Some]
        have w'': "sound w''" "live w'' = add_mset (p, ?n) (live w)" "unat ?n = length data"
          using wr block(5) by simp_all
        then have "safe None (add_mset (p, ?n) F) (body p ?n)"
          using assms [of p ?n] block(2) by (simp add: frame_def)
        from safe_deferred_free [OF this w''(1,2) w(2) pending_None block(3,2)] show ?thesis
          using Some wb by (simp add: withBytes_def andThen_def)
      qed
    next
      case (failed r w')
      then show ?thesis
        using False by (cases r) (auto simp: withBytes_def writeBytes_def Let_def andThen_def)
    qed (use False in simp)
  qed
qed

section \<open>The shared shapes\<close>

lemma in_frame [simp]: "p = 0 \<and> n = 0 \<or> p \<noteq> 0 \<and> unat n = k \<Longrightarrow> in_block (F + frame p n) p (unat n)"
  by (auto simp: in_block_def frame_def)

lemma in_frame_left: "in_block F p k \<Longrightarrow> in_block (F + G) p k"
  by (auto simp: in_block_def)

lemma in_frame_add: "in_block F p k \<Longrightarrow> in_block (add_mset x F) p k"
  by (auto simp: in_block_def)

text \<open>The out block of a getter, when the block has just been allocated for its data.\<close>

lemma safe_get_null:
  assumes "g \<in> set getters" and "u32 (last ps) = 0"
  shows "safe b F (call M g ps)"
proof (rule safeI)
  fix w assume w: "sound w"
  note ne = getters_read_nothing [OF assms(1)]
  obtain res w' where c: "fn_Call M g ps w = (res, w')" by (cases "fn_Call M g ps w")
  have "sound w' \<and> live w' = live w"
    using other_call [OF ne(1,2) w _ _ c] assms(2) by (simp add: ne(3) in_block_def)
  then show "sound (snd (call M g ps w)) \<and> live (snd (call M g ps w)) = live w"
    using c w by (auto simp: call_def split: sum.splits)
qed

lemma safe_fill [heap_intros]:
  assumes "g \<in> set getters" and "u32 (last ps) = p"
  shows "safe (Some (g, unat n)) (add_mset (p, n) F) (call M g ps)"
  by (rule safe_get [OF assms(1) _ _ assms(2), where n = n]) simp_all

lemma safe_fetch:
  assumes "safe None F (call M len lps)" and "(len, g) \<in> set two_phase" and "len \<noteq> ''am_get_cursor''"
    and "\<And>p. u32 (last (gps p)) = p" and "safe None F none" and "\<And>G data. safe None G (some data)"
  shows "safe b F (fetch M len lps g gps none some)"
  unfolding fetch_def
proof (rule safe_len [OF assms(1,2)])
  fix r assume "u32 r = 0 \<or> len = ''am_get_cursor'' \<and> i32 r < 0"
  then show "safe None F (let n = u32 r in if n = 0 then none
      else withAlloc M n (\<lambda>ptr. andThen (call M g (gps ptr)) (\<lambda>_. andThen (readBytes M ptr n) some)))"
    using assms(3,5) by simp
next
  fix r assume r: "u32 r \<noteq> 0"
  have g: "g \<in> set getters" using assms(2) by (force simp: getters_def)
  have "safe (Some (g, unat (u32 r))) F (withAlloc M (u32 r)
      (\<lambda>ptr. andThen (call M g (gps ptr)) (\<lambda>_. andThen (readBytes M ptr (u32 r)) some)))"
    by (intro safe_withAlloc safe_fill [OF g] safe_andThen safe_readBytes assms(4,6))
      (use r in simp_all)
  then show "safe (Some (g, unat (u32 r))) F (let n = u32 r in if n = 0 then none
      else withAlloc M n (\<lambda>ptr. andThen (call M g (gps ptr)) (\<lambda>_. andThen (readBytes M ptr n) some)))"
    using r by (simp add: Let_def)
qed

lemma safe_lastError [heap_intros]: "safe b F (lastError M)"
  unfolding lastError_def
proof (intro safe_swallowed safe_len [where g = "''am_last_error''"])
  show "safe None F (call M ''am_last_error_len'' [])"
    by (intro safe_call) (simp_all add: getters_def two_phase_def read_slices_def read_table_def)
qed (auto simp: Let_def two_phase_def getters_def intro!: heap_intros safe_fill)

lemma safe_expect0 [heap_intros]: "safe b F (call M name ps) \<Longrightarrow> safe b F (expect0 M name ps fmt)"
  unfolding expect0_def by (intro heap_intros) assumption

lemma safe_fail_with_last [heap_intros]: "safe b F (fail_with_last M e)"
  unfolding fail_with_last_def by (intro heap_intros)

lemma safe_expect0_msg [heap_intros]: "safe b F (call M name ps) \<Longrightarrow> safe b F (expect0_msg M name ps fmt)"
  unfolding expect0_msg_def by (intro heap_intros) assumption

lemmas call_simps = getters_def two_phase_def read_slices_def read_table_def slice_at_def hashes_at_def
  in_block_def frame_def

section \<open>Every method\<close>

lemma safe_Save: "safe None F (Save M)"
  unfolding Save_def
proof (rule safe_len [where g = "''am_save''"])
  show "safe None F (call M ''am_save_len'' [])" by (rule safe_call) (simp_all add: call_simps)
qed (auto simp: Let_def call_simps intro!: heap_intros)

lemma safe_GetActorID: "safe None F (GetActorID M)"
  unfolding GetActorID_def
proof (rule safe_len [where g = "''am_get_actor''"])
  show "safe None F (call M ''am_get_actor_len'' [])" by (rule safe_call) (simp_all add: call_simps)
qed (auto simp: Let_def call_simps intro!: heap_intros)

lemma safe_SetActorID: "safe None F (SetActorID M ident)"
  unfolding SetActorID_def by (intro heap_intros safe_call) (auto simp: call_simps)

lemma safe_MapGet: "safe None F (MapGet M obj key)"
  unfolding MapGet_def by (intro heap_intros safe_fetch safe_call) (auto simp: call_simps)

lemma safe_put_result [heap_intros]: "safe b F (put_result tag fmt r)"
  unfolding put_result_def Let_def by (intro heap_intros)

lemma safe_MapPut: "safe None F (MapPut M obj key tag payload)"
  unfolding MapPut_def by (intro heap_intros safe_call) (auto simp: call_simps)

lemma safe_MapDelete: "safe None F (MapDelete M obj key)"
  unfolding MapDelete_def by (intro heap_intros safe_call) (auto simp: call_simps)

lemma safe_MapIncrement: "safe None F (MapIncrement M obj key delta)"
  unfolding MapIncrement_def by (intro heap_intros safe_call) (auto simp: call_simps)

lemma safe_ListGet: "safe None F (ListGet M obj index)"
  unfolding ListGet_def by (intro heap_intros safe_fetch safe_call) (auto simp: call_simps)

lemma safe_ListPut: "safe None F (ListPut M obj index ins tag payload)"
  unfolding ListPut_def Let_def by (intro heap_intros safe_call) (auto simp: call_simps)

lemma safe_ListDelete: "safe None F (ListDelete M obj index)"
  unfolding ListDelete_def by (intro heap_intros safe_call) (auto simp: call_simps)

lemma safe_ListLen: "safe None F (ListLen M obj)"
  unfolding ListLen_def by (intro heap_intros safe_call) (auto simp: call_simps)

lemma safe_ListIncrement: "safe None F (ListIncrement M obj index delta)"
  unfolding ListIncrement_def by (intro heap_intros safe_call) (auto simp: call_simps)

lemma safe_TextGet: "safe None F (TextGet M obj)"
  unfolding TextGet_def by (intro heap_intros safe_fetch safe_call) (auto simp: call_simps)

lemma safe_TextSplice: "safe None F (TextSplice M obj pos del text)"
  unfolding TextSplice_def by (intro heap_intros safe_call) (auto simp: call_simps)

lemma safe_Mark: "safe None F (Mark M obj name val start stop expand)"
  unfolding Mark_def by (intro heap_intros safe_call) (auto simp: call_simps)

lemma safe_Unmark: "safe None F (Unmark M obj name start stop expand)"
  unfolding Unmark_def by (intro heap_intros safe_call) (auto simp: call_simps)

lemma safe_Marks: "safe None F (Marks M obj)"
  unfolding Marks_def by (intro heap_intros safe_fetch safe_call) (auto simp: call_simps)

lemma safe_Spans: "safe None F (Spans M obj)"
  unfolding Spans_def by (intro heap_intros safe_fetch safe_call) (auto simp: call_simps)

lemma safe_SplitBlock: "safe None F (SplitBlock M obj index)"
  unfolding SplitBlock_def block_call_def Let_def by (intro heap_intros safe_call) (auto simp: call_simps)

lemma safe_JoinBlock: "safe None F (JoinBlock M obj index)"
  unfolding JoinBlock_def by (intro heap_intros safe_call) (auto simp: call_simps)

lemma safe_ReplaceBlock: "safe None F (ReplaceBlock M obj index)"
  unfolding ReplaceBlock_def block_call_def Let_def by (intro heap_intros safe_call) (auto simp: call_simps)

text \<open>Copying prepared data out, when the length may be 0 and the block the null pointer.\<close>

lemma safe_copy_out:
  assumes "g \<in> set getters" and "\<And>p. u32 (last (ps p)) = p" and "\<And>G p x. safe None G (f p x)"
  shows "safe (Some (g, unat n)) F (withAlloc M n (\<lambda>p. andThen (call M g (ps p)) (f p)))"
    and "n = 0 \<Longrightarrow> safe None F (withAlloc M n (\<lambda>p. andThen (call M g (ps p)) (f p)))"
proof -
  show "safe (Some (g, unat n)) F (withAlloc M n (\<lambda>p. andThen (call M g (ps p)) (f p)))"
    using assms by (intro safe_withAlloc safe_andThen safe_fill) (auto intro: safe_get_null)
  show "safe None F (withAlloc M n (\<lambda>p. andThen (call M g (ps p)) (f p)))" if "n = 0"
    using assms that by (intro safe_withAlloc safe_andThen) (auto intro: safe_get_null)
qed

lemma safe_GetCursor: "safe None F (GetCursor M obj index)"
  unfolding GetCursor_def
proof (rule safe_len [where g = "''am_get_cursor_str''"])
  show "safe None F (call M ''am_get_cursor'' [u64 obj, index])" by (rule safe_call) (simp_all add: call_simps)
qed (auto simp: Let_def call_simps intro!: safe_fail safe_copy_out safe_andThen safe_readBytes safe_ret)

lemma safe_LookupCursor: "safe None F (LookupCursor M obj cursor)"
  unfolding LookupCursor_def Let_def by (intro heap_intros safe_call) (auto simp: call_simps)

lemma safe_ObjSize: "safe None F (ObjSize M obj)"
  unfolding ObjSize_def by (intro heap_intros safe_call) (auto simp: call_simps)

lemma safe_ObjType: "safe None F (ObjType M obj)"
  unfolding ObjType_def by (intro heap_intros safe_call) (auto simp: call_simps)

lemma safe_ObjKeys: "safe None F (ObjKeys M obj)"
  unfolding ObjKeys_def by (intro heap_intros safe_fetch safe_call) (auto simp: call_simps)

lemma safe_ObjItems: "safe None F (ObjItems M obj)"
  unfolding ObjItems_def by (intro heap_intros safe_fetch safe_call) (auto simp: call_simps)

lemma safe_ObjFree: "safe None F (ObjFree M obj)"
  unfolding ObjFree_def by (intro heap_intros safe_call) (auto simp: call_simps)

lemma safe_Heads: "safe None F (Heads M)"
  unfolding Heads_def by (intro heap_intros safe_fetch safe_call) (auto simp: call_simps)

lemma hashes_block:
  assumes "list_all wf_hash hs" and "unat n = length (EncodeChangeHashes hs)"
  shows "unat (word_of_nat (length hs) :: uint32) * 32 \<le> unat (n :: uint32)"
proof -
  have "length (EncodeChangeHashes hs) = length hs * 32"
    using assms(1) by (induction hs) (auto simp: EncodeChangeHashes_def wf_hash_def)
  moreover have "unat (word_of_nat (length hs) :: uint32) \<le> length hs"
    by (simp add: unat_of_nat)
  ultimately show ?thesis using assms(2) by simp
qed

lemma safe_GetChanges: "list_all wf_hash since \<Longrightarrow> safe None F (GetChanges M since)"
  unfolding GetChanges_def Let_def
  by (intro heap_intros safe_fetch safe_call) (auto simp: call_simps intro!: hashes_block)

lemma safe_GetChangeByHash: "wf_hash h \<Longrightarrow> safe None F (GetChangeByHash M h)"
  unfolding GetChangeByHash_def by (intro heap_intros safe_fetch safe_call) (auto simp: call_simps wf_hash_def)

lemma safe_ApplyChanges: "safe None F (ApplyChanges M changes)"
  unfolding ApplyChanges_def by (intro heap_intros safe_call) (auto simp: call_simps)

lemma safe_GetChangeInfo: "safe None F (GetChangeInfo M raw)"
  unfolding GetChangeInfo_def by (intro heap_intros safe_fetch safe_call) (auto simp: call_simps)

lemma safe_SaveIncremental: "safe None F (SaveIncremental M)"
  unfolding SaveIncremental_def by (intro heap_intros safe_fetch safe_call) (auto simp: call_simps)

lemma safe_LoadIncremental: "safe None F (LoadIncremental M data)"
  unfolding LoadIncremental_def by (intro heap_intros safe_call) (auto simp: call_simps)

lemma safe_Merge: "safe None F (Merge M otherSaved)"
  unfolding Merge_def by (intro heap_intros safe_call) (auto simp: call_simps)

lemma safe_SyncInit: "safe None F (SyncInit M)"
  unfolding SyncInit_def Let_def by (intro heap_intros safe_call) (auto simp: call_simps)

lemma safe_SyncFree: "safe None F (SyncFree M peerID)"
  unfolding SyncFree_def by (intro heap_intros safe_call) (auto simp: call_simps)

lemma safe_SyncReceiveMessage: "safe None F (SyncReceiveMessage M peerID msg)"
  unfolding SyncReceiveMessage_def by (intro heap_intros safe_call) (auto simp: call_simps)

lemma safe_SyncSave: "safe None F (SyncSave M peerID)"
  unfolding SyncSave_def by (intro heap_intros safe_fetch safe_call) (auto simp: call_simps)

lemma safe_SyncLoad: "safe None F (SyncLoad M data)"
  unfolding SyncLoad_def Let_def by (intro heap_intros safe_call) (auto simp: call_simps)

lemma safe_SyncGenerateMessage: "safe None F (SyncGenerateMessage M peerID)"
  unfolding SyncGenerateMessage_def
proof (rule safe_len [where g = "''am_sync_gen''"])
  show "safe None F (call M ''am_sync_gen_len'' [u64 peerID])" by (rule safe_call) (simp_all add: call_simps)
qed (auto simp: Let_def call_simps intro!: heap_intros)

lemma safe_read_hash:
  "safe (Some (''am_commit_hash'', unat n)) F (read_hash M n)"
  "n = 0 \<Longrightarrow> safe None F (read_hash M n)"
  unfolding read_hash_def
  by (auto simp: getters_def two_phase_def intro!: safe_copy_out safe_andThen safe_readBytes safe_ret)

text \<open>\<open>Commit\<close> and \<open>EmptyChange\<close> ask for the hash in the same way.\<close>

lemma safe_commit_hash:
  assumes "\<And>h. u32 h = 0 \<Longrightarrow> safe None F (f h)"
    and "\<And>h. u32 h \<noteq> 0 \<Longrightarrow> safe (Some (''am_commit_hash'', unat (u32 h))) F (f h)"
  shows "safe b F (andThen (call0 M ''am_commit_hash_len'' []) f)"
proof (rule safe_len [where g = "''am_commit_hash''"])
  show "safe None F (call M ''am_commit_hash_len'' [])" by (rule safe_call) (simp_all add: call_simps)
qed (use assms in \<open>auto simp: two_phase_def\<close>)

lemma safe_Commit: "safe None F (Commit M msg timestamp)"
proof -
  have tail: "safe None G (andThen (call0 M ''am_commit_hash_len'' []) (\<lambda>h. if u32 h \<noteq> 32
      then fail (Errorf ''automerge: expected 32-byte commit hash, got %d'' [AInt (uint (u32 h))])
      else read_hash M 32))" for G
  proof (rule safe_commit_hash)
    fix h assume "u32 h \<noteq> 0"
    show "safe (Some (''am_commit_hash'', unat (u32 h))) G (if u32 h \<noteq> 32
      then fail (Errorf ''automerge: expected 32-byte commit hash, got %d'' [AInt (uint (u32 h))])
      else read_hash M 32)"
      using safe_read_hash(1) [of 32 G] by (auto intro: safe_fail)
  qed (auto intro: safe_fail)
  show ?thesis
    unfolding Commit_def Let_def
    by (intro safe_withBytes safe_andThen [OF safe_call0] safe_if safe_fail safe_fail_with_last tail safe_call)
      (auto simp: call_simps)
qed

lemma safe_EmptyChange: "safe None F (EmptyChange M msg timestamp)"
proof -
  have tail: "safe None G (andThen (call0 M ''am_commit_hash_len'' []) (\<lambda>h. read_hash M (u32 h)))" for G
    by (intro safe_commit_hash safe_read_hash)
  show ?thesis
    unfolding EmptyChange_def
    by (intro safe_withBytes safe_andThen [OF safe_expect0] tail safe_call) (auto simp: call_simps)
qed

lemmas safe_methods =
  safe_Save safe_GetActorID safe_SetActorID safe_MapGet safe_MapPut safe_MapDelete safe_MapIncrement
  safe_ListGet safe_ListPut safe_ListDelete safe_ListLen safe_ListIncrement safe_TextGet
  safe_TextSplice safe_Mark safe_Unmark safe_Marks safe_Spans safe_SplitBlock safe_JoinBlock
  safe_ReplaceBlock safe_GetCursor safe_LookupCursor safe_ObjSize safe_ObjType safe_ObjKeys
  safe_ObjItems safe_ObjFree safe_Commit safe_EmptyChange safe_Heads safe_GetChanges
  safe_GetChangeByHash safe_ApplyChanges safe_GetChangeInfo safe_SaveIncremental safe_LoadIncremental
  safe_Merge safe_SyncInit safe_SyncFree safe_SyncGenerateMessage safe_SyncReceiveMessage
  safe_SyncSave safe_SyncLoad

lemma safe_discard: "safe None F m \<Longrightarrow> safe None F (discard m)"
  unfolding discard_def by (intro safe_andThen safe_ret)

lemma safe_run_op: "wf_op op \<Longrightarrow> safe None F (run_op M op)"
  by (cases op) (simp_all add: safe_discard safe_methods)

theorem run_ops_safe:
  assumes "list_all wf_op ops" and "sound w"
  shows "sound (run_ops M ops w) \<and> live (run_ops M ops w) = live w"
  using assms
proof (induction ops arbitrary: w)
  case (Cons op ops)
  from safeD [OF safe_run_op [of op "{#}"] Cons.prems(2)] Cons.prems(1)
  have "sound (snd (run_op M op w))" and "live (snd (run_op M op w)) = live w" by simp_all
  then show ?case using Cons.IH [of "snd (run_op M op w)"] Cons.prems(1) by simp
qed simp

end

end
