(* ===== verification/GuestSafety.thy ===== *)
theory GuestSafety
  imports Guest GuestInterface
begin

text \<open>
  The Rust shim keeps the contract \<open>guest_memory\<close>: the interpretation \<open>shim\<close> at the end, for
  every version of the automerge crate and every allocator. With it, no sequence of backend
  calls leaks or double-frees guest memory, or makes the guest read or write outside a live
  block.
\<close>

section \<open>What every export leaves alone\<close>

type_synonym heap = "block list \<times> nat \<times> bool"

definition heap_of :: "('d, 'o, 's) guest \<Rightarrow> heap" where
  "heap_of g = (g_blocks g, g_size g, g_ub g)"

definition at_heap :: "heap \<Rightarrow> ('d, 'o, 's) guest \<Rightarrow> bool" where
  "at_heap H g \<longleftrightarrow> heap_of g = H \<and> length (g_return_buf g) < 2 ^ 31 \<and> length (g_last_error g) < 2 ^ 31"

definition calm :: "heap \<Rightarrow> ('d, 'o, 's) export \<Rightarrow> bool" where
  "calm H f \<longleftrightarrow> (\<forall>g. at_heap H g \<longrightarrow> at_heap H (snd (f g)))"

definition readable :: "heap \<Rightarrow> uint32 \<Rightarrow> nat \<Rightarrow> bool" where
  "readable H p n \<longleftrightarrow> p = 0 \<or> covers (fst H) p n"

named_theorems calm_intros \<open>exports that leave the heap as it was\<close>

lemma calmD: "calm H f \<Longrightarrow> at_heap H g \<Longrightarrow> at_heap H (snd (f g))"
  by (simp add: calm_def)

lemma at_heap_update [simp]:
  "at_heap H (g\<lparr>g_doc := d\<rparr>) = at_heap H g"
  "at_heap H (g\<lparr>g_table := t\<rparr>) = at_heap H g"
  "at_heap H (g\<lparr>g_sync := s\<rparr>) = at_heap H g"
  "at_heap H (g\<lparr>g_next_peer := p\<rparr>) = at_heap H g"
  "at_heap H (g\<lparr>g_mem := m\<rparr>) = at_heap H g"
  by (simp_all add: at_heap_def heap_of_def)

lemma at_heap_buf:
  "at_heap H g \<Longrightarrow> length b < 2 ^ 31 \<Longrightarrow> at_heap H (g\<lparr>g_return_buf := b\<rparr>)"
  "at_heap H g \<Longrightarrow> length e < 2 ^ 31 \<Longrightarrow> at_heap H (g\<lparr>g_last_error := e\<rparr>)"
  by (simp_all add: at_heap_def heap_of_def)

lemma at_heap_access: "at_heap H g \<Longrightarrow> covers (fst H) p n \<Longrightarrow> at_heap H (note_access p n g)"
  by (auto simp: at_heap_def heap_of_def note_access_def)

lemma at_heap_poke: "at_heap H g \<Longrightarrow> covers (fst H) p (length d) \<Longrightarrow> at_heap H (poke p d g)"
  by (simp add: poke_def at_heap_access)

lemma calm_reply [calm_intros]: "calm H (reply r)"
  and calm_trap [calm_intros]: "calm H trap"
  and calm_len [calm_intros]: "calm H return_buf_len"
  and calm_error_len [calm_intros]: "calm H am_last_error_len"
  by (simp_all add: calm_def reply_def trap_def return_buf_len_def am_last_error_len_def)

lemma calm_set_return_buf [calm_intros]: "calm H k \<Longrightarrow> calm H (set_return_buf d k)"
  by (auto simp: calm_def set_return_buf_def at_heap_buf)

lemma calm_set_last_error [calm_intros]: "calm H k \<Longrightarrow> calm H (set_last_error d k)"
  by (auto simp: calm_def set_last_error_def at_heap_buf)

lemma calm_prepare [calm_intros]: "calm H (prepare d)"
  unfolding prepare_def by (intro calm_intros)

lemma calm_with_doc [calm_intros]: "(\<And>d. calm H (f d)) \<Longrightarrow> calm H (with_doc f none)"
  by (auto simp: calm_def with_doc_def split: option.splits)

lemma calm_with_doc_mut [calm_intros]: "(\<And>r. calm H (k r)) \<Longrightarrow> calm H (with_doc_mut f k none)"
  by (auto simp: calm_def with_doc_mut_def split: option.splits prod.splits)

lemma calm_register_obj [calm_intros]: "(\<And>h. calm H (k h)) \<Longrightarrow> calm H (register_obj C ob k)"
  by (auto simp: calm_def register_obj_def split: prod.splits)

lemma calm_resolve_obj [calm_intros]: "(\<And>ob. calm H (k ob)) \<Longrightarrow> calm H (resolve_obj C h k bad)"
  by (auto simp: calm_def resolve_obj_def split: option.splits)

lemma calm_with_slice [calm_intros]:
  "p \<noteq> 0 \<Longrightarrow> readable H p n \<Longrightarrow> (\<And>b. calm H (k b)) \<Longrightarrow> calm H (with_slice p n k)"
  by (auto simp: calm_def with_slice_def readable_def at_heap_access)

lemma calm_with_utf8 [calm_intros]:
  "p \<noteq> 0 \<Longrightarrow> readable H p (unat n) \<Longrightarrow> (\<And>s. calm H (k s)) \<Longrightarrow> calm H (with_utf8 p n k bad)"
  unfolding with_utf8_def by (auto intro!: calm_intros)

lemma calm_with_opt_slice [calm_intros]:
  "readable H p (unat n) \<Longrightarrow> (\<And>b. calm H (k b)) \<Longrightarrow> calm H (with_opt_slice p n k)"
  unfolding with_opt_slice_def by (auto intro!: calm_intros)

lemma readable_mono: "readable H p n \<Longrightarrow> m \<le> n \<Longrightarrow> readable H p m"
  unfolding readable_def covers_def by force

lemma calm_with_heads [calm_intros]:
  assumes "readable H p (unat cnt * 32)" and "\<And>hs. calm H (k hs)"
  shows "calm H (with_heads p cnt k)"
proof -
  have "unat (cnt * 32) \<le> unat cnt * 32" by (simp add: unat_word_ariths)
  then have "readable H p (unat (cnt * 32))" using assms(1) readable_mono by blast
  then show ?thesis unfolding with_heads_def using assms(2) by (auto intro!: calm_intros)
qed

lemma calm_init_doc [calm_intros]: "calm H (\<lambda>g. (Some r, init_doc d g))"
  by (simp add: calm_def init_doc_def at_heap_buf)

lemma calm_mutate [calm_intros]: "calm H (mutate f)"
  unfolding mutate_def by (auto intro!: calm_intros split: sum.splits)

lemma calm_mutate_msg [calm_intros]: "calm H (mutate_msg f a b)"
  unfolding mutate_msg_def by (auto intro!: calm_intros split: sum.splits)

lemma calm_put_object_reply [calm_intros]: "calm H (put_object_reply C f)"
  unfolding put_object_reply_def by (auto intro!: calm_intros split: sum.splits)

lemma calm_block_reply [calm_intros]: "calm H (block_reply C f)"
  unfolding block_reply_def by (auto intro!: calm_intros split: sum.splits)

lemma calm_prepare_value [calm_intros]: "calm H (prepare_value C r)"
  unfolding prepare_value_def by (auto intro!: calm_intros split: option.splits rvalue.splits)

lemma calm_prepare_json [calm_intros]: "calm H (prepare_json r)"
  unfolding prepare_json_def by (auto intro!: calm_intros split: option.splits)

lemma calm_add_peer [calm_intros]: "calm H (add_peer st)"
  by (simp add: calm_def add_peer_def)

section \<open>The exports that take no block to fill\<close>

lemma calm_am_create [calm_intros]: "calm H (am_create C)"
  unfolding am_create_def by (auto intro!: calm_intros)

lemma calm_am_save_len [calm_intros]: "calm H (am_save_len C)"
  unfolding am_save_len_def by (auto intro!: calm_intros)

lemma calm_am_load [calm_intros]: "readable H p (unat n) \<Longrightarrow> calm H (am_load C p n)"
  unfolding am_load_def by (auto intro!: calm_intros split: option.splits)

lemma calm_am_merge [calm_intros]: "readable H p (unat n) \<Longrightarrow> calm H (am_merge C p n)"
  unfolding am_merge_def by (auto intro!: calm_intros split: option.splits sum.splits)

lemma calm_am_fork [calm_intros]: "readable H p (unat cnt * 32) \<Longrightarrow> calm H (am_fork C p cnt)"
  unfolding am_fork_def by (auto intro!: calm_intros split: option.splits)

lemma calm_am_get_actor_len [calm_intros]: "calm H (am_get_actor_len C)"
  unfolding am_get_actor_len_def by (auto intro!: calm_intros)

lemma calm_am_set_actor [calm_intros]: "readable H p (unat n) \<Longrightarrow> calm H (am_set_actor C p n)"
  unfolding am_set_actor_def by (auto intro!: calm_intros split: option.splits)

lemma calm_am_map_put [calm_intros]: "readable H kp (unat kn) \<Longrightarrow> readable H vp (unat vn) \<Longrightarrow> calm H (am_map_put C h kp kn tag vp vn)"
  unfolding am_map_put_def by (auto intro!: calm_intros split: option.splits rvalue.splits)

lemma calm_am_map_get_len [calm_intros]: "readable H kp (unat kn) \<Longrightarrow> calm H (am_map_get_len C h kp kn)"
  unfolding am_map_get_len_def by (auto intro!: calm_intros)

lemma calm_am_map_delete [calm_intros]: "readable H kp (unat kn) \<Longrightarrow> calm H (am_map_delete C h kp kn)"
  unfolding am_map_delete_def by (auto intro!: calm_intros)

lemma calm_am_map_increment [calm_intros]: "readable H kp (unat kn) \<Longrightarrow> calm H (am_map_increment C h kp kn delta)"
  unfolding am_map_increment_def by (auto intro!: calm_intros)

lemma calm_am_list_put [calm_intros]: "readable H vp (unat vn) \<Longrightarrow> calm H (am_list_put C h i f tag vp vn)"
  unfolding am_list_put_def Let_def by (auto intro!: calm_intros split: option.splits rvalue.splits)

lemma calm_am_list_get_len [calm_intros]: "calm H (am_list_get_len C h i)"
  unfolding am_list_get_len_def by (auto intro!: calm_intros)

lemma calm_am_list_delete [calm_intros]: "calm H (am_list_delete C h i)"
  unfolding am_list_delete_def by (auto intro!: calm_intros)

lemma calm_am_obj_size [calm_intros]: "calm H (am_obj_size C h)"
  unfolding am_obj_size_def by (auto intro!: calm_intros)

lemma calm_am_list_len [calm_intros]: "calm H (am_list_len C h)"
  unfolding am_list_len_def by (auto intro!: calm_intros)

lemma calm_am_list_increment [calm_intros]: "calm H (am_list_increment C h i delta)"
  unfolding am_list_increment_def by (auto intro!: calm_intros)

lemma calm_am_text_splice [calm_intros]: "readable H ip (unat ilen) \<Longrightarrow> calm H (am_text_splice C h pos del ip ilen)"
  unfolding am_text_splice_def by (auto intro!: calm_intros)

lemma calm_am_text_get_len [calm_intros]: "calm H (am_text_get_len C h)"
  unfolding am_text_get_len_def by (auto intro!: calm_intros split: option.splits)

lemma calm_am_mark [calm_intros]: "readable H np (unat nn) \<Longrightarrow> readable H vp (unat vn) \<Longrightarrow> calm H (am_mark C h np nn vp vn start stop ex)"
  unfolding am_mark_def by (auto intro!: calm_intros)

lemma calm_am_unmark [calm_intros]: "readable H np (unat nn) \<Longrightarrow> calm H (am_unmark C h np nn start stop ex)"
  unfolding am_unmark_def by (auto intro!: calm_intros)

lemma calm_am_marks_len [calm_intros]: "calm H (am_marks_len C h)"
  unfolding am_marks_len_def by (auto intro!: calm_intros)

lemma calm_am_spans_len [calm_intros]: "calm H (am_spans_len C h)"
  unfolding am_spans_len_def by (auto intro!: calm_intros)

lemma calm_am_split_block [calm_intros]: "calm H (am_split_block C h i)"
  unfolding am_split_block_def by (auto intro!: calm_intros)

lemma calm_am_join_block [calm_intros]: "calm H (am_join_block C h i)"
  unfolding am_join_block_def by (auto intro!: calm_intros)

lemma calm_am_replace_block [calm_intros]: "calm H (am_replace_block C h i)"
  unfolding am_replace_block_def by (auto intro!: calm_intros)

lemma calm_am_get_cursor [calm_intros]: "calm H (am_get_cursor C h i)"
  unfolding am_get_cursor_def by (auto intro!: calm_intros split: option.splits)

lemma calm_am_lookup_cursor [calm_intros]: "readable H p (unat n) \<Longrightarrow> calm H (am_lookup_cursor C h p n)"
  unfolding am_lookup_cursor_def by (auto intro!: calm_intros split: option.splits)

lemma calm_am_obj_type [calm_intros]: "calm H (am_obj_type C h)"
  unfolding am_obj_type_def by (auto intro!: calm_intros)

lemma calm_am_obj_keys_len [calm_intros]: "calm H (am_obj_keys_len C h)"
  unfolding am_obj_keys_len_def by (auto intro!: calm_intros)

lemma calm_am_obj_items_len [calm_intros]: "calm H (am_obj_items_len C h)"
  unfolding am_obj_items_len_def
  by (intro calm_intros) (auto simp: calm_def split: prod.splits intro: calmD [OF calm_prepare])

lemma calm_am_obj_free [calm_intros]: "calm H (am_obj_free h)"
  by (simp add: am_obj_free_def calm_def reply_def)

lemma calm_clear_error: "calm H f \<Longrightarrow> calm H (\<lambda>g. f (g\<lparr>g_last_error := []\<rparr>))"
  by (auto simp: calm_def at_heap_buf)

lemma calm_am_commit [calm_intros]: "readable H p (unat n) \<Longrightarrow> calm H (am_commit C p n t)"
  unfolding am_commit_def by (auto intro!: calm_intros calm_clear_error split: option.splits)

lemma calm_am_empty_change [calm_intros]: "readable H p (unat n) \<Longrightarrow> calm H (am_empty_change C p n t)"
  unfolding am_empty_change_def by (auto intro!: calm_intros)

lemma calm_am_save_incremental_len [calm_intros]: "calm H (am_save_incremental_len C)"
  unfolding am_save_incremental_len_def by (auto intro!: calm_intros)

lemma calm_am_load_incremental [calm_intros]: "readable H p (unat n) \<Longrightarrow> calm H (am_load_incremental C p n)"
  unfolding am_load_incremental_def by (auto intro!: calm_intros)

lemma calm_am_get_heads_len [calm_intros]: "calm H (am_get_heads_len C)"
  unfolding am_get_heads_len_def by (auto intro!: calm_intros)

lemma calm_am_get_changes_len [calm_intros]: "readable H p (unat cnt * 32) \<Longrightarrow> calm H (am_get_changes_len C p cnt)"
  unfolding am_get_changes_len_def by (auto intro!: calm_intros)

lemma calm_am_apply_changes [calm_intros]: "readable H p (unat n) \<Longrightarrow> calm H (am_apply_changes C p n)"
  unfolding am_apply_changes_def by (auto intro!: calm_intros)

lemma calm_am_get_change_by_hash_len [calm_intros]: "readable H p 32 \<Longrightarrow> calm H (am_get_change_by_hash_len C p)"
  unfolding am_get_change_by_hash_len_def by (auto intro!: calm_intros split: option.splits)

lemma calm_am_change_info_len [calm_intros]: "readable H p (unat n) \<Longrightarrow> calm H (am_change_info_len C p n)"
  unfolding am_change_info_len_def by (auto intro!: calm_intros split: option.splits)

lemma calm_am_sync_state_init [calm_intros]: "calm H (am_sync_state_init C)"
  unfolding am_sync_state_init_def by (auto intro!: calm_intros)

lemma calm_am_sync_state_free [calm_intros]: "calm H (am_sync_state_free peer)"
  by (auto simp: am_sync_state_free_def calm_def split: option.splits)

lemma calm_am_sync_gen_len [calm_intros]: "calm H (am_sync_gen_len C peer)"
  by (auto simp: am_sync_gen_len_def calm_def split: option.splits prod.splits
      intro!: calmD [OF calm_prepare] calmD [OF calm_reply])

lemma calm_am_sync_recv [calm_intros]:
  assumes "readable H p (unat n)"
  shows "calm H (am_sync_recv C peer p n)"
proof -
  have "calm H (\<lambda>g. case g_sync g peer of
         None \<Rightarrow> (Some (- 3), g)
       | Some st \<Rightarrow> (case g_doc g of
           None \<Rightarrow> (Some (- 2), g)
         | Some d \<Rightarrow> (case c_sync_receive C b st d of (r, st', d') \<Rightarrow>
             (case r of Inl _ \<Rightarrow> reply (- 5) | Inr _ \<Rightarrow> reply 0)
               (g\<lparr>g_sync := (g_sync g)(peer \<mapsto> st'), g_doc := Some d'\<rparr>))))" for b
    by (auto simp: calm_def split: option.splits prod.splits sum.splits intro!: calmD [OF calm_reply])
  then show ?thesis
    unfolding am_sync_recv_def using assms by (auto intro!: calm_intros)
qed

lemma calm_am_sync_state_save_len [calm_intros]: "calm H (am_sync_state_save_len C peer)"
  by (auto simp: am_sync_state_save_len_def calm_def split: option.splits intro: calmD [OF calm_prepare])

lemma calm_am_sync_state_load [calm_intros]: "readable H p (unat n) \<Longrightarrow> calm H (am_sync_state_load C p n)"
  unfolding am_sync_state_load_def by (auto intro!: calm_intros split: option.splits)

lemma exports_calm:
  assumes "map_of (exports C A) name = Some (n, f)" and "name \<noteq> ''am_alloc''" and "name \<notin> set getters"
    and "list_all (\<lambda>(p, k). readable H p k) (read_slices name ps)"
  shows "calm H (f ps)"
proof -
  have "list_all (\<lambda>(name, n, f). name = ''am_alloc'' \<or> name \<in> set getters \<or>
      (\<forall>ps. list_all (\<lambda>(p, k). readable H p k) (read_slices name ps) \<longrightarrow> calm H (f ps))) (exports C A)"
    unfolding exports_def
    by (simp add: getters_def two_phase_def read_slices_def read_table_def slice_at_def hashes_at_def calm_intros)
  then show ?thesis
    using map_of_SomeD [OF assms(1)] assms(2-4) by (auto simp: list_all_iff)
qed

section \<open>The exports that fill a block\<close>

definition prepared :: "string \<Rightarrow> ('d, 'o, 's) guest \<Rightarrow> bytes" where
  "prepared name g = (if name = ''am_last_error'' then str_bytes (g_last_error g) else g_return_buf g)"

lemma nth_last:
  "length ps = 1 \<Longrightarrow> ps ! 0 = last ps" "length ps = 2 \<Longrightarrow> ps ! Suc 0 = last ps"
  "length ps = 3 \<Longrightarrow> ps ! 2 = last ps" "length ps = 4 \<Longrightarrow> ps ! 3 = last ps"
  by (cases ps rule: rev_cases; simp add: nth_append)+

lemma copy_heap:
  assumes "at_heap H g" and "readable H p (length (g_return_buf g))"
  shows "at_heap H (snd (copy_return_buf p (reply r) g))"
  using assms by (auto simp: copy_return_buf_def reply_def readable_def at_heap_poke)

lemma getter_heap:
  assumes "at_heap H g" and "readable H p (length (g_return_buf g))"
  shows "at_heap H (snd (copy_out p g))" and "at_heap H (snd (am_save p g))"
    and "at_heap H (snd (am_get_actor p g))" and "at_heap H (snd (am_sync_gen p g))"
  using assms copy_heap [OF assms]
  by (auto simp: copy_out_def am_save_def am_get_actor_def am_sync_gen_def with_doc_def reply_def split: option.splits)

lemma last_error_heap:
  assumes "at_heap H g" and "readable H p (length (g_last_error g))"
  shows "at_heap H (snd (am_last_error p g))"
  using assms by (auto simp: am_last_error_def reply_def readable_def at_heap_poke)

lemma exports_getter:
  assumes "map_of (exports C A) name = Some (n, f)" and "name \<in> set getters" and "length ps = n"
    and "at_heap H g" and "readable H (u32 (last ps)) (length (prepared name g))"
  shows "at_heap H (snd (f ps g))"
proof -
  have "list_all (\<lambda>(name, n, f). name \<in> set getters \<longrightarrow> (\<forall>ps. length ps = n \<longrightarrow>
      readable H (u32 (last ps)) (length (prepared name g)) \<longrightarrow> at_heap H (snd (f ps g)))) (exports C A)"
    unfolding exports_def
    by (simp add: getters_def two_phase_def prepared_def nth_last assms(4) getter_heap last_error_heap)
  then show ?thesis
    using map_of_SomeD [OF assms(1)] assms by (auto simp: list_all_iff)
qed

section \<open>The exports that announce a length\<close>

definition announces :: "(uint32 \<Rightarrow> bool) \<Rightarrow> ('d, 'o, 's) export \<Rightarrow> bool" where
  "announces bad f \<longleftrightarrow> (\<forall>g r g'. f g = (Some r, g') \<longrightarrow> bad r \<or> unat r = length (g_return_buf g'))"

named_theorems announces_intros \<open>exports whose result is the length of the prepared data\<close>

lemma announces_reply [announces_intros]: "bad r \<Longrightarrow> announces bad (reply r)"
  by (simp add: announces_def reply_def)

lemma announces_prepare [announces_intros]: "announces bad (prepare d)"
proof -
  have "unat (word_of_nat (length d) :: uint32) = length d" if "length d < 2 ^ 31"
    using that by (intro unat_word_of_nat_less) simp
  then show ?thesis by (auto simp: announces_def prepare_def set_return_buf_def return_buf_len_def)
qed

lemma announces_void [announces_intros]: "announces bad (set_return_buf [t] (reply 1))"
  by (simp add: announces_def set_return_buf_def reply_def)

lemma announces_with_doc [announces_intros]:
  "bad none \<Longrightarrow> (\<And>d. announces bad (f d)) \<Longrightarrow> announces bad (with_doc f none)"
  by (auto simp: announces_def with_doc_def split: option.splits)

lemma announces_with_doc_mut [announces_intros]:
  "bad none \<Longrightarrow> (\<And>r. announces bad (k r)) \<Longrightarrow> announces bad (with_doc_mut f k none)"
  by (auto simp: announces_def with_doc_mut_def split: option.splits prod.splits)

lemma announces_register_obj [announces_intros]:
  "(\<And>h. announces bad (k h)) \<Longrightarrow> announces bad (register_obj C ob k)"
  by (auto simp: announces_def register_obj_def split: prod.splits)

lemma announces_resolve_obj [announces_intros]:
  "bad none \<Longrightarrow> (\<And>ob. announces bad (k ob)) \<Longrightarrow> announces bad (resolve_obj C h k none)"
  by (auto simp: announces_def resolve_obj_def split: option.splits)

lemma announces_with_slice [announces_intros]:
  "(\<And>b. announces bad (k b)) \<Longrightarrow> announces bad (with_slice p n k)"
  by (auto simp: announces_def with_slice_def)

lemma announces_with_utf8 [announces_intros]:
  "bad none \<Longrightarrow> (\<And>b. announces bad (k b)) \<Longrightarrow> announces bad (with_utf8 p n k none)"
  unfolding with_utf8_def by (auto intro!: announces_intros)

lemma announces_with_heads [announces_intros]:
  "(\<And>hs. announces bad (k hs)) \<Longrightarrow> announces bad (with_heads p cnt k)"
  unfolding with_heads_def by (auto intro!: announces_intros)

lemma announces_prepare_value [announces_intros]: "announces bad (prepare_value C r)"
  unfolding prepare_value_def by (auto intro!: announces_intros split: option.splits rvalue.splits)

lemma announces_prepare_json [announces_intros]: "bad 0 \<Longrightarrow> announces bad (prepare_json r)"
  unfolding prepare_json_def by (auto intro!: announces_intros split: option.splits)

lemma announces_am_obj_items_len: "bad 0 \<Longrightarrow> announces bad (am_obj_items_len C h)"
  unfolding am_obj_items_len_def
  by (intro announces_intros)
    (auto simp: announces_def split: prod.splits dest: announces_prepare [unfolded announces_def, rule_format])

lemma announces_am_sync_gen_len: "bad 0 \<Longrightarrow> announces bad (am_sync_gen_len C peer)"
  by (auto simp: announces_def am_sync_gen_len_def reply_def split: option.splits prod.splits
      dest: announces_prepare [unfolded announces_def, rule_format])

lemma announces_am_sync_state_save_len: "bad 0 \<Longrightarrow> announces bad (am_sync_state_save_len C peer)"
  by (auto simp: announces_def am_sync_state_save_len_def split: option.splits
      dest: announces_prepare [unfolded announces_def, rule_format])

lemmas len_exports = am_save_len_def am_get_actor_len_def am_map_get_len_def am_list_get_len_def
  am_text_get_len_def am_marks_len_def am_spans_len_def am_obj_keys_len_def am_save_incremental_len_def
  am_get_heads_len_def am_get_changes_len_def am_get_change_by_hash_len_def am_change_info_len_def

lemma announces_len_exports:
  "announces ((=) 0) (am_save_len C)" "announces ((=) 0) (am_get_actor_len C)"
  "announces ((=) 0) (am_map_get_len C h kp kn)" "announces ((=) 0) (am_list_get_len C h i)"
  "announces ((=) 0) (am_text_get_len C h)" "announces ((=) 0) (am_marks_len C h)"
  "announces ((=) 0) (am_spans_len C h)" "announces ((=) 0) (am_obj_keys_len C h)"
  "announces ((=) 0) (am_save_incremental_len C)" "announces ((=) 0) (am_get_heads_len C)"
  "announces ((=) 0) (am_get_changes_len C p cnt)" "announces ((=) 0) (am_get_change_by_hash_len C p)"
  "announces ((=) 0) (am_change_info_len C p n)"
  unfolding len_exports by (auto intro!: announces_intros split: option.splits)

lemma announces_am_get_cursor: "announces (\<lambda>r. sint r < 0) (am_get_cursor C h i)"
  unfolding am_get_cursor_def by (auto intro!: announces_intros split: option.splits)

lemma i32_u64 [simp]: "i32 (u64 r) = sint r"
  using u32_u64 [of r] by (simp add: i32_def u32_def)

lemma guest_call_Inr:
  assumes "guest_call C A name ps g = (Inr (x # xs), g')"
  obtains n f r where "map_of (exports C A) name = Some (n, f)" "f ps g = (Some r, g')" "x = u64 r"
  using assms by (auto simp: guest_call_def split: if_splits option.splits prod.splits)

definition bad_len :: "string \<Rightarrow> uint32 \<Rightarrow> bool" where
  "bad_len len r = (if len = ''am_get_cursor'' then sint r < 0 else 0 = r)"

lemma bad_len_simps [simp]:
  "bad_len ''am_get_cursor'' = (\<lambda>r. sint r < 0)" "len \<noteq> ''am_get_cursor'' \<Longrightarrow> bad_len len = (=) 0"
  by (auto simp: bad_len_def fun_eq_iff)

lemma len_exports_announce:
  assumes "(len, get) \<in> set two_phase" and "map_of (exports C A) len = Some (n, f)"
    and "len \<noteq> ''am_fork_len''" and "len \<noteq> ''am_commit_hash_len''" and "len \<noteq> ''am_last_error_len''"
  shows "announces (bad_len len) (f ps) \<and> get \<noteq> ''am_last_error''"
proof -
  have "list_all (\<lambda>(len, get). len = ''am_fork_len'' \<or> len = ''am_commit_hash_len'' \<or> len = ''am_last_error_len'' \<or>
      get \<noteq> ''am_last_error'' \<and> (case map_of (exports C A) len of
        None \<Rightarrow> True | Some (n, f) \<Rightarrow> \<forall>ps. announces (bad_len len) (f ps))) two_phase"
    unfolding two_phase_def exports_def
    by (simp add: announces_len_exports announces_am_get_cursor announces_am_obj_items_len
        announces_am_sync_gen_len announces_am_sync_state_save_len)
  then show ?thesis using assms by (fastforce simp: list_all_iff)
qed

lemma len_announced:
  assumes "(len, get) \<in> set two_phase" and "map_of (exports C A) len = Some (n, f)"
    and "f ps g = (Some r, g')" and "length (g_return_buf g) < 2 ^ 31" and "length (g_last_error g) < 2 ^ 31"
    and "r \<noteq> 0" and "len = ''am_get_cursor'' \<Longrightarrow> 0 \<le> sint r"
  shows "length (prepared get g') = unat r"
proof -
  have w: "unat (word_of_nat k :: uint32) = k" if "k < 2 ^ 31" for k
    using that by (intro unat_word_of_nat_less) simp
  consider "len = ''am_fork_len''" | "len = ''am_commit_hash_len''" | "len = ''am_last_error_len''"
    | "len \<noteq> ''am_fork_len''" "len \<noteq> ''am_commit_hash_len''" "len \<noteq> ''am_last_error_len''" by blast
  then show ?thesis
  proof cases
    case 4
    from len_exports_announce [OF assms(1,2) 4, of ps] assms(3,6,7) show ?thesis
      by (auto simp: announces_def bad_len_def prepared_def split: if_splits) fastforce+
  qed (use assms in \<open>auto simp: two_phase_def exports_def prepared_def return_buf_len_def am_last_error_len_def w\<close>)
qed

section \<open>The interpretation\<close>

text \<open>Live blocks are not null, not empty, inside the memory and disjoint.\<close>

fun wf_blocks :: "nat \<Rightarrow> block list \<Rightarrow> bool" where
  "wf_blocks sz [] = True"
| "wf_blocks sz ((p, n) # bs) = (p \<noteq> 0 \<and> n \<noteq> 0 \<and> unat p + unat n \<le> sz \<and>
     list_all (\<lambda>(q, m). unat p + unat n \<le> unat q \<or> unat q + unat m \<le> unat p) bs \<and> wf_blocks sz bs)"

definition shim_sound :: "('d, 'o, 's) guest \<Rightarrow> bool" where
  "shim_sound g \<longleftrightarrow> \<not> g_ub g \<and> g_size g \<le> 2 ^ 32 \<and> wf_blocks (g_size g) (g_blocks g) \<and>
     length (g_return_buf g) < 2 ^ 31 \<and> length (g_last_error g) < 2 ^ 31"

definition shim_live :: "('d, 'o, 's) instance_state \<Rightarrow> block multiset" where
  "shim_live w = (if snd w then {#} else mset (g_blocks (fst w)))"

lemma wf_blocks_mono: "wf_blocks sz bs \<Longrightarrow> sz \<le> sz' \<Longrightarrow> wf_blocks sz' bs"
  by (induction bs rule: wf_blocks.induct) auto

lemma wf_blocks_remove1: "wf_blocks sz bs \<Longrightarrow> wf_blocks sz (remove1 b bs)"
  by (induction bs rule: wf_blocks.induct) (auto simp: list_all_iff dest: notin_set_remove1 split: if_splits)

lemma wf_blocks_mem: "wf_blocks sz bs \<Longrightarrow> (p, n) \<in> set bs \<Longrightarrow> p \<noteq> 0 \<and> n \<noteq> 0 \<and> unat p + unat n \<le> sz"
  by (induction bs rule: wf_blocks.induct) auto

lemma in_block_readable: "in_block (mset (g_blocks g)) p k \<Longrightarrow> readable (heap_of g) p k"
  by (force simp: in_block_def readable_def heap_of_def covers_def)

lemma at_heap_sound: "shim_sound g \<Longrightarrow> at_heap (heap_of g) g"
  by (simp add: shim_sound_def at_heap_def)

lemma sound_at_heap: "shim_sound g \<Longrightarrow> at_heap (heap_of g) g' \<Longrightarrow> shim_sound g' \<and> g_blocks g' = g_blocks g"
  by (auto simp: shim_sound_def at_heap_def heap_of_def)

lemma shim_alloc_call:
  assumes "shim_sound g" and "guest_call C A ''am_alloc'' [u64 n] g = (res, g')"
  shows "shim_sound g' \<and> mset (g_blocks g') = allocated n res (mset (g_blocks g)) \<and>
    (\<forall>get. length (prepared get g') = length (prepared get g))"
proof -
  let ?r = "A (g_blocks g) (g_size g) n"
  have call: "(res, g') = (case am_alloc A n g of (None, h) \<Rightarrow> (Inl trap_error, h) | (Some r, h) \<Rightarrow> (Inr [u64 r], h))"
    using assms(2) by (simp add: guest_call_def exports_def)
  have wf: "wf_blocks sz' (g_blocks g)" if "g_size g \<le> sz'" for sz'
    using assms(1) that wf_blocks_mono by (auto simp: shim_sound_def)
  show ?thesis
    using call assms(1) wf [of "snd ?r"]
    by (cases ?r) (auto simp: am_alloc_def Let_def fits_def shim_sound_def allocated_def prepared_def
        split: if_splits)
qed

lemma shim_free_call:
  assumes "shim_sound g" and "(p, n) \<in> set (g_blocks g)" and "guest_call C A ''am_free'' [u64 p, u64 n] g = (res, g')"
  shows "shim_sound g' \<and> mset (g_blocks g') = mset (g_blocks g) - {#(p, n)#}"
proof -
  have "p \<noteq> 0" "n \<noteq> 0" using assms(1,2) wf_blocks_mem by (auto simp: shim_sound_def)
  then have "g' = g\<lparr>g_blocks := remove1 (p, n) (g_blocks g)\<rparr>"
    using assms(2,3) by (auto simp: guest_call_def am_free_def)
  then show ?thesis
    using assms(1) wf_blocks_remove1 by (auto simp: shim_sound_def)
qed

lemma shim_write:
  assumes "shim_sound g" and "(p, word_of_nat (length d)) \<in> set (g_blocks g)" and "unat p + length d \<le> g_size g"
  shows "shim_sound (poke p d g) \<and> g_blocks (poke p d g) = g_blocks g \<and>
    unat (word_of_nat (length d) :: uint32) = length d"
proof -
  let ?n = "word_of_nat (length d) :: uint32"
  have "p \<noteq> 0" "g_size g \<le> 2 ^ 32"
    using assms(1,2) wf_blocks_mem by (auto simp: shim_sound_def)
  moreover have "0 < unat p" using \<open>p \<noteq> 0\<close> by (simp add: unat_gt_0)
  ultimately have "length d < 2 ^ 32" using assms(3) by linarith
  then have n: "unat ?n = length d" by (intro unat_word_of_nat_less) simp
  then have "covers (fst (heap_of g)) p (length d)"
    using assms(2) by (force simp: covers_def heap_of_def)
  from sound_at_heap [OF assms(1) at_heap_poke [OF at_heap_sound [OF assms(1)] this]] show ?thesis
    using n by simp
qed

lemma shim_other_call:
  assumes "name \<noteq> ''am_alloc''" and "name \<noteq> ''am_free''" and "shim_sound g"
    and "list_all (\<lambda>(p, k). in_block (mset (g_blocks g)) p k) (read_slices name ps)"
    and "name \<in> set getters \<Longrightarrow> in_block (mset (g_blocks g)) (u32 (last ps)) (length (prepared name g))"
    and "guest_call C A name ps g = (res, g')"
  shows "shim_sound g' \<and> g_blocks g' = g_blocks g"
proof (cases "map_of (exports C A) name")
  case None
  then show ?thesis using assms(2,3,6) by (auto simp: guest_call_def split: if_splits)
next
  case (Some nf)
  then obtain n f where f: "map_of (exports C A) name = Some (n, f)" by (cases nf) auto
  show ?thesis
  proof (cases "length ps = n")
    case True
    note at = at_heap_sound [OF assms(3)]
    have "at_heap (heap_of g) (snd (f ps g))"
    proof (cases "name \<in> set getters")
      case getter: True
      show ?thesis
        using exports_getter [OF f getter True at] assms(5) [OF getter] by (simp add: in_block_readable)
    next
      case getter: False
      have "list_all (\<lambda>(p, k). readable (heap_of g) p k) (read_slices name ps)"
        using assms(4) by (auto simp: list_all_iff in_block_readable)
      from calmD [OF exports_calm [OF f assms(1) getter this] at] show ?thesis .
    qed
    moreover have "g' = snd (f ps g)"
      using assms(2,6) f True by (auto simp: guest_call_def split: prod.splits option.splits)
    ultimately show ?thesis using sound_at_heap [OF assms(3)] by simp
  qed (use assms(2,3,6) f in \<open>auto simp: guest_call_def\<close>)
qed

lemma fn_Call_guest:
  "fn_Call (guest_module C A) name ps (g, c) =
     (if c then (Inl closed_error, (g, c)) else (case guest_call C A name ps g of (r, g') \<Rightarrow> (r, (g', c))))"
  by (simp add: guest_module_def)

lemma fn_Call_open:
  assumes "fn_Call (guest_module C A) name ps (g, False) = (r, w')"
  obtains g' where "w' = (g', False)" "guest_call C A name ps g = (r, g')"
  using assms by (auto simp: fn_Call_guest split: prod.splits)

interpretation shim: guest_memory "guest_module C A" shim_live "\<lambda>w. shim_sound (fst w)"
  "\<lambda>name w. length (prepared name (fst w))"
proof (unfold_locales, goal_cases)
  case 1
  then show ?case by (simp add: guest_module_def)
next
  case (2 w n res w')
  then show ?case
    using shim_alloc_call [of "fst w" C A n]
    by (cases w) (auto simp: fn_Call_guest shim_live_def allocated_def split: prod.splits if_splits sum.splits list.splits)
next
  case (3 n w r rs w')
  then show ?case
    by (cases w) (auto simp: fn_Call_guest guest_call_def exports_def am_alloc_def Let_def split: if_splits)
next
  case (4 w p n res w')
  then show ?case
    using shim_free_call [of "fst w" p n C A]
    by (cases w) (auto simp: fn_Call_guest shim_live_def split: prod.splits if_splits)
next
  case (5 w p d w')
  then show ?case
    using shim_write [of "fst w" p d]
    by (cases w) (auto simp: guest_module_def shim_live_def split: prod.splits if_splits)
next
  case (6 name w ps res w')
  obtain g c where w: "w = (g, c)" by (cases w)
  show ?case
  proof (cases c)
    case False
    then obtain g' where g': "w' = (g', False)" "guest_call C A name ps g = (res, g')"
      using 6(6) w by (auto elim: fn_Call_open)
    have "shim_sound g' \<and> g_blocks g' = g_blocks g"
      by (rule shim_other_call [OF 6(1,2) _ _ _ g'(2)]) (use 6(3-5) w False in \<open>simp_all add: shim_live_def\<close>)
    then show ?thesis using w False g'(1) by (simp add: shim_live_def)
  qed (use 6 w in \<open>auto simp: fn_Call_guest\<close>)
next
  case (7 len g w ps r rs w')
  obtain h c where w: "w = (h, c)" by (cases w)
  have c: "\<not> c" using 7(3) w by (auto simp: fn_Call_guest split: if_splits)
  then obtain h' where h': "w' = (h', False)" "guest_call C A len ps h = (Inr (r # rs), h')"
    using 7(3) w by (auto elim: fn_Call_open)
  from h'(2) obtain n f x where f: "map_of (exports C A) len = Some (n, f)" "f ps h = (Some x, h')" "r = u64 x"
    by (rule guest_call_Inr)
  show ?case
    using len_announced [OF 7(1) f(1,2)] 7(2,4,5) f(3) w h'(1) by (simp add: shim_sound_def)
qed

section \<open>Memory safety of the backend\<close>

text \<open>
  A small instance of the two parameters, for concrete runs: a crate whose documents are flat
  maps of scalars, and an allocator that takes the first address after every live block.
\<close>

type_synonym kv_doc = "(string \<times> ScalarValue) list"

definition kv_crate :: "(kv_doc, unit, unit) automerge" where
  "kv_crate = \<lparr>
     c_root = (), c_new = [],
     c_load = (\<lambda>b. if b = [0] then Some [] else None), c_save = (\<lambda>d. ([0], d)),
     c_merge = (\<lambda>other d. (Inr (), other @ d)), c_fork = (\<lambda>d. (d, d)), c_fork_at = (\<lambda>_ d. (None, d)),
     c_actor_hex = (\<lambda>_. ''00''), c_set_actor = (\<lambda>_ d. d),
     c_put = (\<lambda>_ p v d. case p of PMap k \<Rightarrow> (Inr (), (k, v) # d) | PSeq _ \<Rightarrow> (Inl ''invalid op'', d)),
     c_put_object = (\<lambda>_ _ _ d. (Inl ''invalid op'', d)),
     c_insert = (\<lambda>_ _ _ d. (Inl ''invalid op'', d)), c_insert_object = (\<lambda>_ _ _ d. (Inl ''invalid op'', d)),
     c_get = (\<lambda>_ p d. case p of PMap k \<Rightarrow> map_option (\<lambda>v. (RScalar v, ())) (map_of d k) | PSeq _ \<Rightarrow> None),
     c_delete = (\<lambda>_ p d. (Inr (), filter (\<lambda>e. PMap (fst e) \<noteq> p) d)),
     c_increment = (\<lambda>_ _ _ d. (Inl ''missing counter'', d)),
     c_length = (\<lambda>_ d. length d), c_object_type = (\<lambda>_ _. Some OMap), c_keys = (\<lambda>_ d. remdups (map fst d)),
     c_text = (\<lambda>_ _. None), c_splice_text = (\<lambda>_ _ _ _ d. (Inl ''invalid op'', d)),
     c_mark = (\<lambda>_ _ _ _ _ _ d. (Inl ''invalid op'', d)), c_unmark = (\<lambda>_ _ _ _ _ d. (Inl ''invalid op'', d)),
     c_marks = (\<lambda>_ _. Some [\<lparr>rm_name = ''bold'', rm_value = SBoolean True, rm_start = 0, rm_end = 3\<rparr>]),
     c_spans = (\<lambda>_ _. Some [RSpanText ''a'' None, RSpanBlock [(''type'', HScalar (SStr ''p''))]]),
     c_split_block = (\<lambda>_ _ d. (Inl ''invalid op'', d)), c_join_block = (\<lambda>_ _ d. (Inl ''invalid op'', d)),
     c_replace_block = (\<lambda>_ _ d. (Inl ''invalid op'', d)),
     c_get_cursor = (\<lambda>_ _ _. None), c_cursor_position = (\<lambda>_ _ _. None),
     c_commit_with = (\<lambda>_ _ d. (if d = [] then None else Some (replicate 32 1), d)),
     c_empty_change = (\<lambda>_ _ d. (replicate 32 2, d)),
     c_save_incremental = (\<lambda>d. ([], d)), c_load_incremental = (\<lambda>_ d. (Inr (), d)),
     c_get_heads = (\<lambda>d. (if d = [] then [] else [replicate 32 1], d)),
     c_get_changes = (\<lambda>_ d. (map (\<lambda>e. str_bytes (fst e)) d, d)),
     c_change_by_hash = (\<lambda>_ d. (None, d)), c_parse_change = (\<lambda>_. None), c_apply_change = (\<lambda>_ d. (Inr (), d)),
     f64_to_string = (\<lambda>_. ''0''), c_sync_new = (), c_sync_generate = (\<lambda>s d. (None, s, d)), c_sync_decodable = (\<lambda>_. False),
     c_sync_receive = (\<lambda>_ s d. (Inr (), s, d)), c_sync_encode = (\<lambda>_. [1]), c_sync_decode = (\<lambda>_. Some ())\<rparr>"

definition bump :: allocator where
  "bump bs sz n = (let e = foldr (\<lambda>(p, m) k. max k (unat p + unat m)) bs 8 in (word_of_nat e, max sz (e + unat n)))"

definition kv_start :: "(kv_doc, unit, unit) instance_state" where
  "kv_start = ((fresh_guest 65536)\<lparr>g_doc := Some []\<rparr>, False)"

text \<open>
  C6: For every version of the automerge crate and every allocator, no sequence of backend calls,
  with whatever errors and panics happen on the way, leaks or frees twice a block of guest
  memory, or makes the guest read or write outside a live block.
\<close>

theorem backend_memory_safe:
  assumes "list_all wf_op ops" and "shim_sound (fst w)"
  shows "shim_sound (fst (run_ops (guest_module C A) ops w)) \<and>
    shim_live (run_ops (guest_module C A) ops w) = shim_live w"
  by (rule shim.run_ops_safe [OF assms])

theorem backend_memory_safe_witness:
  "list_all wf_op [OpMapPut 0 ''k'' TagBool [1], OpMapGet 0 ''k'', OpGetChanges [zero_hash]] \<and> shim_sound (fst kv_start) \<and>
   shim_sound (fst (run_ops (guest_module kv_crate bump)
     [OpMapPut 0 ''k'' TagBool [1], OpMapGet 0 ''k'', OpGetChanges [zero_hash]] kv_start)) \<and>
   shim_live (run_ops (guest_module kv_crate bump)
     [OpMapPut 0 ''k'' TagBool [1], OpMapGet 0 ''k'', OpGetChanges [zero_hash]] kv_start) = shim_live kv_start"
proof -
  let ?ops = "[OpMapPut 0 ''k'' TagBool [1], OpMapGet 0 ''k'', OpGetChanges [zero_hash]]"
  have ops: "list_all wf_op ?ops" by (simp add: wf_hash_def zero_hash_def)
  have start: "shim_sound (fst kv_start)" by (simp add: kv_start_def fresh_guest_def shim_sound_def)
  show ?thesis using ops start backend_memory_safe [OF ops start, of kv_crate bump] by simp
qed

end
