(* ===== verification/GuestRefine.thy ===== *)
theory GuestRefine
  imports GuestSafety
begin

text \<open>
  The functional half of the interface: what a backend method computes once the bytes that it
  moves through guest memory are accounted for.

  The core of a guest is its state without linear memory. \<open>memoryless\<close> exports work on the core
  alone. \<open>refines m s\<close> says that the method \<open>m\<close>, run on a sound open instance, returns what the
  computation \<open>s\<close> on the core returns and leaves the core that \<open>s\<close> leaves, unless the guest
  allocator has no room; then the method fails with the error of \<open>alloc\<close>, and the core is either
  untouched or the one that \<open>s\<close> leaves.
\<close>

section \<open>The core of a guest\<close>

definition core :: "('d, 'o, 's) guest \<Rightarrow> ('d, 'o, 's) guest" where
  "core g = g\<lparr>g_mem := (\<lambda>_. 0), g_size := 0, g_blocks := [], g_ub := False\<rparr>"

text \<open>The guest with the memory of \<open>g\<close> and the core of \<open>c\<close>.\<close>

definition with_core :: "('d, 'o, 's) guest \<Rightarrow> ('d, 'o, 's) guest \<Rightarrow> ('d, 'o, 's) guest" where
  "with_core g c = c\<lparr>g_mem := g_mem g, g_size := g_size g, g_blocks := g_blocks g, g_ub := g_ub g\<rparr>"

lemma with_core_self [simp]: "with_core g (core g) = g" "with_core g g = g"
  by (simp_all add: with_core_def core_def)

lemma core_with_core [simp]: "core (with_core g c) = core c" "core (core g) = core g"
  by (simp_all add: with_core_def core_def)

lemma with_core_core [simp]: "with_core g (core c) = with_core g c"
  by (simp add: with_core_def core_def)

lemma core_fields [simp]:
  "g_doc (core g) = g_doc g" "g_table (core g) = g_table g" "g_return_buf (core g) = g_return_buf g"
  "g_last_error (core g) = g_last_error g" "g_sync (core g) = g_sync g" "g_next_peer (core g) = g_next_peer g"
  by (simp_all add: core_def)

lemma with_core_fields [simp]:
  "g_mem (with_core g c) = g_mem g" "g_size (with_core g c) = g_size g"
  "g_blocks (with_core g c) = g_blocks g" "g_ub (with_core g c) = g_ub g"
  "g_return_buf (with_core g c) = g_return_buf c" "g_last_error (with_core g c) = g_last_error c"
  "g_doc (with_core g c) = g_doc c" "g_table (with_core g c) = g_table c"
  by (simp_all add: with_core_def)

lemma core_mem_update [simp]:
  "core (g\<lparr>g_mem := m\<rparr>) = core g" "core (g\<lparr>g_size := n\<rparr>) = core g"
  "core (g\<lparr>g_blocks := b\<rparr>) = core g" "core (g\<lparr>g_ub := u\<rparr>) = core g"
  by (simp_all add: core_def)

lemma core_poke [simp]: "core (poke p d g) = core g"
  by (simp add: poke_def note_access_def)

lemma with_core_update:
  "with_core g c\<lparr>g_doc := d\<rparr> = with_core g (c\<lparr>g_doc := d\<rparr>)"
  "with_core g c\<lparr>g_table := t\<rparr> = with_core g (c\<lparr>g_table := t\<rparr>)"
  "with_core g c\<lparr>g_return_buf := b\<rparr> = with_core g (c\<lparr>g_return_buf := b\<rparr>)"
  "with_core g c\<lparr>g_last_error := e\<rparr> = with_core g (c\<lparr>g_last_error := e\<rparr>)"
  "with_core g c\<lparr>g_sync := s\<rparr> = with_core g (c\<lparr>g_sync := s\<rparr>)"
  "with_core g c\<lparr>g_next_peer := p\<rparr> = with_core g (c\<lparr>g_next_peer := p\<rparr>)"
  by (simp_all add: with_core_def)

definition memoryless :: "('d, 'o, 's) export \<Rightarrow> bool" where
  "memoryless f \<longleftrightarrow> (\<forall>g c. f (with_core g c) = apsnd (with_core g) (f c))"

named_theorems memoryless_intros \<open>exports that work on the core alone\<close>

lemma memorylessD: "memoryless f \<Longrightarrow> f g = apsnd (with_core g) (f (core g))"
  using with_core_self(1) [of g] unfolding memoryless_def by metis

lemma memoryless_reply [memoryless_intros]: "memoryless (reply r)"
  and memoryless_trap [memoryless_intros]: "memoryless trap"
  and memoryless_len [memoryless_intros]: "memoryless return_buf_len"
  and memoryless_error_len [memoryless_intros]: "memoryless am_last_error_len"
  by (simp_all add: memoryless_def reply_def trap_def return_buf_len_def am_last_error_len_def)

lemma memoryless_update [memoryless_intros]:
  "memoryless k \<Longrightarrow> memoryless (\<lambda>g. k (g\<lparr>g_last_error := e\<rparr>))"
  "memoryless k \<Longrightarrow> memoryless (\<lambda>g. k (g\<lparr>g_return_buf := b\<rparr>))"
  "memoryless k \<Longrightarrow> memoryless (\<lambda>g. k (g\<lparr>g_doc := d\<rparr>))"
  "memoryless k \<Longrightarrow> memoryless (\<lambda>g. k (g\<lparr>g_table := t\<rparr>))"
  by (simp_all add: memoryless_def with_core_update)

lemma memoryless_set_return_buf [memoryless_intros]: "memoryless k \<Longrightarrow> memoryless (set_return_buf d k)"
  and memoryless_set_last_error [memoryless_intros]: "memoryless k \<Longrightarrow> memoryless (set_last_error e k)"
  by (simp_all add: memoryless_def set_return_buf_def set_last_error_def with_core_update)

lemma memoryless_prepare [memoryless_intros]: "memoryless (prepare d)"
  unfolding prepare_def by (intro memoryless_intros)

lemma memoryless_with_doc [memoryless_intros]: "(\<And>d. memoryless (f d)) \<Longrightarrow> memoryless (with_doc f none)"
  by (simp add: memoryless_def with_doc_def split: option.splits)

lemma memoryless_with_doc_mut [memoryless_intros]: "(\<And>r. memoryless (k r)) \<Longrightarrow> memoryless (with_doc_mut f k none)"
  by (simp add: memoryless_def with_doc_mut_def with_core_update split: option.splits prod.splits)

lemma memoryless_register_obj [memoryless_intros]: "(\<And>h. memoryless (k h)) \<Longrightarrow> memoryless (register_obj C ob k)"
  by (simp add: memoryless_def register_obj_def with_core_update split: prod.splits)

lemma memoryless_resolve_obj [memoryless_intros]: "(\<And>ob. memoryless (k ob)) \<Longrightarrow> memoryless (resolve_obj C h k bad)"
  by (simp add: memoryless_def resolve_obj_def split: option.splits)

lemma memoryless_if [memoryless_intros]: "memoryless f \<Longrightarrow> memoryless k \<Longrightarrow> memoryless (if b then f else k)"
  by simp

lemma memoryless_mutate [memoryless_intros]: "memoryless (mutate f)" "memoryless (mutate_msg f a b)"
  unfolding mutate_def mutate_msg_def by (auto intro!: memoryless_intros split: sum.splits)

lemma memoryless_put_object_reply [memoryless_intros]: "memoryless (put_object_reply C f)"
  unfolding put_object_reply_def by (auto intro!: memoryless_intros split: sum.splits)

lemma memoryless_prepare_value [memoryless_intros]: "memoryless (prepare_value C r)"
  unfolding prepare_value_def by (auto intro!: memoryless_intros split: option.splits rvalue.splits)

lemma memoryless_init_doc [memoryless_intros]: "memoryless (\<lambda>g. (Some r, init_doc d g))"
  by (simp add: memoryless_def init_doc_def with_core_update)

section \<open>Bytes in guest memory\<close>

text \<open>The bytes \<open>d\<close> stand in the live block at \<open>p\<close>; nothing is written for the empty string.\<close>

definition holds_at :: "('d, 'o, 's) guest \<Rightarrow> uint32 \<Rightarrow> uint32 \<Rightarrow> bytes \<Rightarrow> bool" where
  "holds_at g p n d \<longleftrightarrow> (if d = [] then p = 0 \<and> n = 0
     else p \<noteq> 0 \<and> (p, n) \<in> set (g_blocks g) \<and> unat n = length d \<and> read_mem (unat p) (length d) (g_mem g) = d)"

lemma holds_at_null: "holds_at g p n d \<Longrightarrow> (p = 0) = (d = []) \<and> (n = 0) = (d = []) \<and> unat n = length d"
  by (auto simp: holds_at_def split: if_splits)

lemma holds_at_ptr: "holds_at g p n d \<Longrightarrow> p = 0 \<longleftrightarrow> d = []" "holds_at g p n d \<Longrightarrow> n = 0 \<longleftrightarrow> d = []"
  by (auto dest: holds_at_null)

lemma holds_at_covers: "holds_at g p n d \<Longrightarrow> d \<noteq> [] \<Longrightarrow> covers (g_blocks g) p (length d)"
  by (force simp: holds_at_def covers_def)

lemma u64_0 [simp]: "u64 0 = 0" and u32_0 [simp]: "u32 0 = 0"
  by (simp_all add: u64_def u32_def)

lemma with_slice_holds: "holds_at g p n d \<Longrightarrow> d \<noteq> [] \<Longrightarrow> with_slice p (unat n) k g = k d g"
  using holds_at_covers [of g p n d] by (auto simp: with_slice_def holds_at_def note_access_def)

lemma with_utf8_holds:
  "holds_at g p n (str_bytes s) \<Longrightarrow> s \<noteq> [] \<Longrightarrow>
   with_utf8 p n k bad g = (if utf8_valid (str_bytes s) then k s g else reply bad g)"
  unfolding with_utf8_def by (subst with_slice_holds) auto

lemma with_opt_slice_holds: "holds_at g p n d \<Longrightarrow> with_opt_slice p n k g = k d g"
  by (cases "d = []") (auto simp: with_opt_slice_def with_slice_holds dest: holds_at_null)

lemma holds_at_with_core [simp]: "holds_at (with_core g c) p n d = holds_at g p n d"
  by (simp add: holds_at_def)

text \<open>\<open>extends g g'\<close>: everything that stood in live blocks of \<open>g\<close> still stands there in \<open>g'\<close>.\<close>

definition extends :: "('d, 'o, 's) guest \<Rightarrow> ('d, 'o, 's) guest \<Rightarrow> bool" where
  "extends g g' \<longleftrightarrow> shim_sound g' \<and> (\<forall>p n d. holds_at g p n d \<longrightarrow> holds_at g' p n d)"

lemma extends_holds: "extends g g' \<Longrightarrow> holds_at g p n d \<Longrightarrow> holds_at g' p n d"
  by (simp add: extends_def)

lemma extends_trans: "extends g g' \<Longrightarrow> extends g' g'' \<Longrightarrow> extends g g''"
  by (simp add: extends_def)

lemma extends_refl: "shim_sound g \<Longrightarrow> extends g g"
  by (simp add: extends_def)

section \<open>Runs of backend code\<close>

definition runs ::
  "('d, 'o, 's) guest \<Rightarrow> (('d, 'o, 's) instance_state, 'a) comp \<Rightarrow> ('a outcome \<Rightarrow> ('d, 'o, 's) guest \<Rightarrow> bool) \<Rightarrow> bool"
where
  "runs g m Q \<longleftrightarrow> (\<exists>r g'. m (g, False) = (r, (g', False)) \<and> g_blocks g' = g_blocks g \<and> extends g g' \<and> Q r (core g'))"

named_theorems runs_intros \<open>the rules for \<open>runs\<close>\<close>

lemma runs_ret: "shim_sound g \<Longrightarrow> Q (Ok x) (core g) \<Longrightarrow> runs g (ret x) Q"
  and runs_fail: "shim_sound g \<Longrightarrow> Q (Error e) (core g) \<Longrightarrow> runs g (fail e) Q"
  and runs_lift: "shim_sound g \<Longrightarrow> Q r (core g) \<Longrightarrow> runs g (lift r) Q"
  by (simp_all add: runs_def ret_def fail_def lift_def extends_refl)

lemma runs_conseq: "runs g m P \<Longrightarrow> (\<And>r c. P r c \<Longrightarrow> Q r c) \<Longrightarrow> runs g m Q"
  unfolding runs_def by blast

lemma runs_andThen:
  assumes "runs g m P"
    and "\<And>x g'. extends g g' \<Longrightarrow> P (Ok x) (core g') \<Longrightarrow> g_blocks g' = g_blocks g \<Longrightarrow> runs g' (f x) Q"
    and "\<And>e c. P (Error e) c \<Longrightarrow> Q (Error e) c" and "\<And>e c. P (Panic e) c \<Longrightarrow> Q (Panic e) c"
  shows "runs g (andThen m f) Q"
proof -
  obtain r g' where m: "m (g, False) = (r, (g', False))" "g_blocks g' = g_blocks g" "extends g g'" "P r (core g')"
    using assms(1) by (auto simp: runs_def)
  show ?thesis
  proof (cases r)
    case (Ok x)
    then have "runs g' (f x) Q" using assms(2) m(2-4) by simp
    then obtain r2 g2 where "f x (g', False) = (r2, (g2, False))" "g_blocks g2 = g_blocks g'"
      "extends g' g2" "Q r2 (core g2)" by (auto simp: runs_def)
    then show ?thesis using m Ok extends_trans by (auto simp: runs_def andThen_def)
  next
    case (Error e)
    then show ?thesis using m assms(3) by (auto simp: runs_def andThen_def)
  next
    case (Panic e)
    then show ?thesis using m assms(4) by (auto simp: runs_def andThen_def)
  qed
qed

lemma call_open:
  assumes "guest_call C A name ps g = (res, g')" and "ExportedFunction (guest_module C A) name"
  shows "call (guest_module C A) name ps (g, False) =
    ((case res of Inl e \<Rightarrow> Error e | Inr rs \<Rightarrow> Ok rs), (g', False))"
  using assms by (simp add: call_def guest_module_def split: sum.splits)

lemma exported: "map_of (exports C A) name = Some nf \<Longrightarrow> ExportedFunction (guest_module C A) name"
  by (force simp: guest_module_def dest: map_of_SomeD)

text \<open>The export under a name, on given parameters and in a given state, is the computation \<open>k\<close>.\<close>

definition exported_as ::
  "('d, 'o, 's) automerge \<Rightarrow> allocator \<Rightarrow> string \<Rightarrow> uint64 list \<Rightarrow> ('d, 'o, 's) export \<Rightarrow> ('d, 'o, 's) guest \<Rightarrow> bool"
where
  "exported_as C A name ps k g = (name \<noteq> ''am_free'' \<and> (case map_of (exports C A) name of
     None \<Rightarrow> False | Some (n, f) \<Rightarrow> n = length ps \<and> f ps g = k g))"

lemma exported_as_call:
  assumes "exported_as C A name ps k g"
  shows "guest_call C A name ps g = (case k g of
      (None, g') \<Rightarrow> (Inl trap_error, g') | (Some r, g') \<Rightarrow> (Inr [u64 r], g'))"
    and "ExportedFunction (guest_module C A) name"
  using assms by (auto simp: exported_as_def guest_call_def exported split: option.splits prod.splits)

lemma exported_mem [simp]:
  "ExportedFunction (guest_module C A) ''am_alloc''" "ExportedFunction (guest_module C A) ''am_free''"
  by (simp_all add: guest_module_def exports_def)

text \<open>Calling an export that turns out to work on the core.\<close>

fun answer :: "uint32 option \<Rightarrow> uint64 outcome" where
  "answer (Some r) = Ok (u64 r)"
| "answer None = Error trap_error"

lemma runs_call0:
  assumes "shim_sound g" and "exported_as C A name ps k g" and "memoryless k" and "\<And>H. calm H k"
    and "Q (answer (fst (k (core g)))) (core (snd (k (core g))))"
  shows "runs g (call0 (guest_module C A) name ps) Q"
proof -
  obtain r c where c: "k (core g) = (r, c)" by (cases "k (core g)")
  then have k: "k g = (r, with_core g c)" using memorylessD [OF assms(3), of g] by simp
  have "shim_sound (with_core g c)"
    using sound_at_heap [OF assms(1) calmD [OF assms(4) at_heap_sound [OF assms(1)]]] k by simp
  then have "extends g (with_core g c)" by (simp add: extends_def)
  moreover have "guest_call C A name ps g = (case r of None \<Rightarrow> Inl trap_error | Some r \<Rightarrow> Inr [u64 r], with_core g c)"
    using exported_as_call(1) [OF assms(2)] k by (simp split: option.splits)
  ultimately show ?thesis
    using assms(5) c call_open [OF _ exported_as_call(2) [OF assms(2)]]
    by (cases r) (simp_all add: runs_def call0_def andThen_def lift_def)
qed

text \<open>The case distinction after a call.\<close>

lemma runs_after_call:
  assumes "shim_sound g" and "exported_as C A name ps k g" and "memoryless k" and "\<And>H. calm H k"
    and "\<And>a c g'. k (core g) = (Some a, c) \<Longrightarrow> shim_sound g' \<Longrightarrow> core g' = core c \<Longrightarrow> g_blocks g' = g_blocks g \<Longrightarrow>
      runs g' (f (u64 a)) Q"
    and "\<And>c. k (core g) = (None, c) \<Longrightarrow> Q (Error trap_error) (core c)"
  shows "runs g (andThen (call0 (guest_module C A) name ps) f) Q"
proof -
  let ?P = "\<lambda>r c. (r, c) = (answer (fst (k (core g))), core (snd (k (core g))))"
  obtain o1 c1 where c1: "k (core g) = (o1, c1)" by (cases "k (core g)")
  show ?thesis
  proof (rule runs_andThen [where P = ?P])
    show "runs g (call0 (guest_module C A) name ps) ?P" by (rule runs_call0 [OF assms(1-4)]) simp
    show "runs g' (f x) Q" if "extends g g'" "?P (Ok x) (core g')" "g_blocks g' = g_blocks g" for x g'
      using that assms(5) c1 by (cases o1) (auto simp: extends_def)
    show "Q (Error e) c" if "?P (Error e) c" for e c using that assms(6) c1 by (cases o1) auto
    show "Q (Panic e) c" if "?P (Panic e) c" for e c using that c1 by (cases o1) auto
  qed
qed

section \<open>Blocks\<close>

lemma read_write_mem [simp]: "read_mem p (length d) (write_mem p d m) = d"
  by (rule nth_equalityI) (simp_all add: read_mem_def write_mem_def)

lemma read_write_disjoint:
  "q + k \<le> p \<or> p + length d \<le> q \<Longrightarrow> read_mem q k (write_mem p d m) = read_mem q k m"
  by (auto simp: read_mem_def write_mem_def)

text \<open>The allocator refuses a request with the blocks \<open>bs\<close> live in a memory of some size.\<close>

definition refuses :: "allocator \<Rightarrow> block list \<Rightarrow> uint32 \<Rightarrow> bool" where
  "refuses A bs n \<longleftrightarrow> (\<exists>sz. sz \<le> 2 ^ 32 \<and> wf_blocks sz bs \<and> (\<not> fits bs sz n (A bs sz n) \<or> fst (A bs sz n) = 0))"

lemma alloc_open:
  assumes "shim_sound g" and "n \<noteq> 0"
  obtains (room) p g' where "alloc (guest_module C A) n (g, False) = (Ok p, (g', False))"
      "p \<noteq> 0" "g_blocks g' = (p, n) # g_blocks g" "g_mem g' = g_mem g" "core g' = core g" "shim_sound g'"
  | (full) g' where "alloc (guest_module C A) n (g, False) = (Error (alloc_null n), (g', False))"
      "g_blocks g' = g_blocks g" "g_mem g' = g_mem g" "core g' = core g" "shim_sound g'"
      "refuses A (g_blocks g) n"
proof -
  obtain r g' where a: "am_alloc A n g = (Some r, g')"
    by (cases "fst (am_alloc A n g)"; cases "am_alloc A n g") (auto simp: am_alloc_def Let_def split: if_splits)
  have gc: "guest_call C A ''am_alloc'' [u64 n] g = (Inr [u64 r], g')"
    using a by (simp add: guest_call_def exports_def)
  have sound: "shim_sound g'" using shim_alloc_call [OF assms(1) gc] by blast
  have al: "alloc (guest_module C A) n (g, False) = (if r = 0 then Error (alloc_null n) else Ok r, (g', False))"
    using call_open [OF gc] assms(2)
    by (simp add: alloc_def call0_def andThen_def lift_def Let_def fail_def ret_def word_neq_0_conv)
  have same: "g_mem g' = g_mem g" "core g' = core g" "g_blocks g' = (if r = 0 then g_blocks g else (r, n) # g_blocks g)"
    using a by (auto simp: am_alloc_def Let_def split: if_splits)
  have refused: "refuses A (g_blocks g) n" if "r = 0"
    unfolding refuses_def
    by (rule exI [of _ "g_size g"]) (use a assms that in \<open>auto simp: am_alloc_def shim_sound_def Let_def split: if_splits\<close>)
  show ?thesis
    by (cases "r = 0") (use room full al same sound refused in auto)
qed

lemma free_head:
  assumes "shim_sound g" and "g_blocks g = (p, n) # bs" and "p \<noteq> 0" and "n \<noteq> 0"
  shows "free (guest_module C A) p n (g, False) = (g\<lparr>g_blocks := bs\<rparr>, False)" and "shim_sound (g\<lparr>g_blocks := bs\<rparr>)"
proof -
  have gc: "guest_call C A ''am_free'' [u64 p, u64 n] g = (Inr [], g\<lparr>g_blocks := bs\<rparr>)"
    using assms by (simp add: guest_call_def am_free_def)
  then show "free (guest_module C A) p n (g, False) = (g\<lparr>g_blocks := bs\<rparr>, False)"
    using call_open [OF gc] assms(3,4) by (simp add: free_def)
  show "shim_sound (g\<lparr>g_blocks := bs\<rparr>)"
    using shim_free_call [OF assms(1) _ gc] assms(2) by simp
qed

lemma holds_at_disjoint:
  assumes "shim_sound g" and "g_blocks g = (p, n) # bs" and "holds_at (g\<lparr>g_blocks := bs\<rparr>) q m d" and "length b = unat n"
  shows "holds_at (g\<lparr>g_blocks := bs, g_mem := write_mem (unat p) b (g_mem g)\<rparr>) q m d"
proof (cases "d = []")
  case False
  then have q: "(q, m) \<in> set bs" "unat m = length d" using assms(3) by (auto simp: holds_at_def)
  have "list_all (\<lambda>(q, m). unat p + unat n \<le> unat q \<or> unat q + unat m \<le> unat p) bs"
    using assms(1,2) by (simp add: shim_sound_def)
  then have "unat p + length b \<le> unat q \<or> unat q + length d \<le> unat p"
    using q assms(4) by (auto simp: list_all_iff)
  then show ?thesis
    using assms(3) False read_write_disjoint [of "unat q" "length d" "unat p" b] by (auto simp: holds_at_def)
qed (use assms(3) in \<open>simp add: holds_at_def\<close>)

text \<open>Filling the block on top and giving it back.\<close>

lemma poke_top:
  assumes "shim_sound g" and "g_blocks g = (p, n) # bs" and "length d = unat n" and "p \<noteq> 0" and "d \<noteq> []"
  shows "poke p d g = g\<lparr>g_mem := write_mem (unat p) d (g_mem g)\<rparr>" and "shim_sound (poke p d g)"
    and "holds_at (poke p d g) p n d" and "extends (g\<lparr>g_blocks := bs\<rparr>) (poke p d g)"
    and "unat p + length d \<le> g_size g"
proof -
  have n: "word_of_nat (length d) = n" using assms(3) by simp
  have "wf_blocks (g_size g) (g_blocks g)" using assms(1) by (simp add: shim_sound_def)
  then show size: "unat p + length d \<le> g_size g" using assms(2,3) by simp
  have "covers (g_blocks g) p (length d)" using assms(2,3) by (force simp: covers_def)
  then show eq: "poke p d g = g\<lparr>g_mem := write_mem (unat p) d (g_mem g)\<rparr>"
    by (simp add: poke_def note_access_def)
  show sound: "shim_sound (poke p d g)"
    using shim_write [OF assms(1) _ size] assms(2) n by simp
  show "holds_at (poke p d g) p n d"
    using assms(2,4,5) read_write_mem [of "unat p" d "g_mem g"] assms(3) by (simp add: eq holds_at_def)
  have "holds_at (poke p d g) q m b" if "holds_at (g\<lparr>g_blocks := bs\<rparr>) q m b" for q m b
    using holds_at_disjoint [OF assms(1,2) that assms(3)] assms(2) by (auto simp: eq holds_at_def)
  then show "extends (g\<lparr>g_blocks := bs\<rparr>) (poke p d g)" using sound by (simp add: extends_def)
qed

lemma extends_blocks: "g_blocks g' = g_blocks g \<Longrightarrow> g_mem g' = g_mem g \<Longrightarrow> shim_sound g' \<Longrightarrow> extends g g'"
  by (auto simp: extends_def holds_at_def)

lemma writeBytes_open:
  assumes "shim_sound g" and "length d < 2 ^ 32"
  obtains (none) "d = []" "writeBytes (guest_module C A) d (g, False) = (Ok (0, 0), (g, False))"
  | (room) p n g' where "writeBytes (guest_module C A) d (g, False) = (Ok (p, n), (g', False))"
      "p \<noteq> 0" "n \<noteq> 0" "g_blocks g' = (p, n) # g_blocks g" "core g' = core g" "holds_at g' p n d" "extends g g'"
  | (full) n g' where "writeBytes (guest_module C A) d (g, False) = (Error (alloc_null n), (g', False))"
      "g_blocks g' = g_blocks g" "core g' = core g" "extends g g'" "d \<noteq> []" "unat n = length d"
      "refuses A (g_blocks g) n"
proof (cases "d = []")
  case True
  then show ?thesis using none by (simp add: writeBytes_def Let_def ret_def)
next
  case False
  let ?n = "word_of_nat (length d) :: uint32"
  have n: "unat ?n = length d" using assms(2) by (simp add: unat_word_of_nat_less)
  have n0: "?n \<noteq> 0" using n False by (metis length_0_conv unat_0)
  have wb: "writeBytes (guest_module C A) d = andThen (alloc (guest_module C A) ?n) (\<lambda>ptr.
        andThen (mem_write (guest_module C A) ptr d) (\<lambda>ok.
          if \<not> ok then deferred (free (guest_module C A) ptr ?n) (fail (write_failed ptr ?n)) else ret (ptr, ?n)))"
    using n0 by (simp add: writeBytes_def Let_def)
  from assms(1) n0 show ?thesis
  proof (cases rule: alloc_open [where C = C and A = A])
    case (room p g1)
    note top = poke_top [OF room(6,3) n [symmetric] room(2) False]
    have "g1\<lparr>g_blocks := g_blocks g\<rparr> = with_core (g1\<lparr>g_blocks := g_blocks g\<rparr>) g1" by (simp add: with_core_def)
    have "extends g (poke p d g1)"
    proof -
      have "holds_at (g1\<lparr>g_blocks := g_blocks g\<rparr>) q m b" if "holds_at g q m b" for q m b
        using that room(4) by (auto simp: holds_at_def split: if_splits)
      then show ?thesis using top(4) by (simp add: extends_def)
    qed
    moreover have "writeBytes (guest_module C A) d (g, False) = (Ok (p, ?n), (poke p d g1, False))"
      using room(1) top(5) unfolding wb
      by (simp add: andThen_def mem_write_def guest_module_def ret_def)
    ultimately show ?thesis
      using that(2) [of p ?n "poke p d g1"] room n0 top(3) by (simp add: top(1))
  next
    case (full g1)
    have "extends g g1" by (rule extends_blocks [OF full(2,3,5)])
    moreover have "writeBytes (guest_module C A) d (g, False) = (Error (alloc_null ?n), (g1, False))"
      using full(1) unfolding wb by (simp add: andThen_def)
    ultimately show ?thesis using that(3) full n False by blast
  qed
qed

lemma runs_withBytes:
  assumes "shim_sound g" and "length d < 2 ^ 32"
    and "\<And>p n g'. extends g g' \<Longrightarrow> core g' = core g \<Longrightarrow> holds_at g' p n d \<Longrightarrow>
      g_blocks g' = (if d = [] then g_blocks g else (p, n) # g_blocks g) \<Longrightarrow> runs g' (body p n) Q"
    and "\<And>n. d \<noteq> [] \<Longrightarrow> unat n = length d \<Longrightarrow> refuses A (g_blocks g) n \<Longrightarrow> Q (Error (alloc_null n)) (core g)"
  shows "runs g (withBytes (guest_module C A) d body) Q"
  using assms(1,2)
proof (cases rule: writeBytes_open [where C = C and A = A])
  case none
  have "runs g (body 0 0) Q" using assms(1,3) none(1) by (simp add: extends_refl holds_at_def)
  then show ?thesis
    using none by (auto simp: runs_def withBytes_def andThen_def deferred_def free_def)
next
  case (room p n g1)
  have "d \<noteq> []" using room(2,6) by (auto simp: holds_at_def)
  then have "runs g1 (body p n) Q" using assms(3) room by simp
  then obtain r g2 where b: "body p n (g1, False) = (r, (g2, False))" "g_blocks g2 = (p, n) # g_blocks g"
    "extends g1 g2" "Q r (core g2)" using room(4) by (auto simp: runs_def)
  have sound: "shim_sound g2" using b(3) by (simp add: extends_def)
  note fr = free_head(1) [OF sound b(2) room(2,3), of C A] free_head(2) [OF sound b(2) room(2,3)]
  have "extends g (g2\<lparr>g_blocks := g_blocks g\<rparr>)"
  proof -
    have "holds_at (g2\<lparr>g_blocks := g_blocks g\<rparr>) q m x" if "holds_at g q m x" for q m x
      using extends_holds [OF extends_trans [OF room(7) b(3)] that] that
      by (auto simp: holds_at_def split: if_splits)
    then show ?thesis using fr(2) by (simp add: extends_def)
  qed
  then show ?thesis
    using room(1) b fr by (simp add: runs_def withBytes_def andThen_def deferred_def)
next
  case (full n g1)
  then show ?thesis using assms(4) by (simp add: runs_def withBytes_def andThen_def)
qed

text \<open>
  The second phase: the getter copies the prepared buffer into the block, and Go reads it back.
\<close>

definition fills ::
  "('d, 'o, 's) automerge \<Rightarrow> allocator \<Rightarrow> string \<Rightarrow> uint64 list \<Rightarrow> uint32 \<Rightarrow> bytes \<Rightarrow> ('d, 'o, 's) guest \<Rightarrow> bool" where
  "fills C A name ps p b g \<longleftrightarrow> ExportedFunction (guest_module C A) name \<and>
     guest_call C A name ps g = (Inr [0], poke p b g)"

lemma runs_fill:
  assumes "shim_sound g" and "n \<noteq> 0" and "unat n = length b"
    and "\<And>p g'. p \<noteq> 0 \<Longrightarrow> core g' = core g \<Longrightarrow> fills C A name (ps p) p b g'"
    and "Q (h b) (core g)" and "refuses A (g_blocks g) n \<Longrightarrow> Q (Error (alloc_null n)) (core g)"
    and "\<And>ptr g1 g2. call (guest_module C A) name (ps ptr) (g1, False) = (Ok [0], (g2, False)) \<Longrightarrow>
       body ptr (g1, False) = andThen (readBytes (guest_module C A) ptr n) (\<lambda>d. lift (h d)) (g2, False)"
  shows "runs g (withAlloc (guest_module C A) n body) Q"
  using assms(1,2)
proof (cases rule: alloc_open [where C = C and A = A])
  case (room p g1)
  let ?b = b
  have len: "length ?b = unat n" "?b \<noteq> []" using assms(2,3) by (auto simp: unat_eq_zero)
  note top = poke_top [OF room(6,3) len(1) room(2) len(2)]
  have f: "fills C A name (ps p) p b g1" using assms(4) room(2,5) by blast
  then have "call (guest_module C A) name (ps p) (g1, False) = (Ok [0], (poke p ?b g1, False))"
    using call_open [of C A name "ps p" g1] by (simp add: fills_def)
  note body = assms(7) [OF this]
  have "read_mem (unat p) (unat n) (g_mem (poke p ?b g1)) = ?b"
    using read_write_mem [of "unat p" ?b "g_mem g1"] len(1) by (simp add: top(1))
  moreover have "unat p + unat n \<le> g_size (poke p ?b g1)" using top(5) len(1) by (simp add: top(1))
  ultimately have "readBytes (guest_module C A) p n (poke p ?b g1, False) = (Ok ?b, (poke p ?b g1, False))"
    using assms(2) by (simp add: readBytes_def guest_module_def)
  then have "body p (g1, False) = (h ?b, (poke p ?b g1, False))"
    unfolding body by (simp add: andThen_def lift_def)
  moreover have bl: "g_blocks (poke p ?b g1) = (p, n) # g_blocks g" using room(3) by (simp add: top(1))
  note fr = free_head(1) [OF top(2) bl room(2) assms(2), of C A] free_head(2) [OF top(2) bl room(2) assms(2)]
  have "extends g (poke p ?b g1\<lparr>g_blocks := g_blocks g\<rparr>)"
  proof -
    have "holds_at (poke p ?b g1\<lparr>g_blocks := g_blocks g\<rparr>) q m x" if "holds_at g q m x" for q m x
    proof -
      have "holds_at (g1\<lparr>g_blocks := g_blocks g\<rparr>) q m x" using that room(4) by (auto simp: holds_at_def split: if_splits)
      from extends_holds [OF top(4) this] that show ?thesis by (auto simp: holds_at_def split: if_splits)
    qed
    then show ?thesis using fr(2) by (simp add: extends_def)
  qed
  ultimately show ?thesis
    using room(1,5) fr(1) assms(5) by (simp add: runs_def withAlloc_def andThen_def deferred_def top(1))
next
  case (full g1)
  have "extends g g1" by (rule extends_blocks [OF full(2,3,5)])
  then show ?thesis using full assms(6) by (simp add: runs_def withAlloc_def andThen_def)
qed

section \<open>The shape of most methods\<close>

lemma fills_copy_out:
  assumes "exported_as C A name ps (copy_out p) g" and "p \<noteq> 0" and "g_return_buf g \<noteq> []"
  shows "fills C A name ps p (g_return_buf g) g"
  using exported_as_call [OF assms(1)] assms(2,3)
  by (simp add: fills_def copy_out_def copy_return_buf_def reply_def)

text \<open>What a two-phase method computes from the export \<open>k\<close> that prepares its data.\<close>

definition fetched ::
  "('d, 'o, 's) export \<Rightarrow> 'a outcome \<Rightarrow> (bytes \<Rightarrow> 'a outcome) \<Rightarrow> (('d, 'o, 's) guest, 'a) comp" where
  "fetched k none h = (\<lambda>c. case k c of
     (None, c') \<Rightarrow> (Error trap_error, c')
   | (Some r, c') \<Rightarrow> (if r = 0 then none else h (g_return_buf c'), c'))"

text \<open>
  The outcome of a method: that of \<open>s\<close>, or no room in guest memory. Without room, a method that
  wants to report the message of the guest reports its own error instead.
\<close>

definition guest_message :: "string \<Rightarrow> go_error" where
  "guest_message m = Errorf ''%s'' [AStr m]"

definition no_room :: "'a outcome \<Rightarrow> 'a outcome \<Rightarrow> bool" where
  "no_room r s \<longleftrightarrow> (\<exists>n. r = Error (alloc_null n)) \<or> (\<exists>m e. s = Error (guest_message m) \<and> r = Error e)"

lemma no_room_alloc [simp]: "no_room (Error (alloc_null n)) s"
  by (auto simp: no_room_def)

text \<open>
  When there is room. An allocator is roomy for \<open>N\<close> when it refuses no request of up to \<open>N\<close> bytes
  with at most two blocks of up to \<open>N\<close> bytes live: no method needs more. The data that the guest
  holds ready must have up to \<open>N\<close> bytes as well.
\<close>

definition tight :: "uint32 \<Rightarrow> nat \<Rightarrow> block list \<Rightarrow> bool" where
  "tight N j bs \<longleftrightarrow> length bs \<le> j \<and> list_all (\<lambda>(p, m). m \<le> N) bs"

definition roomy :: "allocator \<Rightarrow> uint32 \<Rightarrow> bool" where
  "roomy A N \<longleftrightarrow> (\<forall>bs n. tight N 2 bs \<longrightarrow> n \<noteq> 0 \<longrightarrow> n \<le> N \<longrightarrow> \<not> refuses A bs n)"

definition small :: "uint32 \<Rightarrow> ('d, 'o, 's) guest \<Rightarrow> bool" where
  "small N c \<longleftrightarrow> length (g_return_buf c) \<le> unat N \<and> length (g_last_error c) \<le> unat N"

definition room_for :: "allocator \<Rightarrow> uint32 \<Rightarrow> nat \<Rightarrow> block list \<Rightarrow> ('d, 'o, 's) guest \<Rightarrow> bool" where
  "room_for A N j bs c \<longleftrightarrow> roomy A N \<and> tight N j bs \<and> small N c"

lemma room_for_request: "room_for A N j bs c \<Longrightarrow> j \<le> 2 \<Longrightarrow> n \<noteq> 0 \<Longrightarrow> unat n \<le> unat N \<Longrightarrow> \<not> refuses A bs n"
  by (auto simp: room_for_def roomy_def tight_def word_le_nat_alt)

lemma room_for_push: "room_for A N j bs c \<Longrightarrow> unat n \<le> unat N \<Longrightarrow> room_for A N (Suc j) ((p, n) # bs) c"
  and room_for_Suc: "room_for A N j bs c \<Longrightarrow> room_for A N (Suc j) bs c"
  by (auto simp: room_for_def tight_def word_le_nat_alt)

lemma unat_bounded: "n \<le> unat (N :: uint32) \<Longrightarrow> n < 2 ^ 32"
  using unsigned_less [of N, where ?'a = nat] by simp

lemma small_core: "core c = core c' \<Longrightarrow> small N c = small N c'"
  using core_fields(3,4) [of c] by (simp add: small_def)

text \<open>\<open>as_spec A N j s g r c\<close>: a method that starts in \<open>g\<close>, with \<open>j\<close> blocks live at most, behaves like \<open>s\<close>.\<close>

definition as_spec ::
  "allocator \<Rightarrow> uint32 \<Rightarrow> nat \<Rightarrow> 'a outcome \<times> ('d, 'o, 's) guest \<Rightarrow> ('d, 'o, 's) guest \<Rightarrow> 'a outcome \<Rightarrow> ('d, 'o, 's) guest \<Rightarrow> bool"
where
  "as_spec A N j s g r c \<longleftrightarrow> (r, c) = (fst s, core (snd s)) \<or>
     \<not> room_for A N j (g_blocks g) (snd s) \<and> no_room r (fst s) \<and> (c = core g \<or> c = core (snd s))"

definition refines ::
  "allocator \<Rightarrow> uint32 \<Rightarrow> (('d, 'o, 's) instance_state, 'a) comp \<Rightarrow> (('d, 'o, 's) guest, 'a) comp \<Rightarrow> bool" where
  "refines A N m s \<longleftrightarrow> (\<forall>g. shim_sound g \<longrightarrow> runs g m (as_spec A N 0 (s (core g)) g))"

lemma runs_two_phase:
  assumes sound: "shim_sound g" and ex: "exported_as C A name ps k g"
    and k: "memoryless k" "\<And>H. calm H k" "announces ((=) 0) k"
    and fills: "\<And>p a c g'. k (core g) = (Some a, c) \<Longrightarrow> a \<noteq> 0 \<Longrightarrow> g_return_buf c \<noteq> [] \<Longrightarrow> p \<noteq> 0 \<Longrightarrow> core g' = core c \<Longrightarrow>
      fills C A get (gps p) p (g_return_buf c) g'"
    and body: "\<And>n ptr g1 g2. call (guest_module C A) get (gps ptr) (g1, False) = (Ok [0], (g2, False)) \<Longrightarrow>
      body n ptr (g1, False) = andThen (readBytes (guest_module C A) ptr n) (\<lambda>d. lift (h d)) (g2, False)"
    and none: "none = lift x" and j: "j \<le> 2"
  shows "runs g (andThen (call0 (guest_module C A) name ps) (\<lambda>r. let n = u32 r in
      if n = 0 then none else withAlloc (guest_module C A) n (body n))) (as_spec A N j (fetched k x h (core g)) g)"
proof (rule runs_after_call [OF sound ex k(1,2)])
  let ?s = "fetched k x h (core g)"
  fix a c g' assume a: "k (core g) = (Some a, c)" and g': "shim_sound g'" "core g' = core c" "g_blocks g' = g_blocks g"
  show "runs g' (let n = u32 (u64 a) in if n = 0 then none else withAlloc (guest_module C A) n (body n)) (as_spec A N j ?s g)"
  proof (cases "a = 0")
    case True
    then show ?thesis using a g' by (auto simp: none fetched_def as_spec_def intro!: runs_lift)
  next
    case False
    have len: "unat a = length (g_return_buf c)" using k(3) a False by (auto simp: announces_def)
    have buf: "g_return_buf c \<noteq> []" using len False by (auto simp: unat_eq_zero)
    have s: "?s = (h (g_return_buf c), c)" using a False by (simp add: fetched_def)
    have "runs g' (withAlloc (guest_module C A) a (body a)) (as_spec A N j ?s g)"
    proof (rule runs_fill [OF g'(1) False len, where name = get and ps = gps and h = h])
      fix p h' assume "p \<noteq> (0 :: uint32)" "core h' = core g'"
      then show "fills C A get (gps p) p (g_return_buf c) h'" using fills a False buf g'(2) by simp
    next
      assume "refuses A (g_blocks g') a"
      then have "\<not> room_for A N j (g_blocks g) (snd ?s)"
        using room_for_request [OF _ j False, of A N "g_blocks g" "snd ?s"] g'(3) len by (auto simp: s room_for_def small_def)
      then show "as_spec A N j ?s g (Error (alloc_null a)) (core g')" by (simp add: as_spec_def s g'(2))
    qed (use body in \<open>auto simp: s g'(2) as_spec_def\<close>)
    then show ?thesis using False by simp
  qed
qed (simp add: as_spec_def fetched_def)

lemma runs_fetch:
  assumes sound: "shim_sound g" and ex: "exported_as C A name ps k g"
    and k: "memoryless k" "\<And>H. calm H k" "announces ((=) 0) k"
    and get: "\<And>p g. exported_as C A get (gps p) (copy_out p) g"
    and none: "none = lift x" and some: "\<And>d. some d = lift (h d)" and j: "j \<le> 2"
  shows "runs g (fetch (guest_module C A) name ps get gps none some) (as_spec A N j (fetched k x h (core g)) g)"
proof -
  have some': "some = (\<lambda>d. lift (h d))" using some by auto
  have fills: "fills C A get (gps p) p (g_return_buf c) g'"
    if "g_return_buf c \<noteq> []" "p \<noteq> 0" "core g' = core c" for p and c g' :: "('a, 'b, 'c) guest"
  proof -
    have "g_return_buf g' = g_return_buf c" using core_fields(3) [of g'] that(3) by simp
    then show ?thesis using fills_copy_out [OF get that(2), of g'] that(1) by simp
  qed
  show ?thesis
    unfolding fetch_def
    by (rule runs_two_phase [OF sound ex k _ _ none j, where get = get and gps = gps])
      (use fills in \<open>auto simp: andThen_def some'\<close>)
qed

text \<open>Handing bytes to an export, and a method that only looks at the return code.\<close>

lemma runs_bytes:
  assumes "shim_sound g" and "length d \<le> unat N" and j: "j \<le> 2"
    and "\<And>p n g'. shim_sound g' \<Longrightarrow> extends g g' \<Longrightarrow> holds_at g' p n d \<Longrightarrow>
      runs g' (body p n) (as_spec A N (Suc j) (s (core g')) g')"
  shows "runs g (withBytes (guest_module C A) d body) (as_spec A N j (s (core g)) g)"
proof (rule runs_withBytes [OF assms(1)])
  show "length d < 2 ^ 32" by (rule unat_bounded [OF assms(2)])
next
  fix p n g' assume g': "extends g g'" "core g' = core g" "holds_at g' p n d"
    "g_blocks g' = (if d = [] then g_blocks g else (p, n) # g_blocks g)"
  let ?s = "s (core g)"
  have "room_for A N (Suc j) (g_blocks g') (snd ?s)" if "room_for A N j (g_blocks g) (snd ?s)"
    using room_for_push [OF that] room_for_Suc [OF that] g'(4) holds_at_null [OF g'(3)] assms(2) by auto
  then have "as_spec A N j ?s g r c" if "as_spec A N (Suc j) ?s g' r c" for r c
    using that g'(2) by (auto simp: as_spec_def)
  then show "runs g' (body p n) (as_spec A N j ?s g)"
    using assms(4) [of g' p n] g'(1-3) by (auto simp: extends_def intro: runs_conseq)
next
  fix n :: uint32 assume n: "d \<noteq> []" "unat n = length d" "refuses A (g_blocks g) n"
  then have "n \<noteq> 0" by auto
  with n have "\<not> room_for A N j (g_blocks g) (snd (s (core g)))"
    using room_for_request [OF _ j, of A N "g_blocks g" "snd (s (core g))" n] assms(2) by auto
  then show "as_spec A N j (s (core g)) g (Error (alloc_null n)) (core g)" by (simp add: as_spec_def)
qed

definition answered :: "('d, 'o, 's) export \<Rightarrow> (uint32 \<Rightarrow> 'a outcome) \<Rightarrow> (('d, 'o, 's) guest, 'a) comp" where
  "answered k h = (\<lambda>c. case k c of (None, c') \<Rightarrow> (Error trap_error, c') | (Some r, c') \<Rightarrow> (h r, c'))"

lemma runs_answered:
  assumes "shim_sound g" and "exported_as C A name ps k g" and "memoryless k" and "\<And>H. calm H k"
    and "\<And>r. then' (u64 r) = lift (h r)"
  shows "runs g (andThen (call0 (guest_module C A) name ps) then') (as_spec A N j (answered k h (core g)) g)"
  by (rule runs_after_call [OF assms(1-4)]) (auto simp: assms(5) as_spec_def answered_def intro!: runs_lift)

lemma ret_lift: "ret x = lift (Ok x)" and fail_lift: "fail e = lift (Error e)"
  by (simp_all add: ret_def fail_def lift_def)

text \<open>The rules in the form in which the methods use them.\<close>

lemma refinesI: "(\<And>g. shim_sound g \<Longrightarrow> runs g m (as_spec A N 0 (s (core g)) g)) \<Longrightarrow> refines A N m s"
  by (simp add: refines_def)

lemma refines_bytes:
  assumes "length d \<le> unat N"
    and "\<And>p n g. shim_sound g \<Longrightarrow> holds_at g p n d \<Longrightarrow> runs g (body p n) (as_spec A N 1 (s (core g)) g)"
  shows "refines A N (withBytes (guest_module C A) d body) s"
  using assms by (intro refinesI runs_bytes) auto

definition status :: "string \<Rightarrow> uint32 \<Rightarrow> unit outcome" where
  "status fmt r = (if sint r \<noteq> 0 then Error (rc_error fmt (sint r)) else Ok ())"

lemma runs_expect0:
  assumes "shim_sound g" and "exported_as C A name ps k g" and "memoryless k" and "\<And>H. calm H k"
  shows "runs g (expect0 (guest_module C A) name ps fmt) (as_spec A N j (answered k (status fmt) (core g)) g)"
  unfolding expect0_def by (rule runs_answered [OF assms]) (simp add: status_def ret_lift fail_lift)

section \<open>The last error\<close>

text \<open>\<open>lastError\<close> gives the stored message, or nothing when it finds no room to copy it.\<close>

lemma runs_lastError:
  assumes "shim_sound g"
  shows "runs g (lastError (guest_module C A)) (\<lambda>r c. c = core g \<and> (r = Ok (g_last_error g) \<or>
    r = Ok [] \<and> g_last_error g \<noteq> [] \<and> refuses A (g_blocks g) (word_of_nat (length (g_last_error g)))))"
proof -
  let ?M = "guest_module C A" and ?e = "g_last_error g"
  let ?Q = "\<lambda>r c. c = core g \<and> (r = Ok ?e \<or>
    (\<exists>n. r = Error (alloc_null n)) \<and> ?e \<noteq> [] \<and> refuses A (g_blocks g) (word_of_nat (length ?e)))"
  have len: "unat (word_of_nat (length ?e) :: uint32) = length ?e"
    using assms by (intro unat_word_of_nat_less) (simp add: shim_sound_def)
  have fill: "runs g' (withAlloc ?M (word_of_nat (length ?e)) (\<lambda>ptr. andThen (call ?M ''am_last_error'' [u64 ptr]) (\<lambda>_.
      andThen (readBytes ?M ptr (word_of_nat (length ?e))) (\<lambda>data. ret (bytes_str data))))) ?Q"
    if g': "extends g g'" "core g' = core g" "g_blocks g' = g_blocks g" and e: "?e \<noteq> []" for g'
  proof (rule runs_fill [where b = "str_bytes ?e" and name = "''am_last_error''" and ps = "\<lambda>p. [u64 p]" and h = "\<lambda>d. Ok (bytes_str d)"])
    show "shim_sound g'" using g'(1) by (simp add: extends_def)
    show "word_of_nat (length ?e) \<noteq> (0 :: uint32)" using len e by (metis length_0_conv unat_0)
    fix p h' assume p: "p \<noteq> (0 :: uint32)" "core h' = core g'"
    have "g_last_error h' = ?e" using arg_cong [of _ _ g_last_error, OF p(2)] arg_cong [OF g'(2), of g_last_error] by simp
    then show "fills C A ''am_last_error'' [u64 p] p (str_bytes ?e) h'"
      using p(1) e by (simp add: fills_def guest_call_def exports_def guest_module_def am_last_error_def)
  qed (use e in \<open>auto simp: len g'(2,3) andThen_def ret_lift\<close>)
  have "runs g (andThen (call0 ?M ''am_last_error_len'' []) (\<lambda>r. let errLen = u32 r in
     if errLen = 0 then ret [] else withAlloc ?M errLen (\<lambda>ptr.
       andThen (call ?M ''am_last_error'' [u64 ptr]) (\<lambda>_.
       andThen (readBytes ?M ptr errLen) (\<lambda>data. ret (bytes_str data)))))) ?Q"
  proof (rule runs_andThen [where P = "\<lambda>r c. r = Ok (u64 (word_of_nat (length ?e))) \<and> c = core g"])
    show "runs g (call0 ?M ''am_last_error_len'' []) (\<lambda>r c. r = Ok (u64 (word_of_nat (length ?e))) \<and> c = core g)"
      by (rule runs_call0 [OF assms, where k = am_last_error_len])
        (auto simp: exported_as_def exports_def am_last_error_len_def intro!: memoryless_intros [unfolded am_last_error_len_def] calm_intros [unfolded am_last_error_len_def])
    fix r g' assume g': "extends g g'" "Ok r = Ok (u64 (word_of_nat (length ?e))) \<and> core g' = core g" "g_blocks g' = g_blocks g"
    have "(word_of_nat (length ?e) = (0 :: uint32)) = (?e = [])" by (cases "?e = []") (use len in auto)
    then show "runs g' (let errLen = u32 r in if errLen = 0 then ret [] else withAlloc ?M errLen (\<lambda>ptr.
       andThen (call ?M ''am_last_error'' [u64 ptr]) (\<lambda>_. andThen (readBytes ?M ptr errLen) (\<lambda>data. ret (bytes_str data))))) ?Q"
      using g' fill [OF g'(1)] by (auto simp: Let_def extends_def intro!: runs_ret)
  qed auto
  then show ?thesis
    by (force simp: lastError_def swallowed_def runs_def split: prod.splits)
qed

text \<open>Failing with the stored message, or with \<open>e\<close> when there is none.\<close>

definition reported :: "go_error \<Rightarrow> ('d, 'o, 's) guest \<Rightarrow> go_error" where
  "reported e c = (if g_last_error c \<noteq> [] then guest_message (g_last_error c) else e)"

lemma runs_fail_with_last:
  assumes "shim_sound g"
  shows "runs g (fail_with_last (guest_module C A) e) (\<lambda>r c. c = core g \<and> (r = Error (reported e (core g)) \<or>
     g_last_error g \<noteq> [] \<and> r = Error e \<and> refuses A (g_blocks g) (word_of_nat (length (g_last_error g)))))"
  unfolding fail_with_last_def
  by (rule runs_andThen [OF runs_lastError [OF assms]])
    (auto simp: reported_def guest_message_def extends_def dest: arg_cong [of _ _ g_last_error] intro!: runs_fail)

section \<open>A roomy allocator\<close>

text \<open>
  An allocator that is roomy for 1000 bytes: a live block of up to 1000 bytes overlaps at most one
  of three slots.
\<close>

definition hits :: "uint32 \<Rightarrow> block \<Rightarrow> bool" where
  "hits p b = (case b of (q, m) \<Rightarrow> unat q < unat p + 1000 \<and> unat p < unat q + unat m)"

definition slots :: allocator where
  "slots bs sz n = (if \<not> list_ex (hits 8) bs then 8 else if \<not> list_ex (hits 2056) bs then 2056 else 4104, max sz 8192)"

lemma one_hit:
  "m \<le> 1000 \<Longrightarrow> \<not> (hits 8 (q, m) \<and> hits 2056 (q, m)) \<and> \<not> (hits 8 (q, m) \<and> hits 4104 (q, m)) \<and> \<not> (hits 2056 (q, m) \<and> hits 4104 (q, m))"
  by (auto simp: hits_def word_le_nat_alt)

lemma slots_clear:
  assumes "tight 1000 2 bs"
  obtains p where "slots bs sz n = (p, max sz 8192)" "p \<in> {8, 2056, 4104}" "\<not> list_ex (hits p) bs"
proof -
  have "\<not> (list_ex (hits 8) bs \<and> list_ex (hits 2056) bs \<and> list_ex (hits 4104) bs)"
  proof
    assume "list_ex (hits 8) bs \<and> list_ex (hits 2056) bs \<and> list_ex (hits 4104) bs"
    then obtain a b c where hit: "a \<in> set bs" "hits 8 a" "b \<in> set bs" "hits 2056 b" "c \<in> set bs" "hits 4104 c"
      by (auto simp: list_ex_iff)
    have "snd a \<le> 1000" "snd b \<le> 1000" using assms hit(1,3) by (auto simp: tight_def list_all_iff)
    then have "a \<noteq> b" "a \<noteq> c" "b \<noteq> c" using one_hit [of "snd a" "fst a"] one_hit [of "snd b" "fst b"] hit(2,4,6) by auto
    then have "card {a, b, c} = 3" by simp
    moreover have "card {a, b, c} \<le> card (set bs)" using hit by (intro card_mono) auto
    ultimately show False using card_length [of bs] assms by (simp add: tight_def)
  qed
  then show ?thesis using that unfolding slots_def by (cases "list_ex (hits 8) bs"; cases "list_ex (hits 2056) bs") auto
qed

lemma roomy_slots: "roomy slots 1000"
  unfolding roomy_def refuses_def
proof (intro allI impI notI, elim exE conjE)
  fix bs n sz assume h: "tight 1000 2 bs" "n \<le> 1000" "sz \<le> 2 ^ 32"
    "\<not> fits bs sz n (slots bs sz n) \<or> fst (slots bs sz n) = 0"
  obtain p where p: "slots bs sz n = (p, max sz 8192)" "p \<in> {8, 2056, 4104}" "\<not> list_ex (hits p) bs"
    using h(1) by (rule slots_clear)
  have "unat p + unat n \<le> 8192" "unat n \<le> 1000" "p \<noteq> 0" using p(2) h(2) by (auto simp: word_le_nat_alt)
  then have "fits bs sz n (p, max sz 8192)"
    using p(3) h(3) by (fastforce simp: fits_def hits_def list_ex_iff list_all_iff)
  then show False using h(4) p(1) \<open>p \<noteq> 0\<close> by simp
qed

end
