(* ===== verification/BackendSpec.thy ===== *)
theory BackendSpec
  imports GuestRefine
begin

text \<open>
  What the methods of the backend do to the document, with the shim in between: for each method
  a computation on the core of the guest, in terms of the crate's operations and of Go values,
  and the lemma that the method refines it.
\<close>

section \<open>Maps\<close>

text \<open>The work of an export on a map entry, with the key as a string.\<close>

definition at_key ::
  "('d, 'o, 's) automerge \<Rightarrow> ObjHandle \<Rightarrow> string \<Rightarrow> uint32 \<Rightarrow> uint32 \<Rightarrow> uint32 \<Rightarrow> ('o \<Rightarrow> ('d, 'o, 's) export) \<Rightarrow> ('d, 'o, 's) export"
where
  "at_key C h key no_key bad_utf8 bad_obj k = (if key = [] then reply no_key
     else if utf8_valid (str_bytes key) then resolve_obj C h k bad_obj else reply bad_utf8)"

lemma memoryless_at_key [memoryless_intros]: "(\<And>ob. memoryless (k ob)) \<Longrightarrow> memoryless (at_key C h key a b c k)"
  unfolding at_key_def by (intro memoryless_intros)

lemma calm_at_key [calm_intros]: "(\<And>ob. calm H (k ob)) \<Longrightarrow> calm H (at_key C h key a b c k)"
  unfolding at_key_def by (auto intro!: calm_intros)

lemma announces_at_key [announces_intros]:
  "bad a \<Longrightarrow> bad b \<Longrightarrow> bad c \<Longrightarrow> (\<And>ob. announces bad (k ob)) \<Longrightarrow> announces bad (at_key C h key a b c k)"
  unfolding at_key_def by (auto intro!: announces_intros)

definition spec_MapGet :: "('d, 'o, 's) automerge \<Rightarrow> ObjHandle \<Rightarrow> string \<Rightarrow> (('d, 'o, 's) guest, BackendValue) comp" where
  "spec_MapGet C h key = fetched (at_key C h key 0 0 0 (\<lambda>ob.
     with_doc (\<lambda>d. prepare_value C (c_get C ob (PMap key) d)) 0)) (Ok void_value) DecodeValue"

lemma am_map_get_len_holds:
  "holds_at g kp kn (str_bytes key) \<Longrightarrow> am_map_get_len C h kp kn g =
   at_key C h key 0 0 0 (\<lambda>ob. with_doc (\<lambda>d. prepare_value C (c_get C ob (PMap key) d)) 0) g"
  using holds_at_null [of g kp kn "str_bytes key"]
  by (auto simp: am_map_get_len_def at_key_def with_utf8_holds)

lemma refines_MapGet: "length key \<le> unat N \<Longrightarrow> refines A N (MapGet (guest_module C A) h key) (spec_MapGet C h key)"
  unfolding MapGet_def spec_MapGet_def
  by (rule refines_bytes, simp, rule runs_fetch)
    (auto simp: exported_as_def exports_def ret_lift am_map_get_len_holds intro!: memoryless_intros calm_intros announces_intros)

text \<open>Writing a value: what the export does once it has the key, the tag and the payload.\<close>

definition put_value ::
  "('d, 'o, 's) automerge \<Rightarrow> ObjHandle \<Rightarrow> byte \<Rightarrow> bytes \<Rightarrow> ('o \<Rightarrow> ScalarValue \<Rightarrow> 'd \<Rightarrow> (string + unit) \<times> 'd) \<Rightarrow>
   ('o \<Rightarrow> ObjType \<Rightarrow> 'd \<Rightarrow> (string + 'o) \<times> 'd) \<Rightarrow> ('d, 'o, 's) export" where
  "put_value C h tag payload put put_object = (case parse_tagged_value tag payload of
     None \<Rightarrow> reply (- 1)
   | Some v \<Rightarrow> resolve_obj C h (\<lambda>ob. case v of
       RScalar x \<Rightarrow> mutate (put ob x)
     | RObject t \<Rightarrow> put_object_reply C (put_object ob t)) (- 3))"

definition put_outcome :: "byte \<Rightarrow> string \<Rightarrow> uint32 \<Rightarrow> ObjHandle outcome" where
  "put_outcome tag fmt r = (if sint r < 0 then Error (rc_error fmt (sint r))
     else if is_object_tag tag then Ok r else Ok 0)"

lemma put_result_outcome: "put_result tag fmt (u64 r) = lift (put_outcome tag fmt r)"
  by (simp add: put_result_def put_outcome_def ret_lift fail_lift)

lemma memoryless_put_value [memoryless_intros]: "memoryless (put_value C h tag payload put pob)"
  unfolding put_value_def by (auto intro!: memoryless_intros split: option.splits rvalue.splits)

lemma calm_put_value [calm_intros]: "calm H (put_value C h tag payload put pob)"
  unfolding put_value_def by (auto intro!: calm_intros split: option.splits rvalue.splits)

definition put_key :: "('d, 'o, 's) automerge \<Rightarrow> ObjHandle \<Rightarrow> string \<Rightarrow> byte \<Rightarrow> bytes \<Rightarrow> ('d, 'o, 's) export" where
  "put_key C h key tag payload = (if key = [] then reply (- 1)
     else if utf8_valid (str_bytes key)
     then put_value C h tag payload (\<lambda>ob. c_put C ob (PMap key)) (\<lambda>ob. c_put_object C ob (PMap key))
     else reply (- 4))"

definition spec_MapPut ::
  "('d, 'o, 's) automerge \<Rightarrow> ObjHandle \<Rightarrow> string \<Rightarrow> byte \<Rightarrow> bytes \<Rightarrow> (('d, 'o, 's) guest, ObjHandle) comp" where
  "spec_MapPut C h key tag payload =
     answered (put_key C h key tag payload) (put_outcome tag ''automerge: am_map_put failed: %d'')"

lemma am_map_put_holds:
  assumes "holds_at g kp kn (str_bytes key)" and "holds_at g vp vn payload"
  shows "am_map_put C h kp kn tag vp vn g = put_key C h key tag payload g"
  using holds_at_null [OF assms(1)] assms
  by (auto simp: am_map_put_def put_key_def with_utf8_holds with_opt_slice_holds put_value_def)

lemma refines_MapPut:
  assumes "length key \<le> unat N" and "length payload \<le> unat N"
  shows "refines A N (MapPut (guest_module C A) h key tag payload) (spec_MapPut C h key tag payload)"
  unfolding MapPut_def spec_MapPut_def
proof (rule refines_bytes)
  show "length (str_bytes key) \<le> unat N" using assms(1) by simp
next
  fix kp kn and g :: "('a, 'b, 'c) guest" assume g: "shim_sound g" "holds_at g kp kn (str_bytes key)"
  show "runs g (withBytes (guest_module C A) payload (\<lambda>vp vn.
       andThen (call0 (guest_module C A) ''am_map_put'' [u64 h, u64 kp, u64 kn, ucast tag, u64 vp, u64 vn])
         (put_result tag ''automerge: am_map_put failed: %d'')))
     (as_spec A N 1 (answered (put_key C h key tag payload) (put_outcome tag ''automerge: am_map_put failed: %d'') (core g)) g)"
  proof (rule runs_bytes [OF g(1) assms(2)], simp, rule runs_answered)
    fix vp vn and g' :: "('a, 'b, 'c) guest" assume g': "extends g g'" "holds_at g' vp vn payload"
    from am_map_put_holds [OF extends_holds [OF g'(1) g(2)] g'(2), of C h tag]
    show "exported_as C A ''am_map_put'' [u64 h, u64 kp, u64 kn, ucast tag, u64 vp, u64 vn] (put_key C h key tag payload) g'"
      by (simp add: exported_as_def exports_def ucast_up_ucast_id is_up)
  qed (auto simp: put_key_def put_result_outcome intro!: memoryless_intros calm_intros)
qed

text \<open>The methods that act on one entry of a map.\<close>

definition spec_MapDelete :: "('d, 'o, 's) automerge \<Rightarrow> ObjHandle \<Rightarrow> string \<Rightarrow> (('d, 'o, 's) guest, unit) comp" where
  "spec_MapDelete C h key = answered (at_key C h key (- 1) (- 1) (- 3) (\<lambda>ob. mutate (c_delete C ob (PMap key))))
     (status ''automerge: am_map_delete failed: %d'')"

definition spec_MapIncrement ::
  "('d, 'o, 's) automerge \<Rightarrow> ObjHandle \<Rightarrow> string \<Rightarrow> int64 \<Rightarrow> (('d, 'o, 's) guest, unit) comp" where
  "spec_MapIncrement C h key delta = answered (at_key C h key (- 1) (- 1) (- 3) (\<lambda>ob. mutate (c_increment C ob (PMap key) delta)))
     (status ''automerge: am_map_increment failed: %d'')"

lemma map_entry_holds:
  assumes "holds_at g kp kn (str_bytes key)"
  shows "am_map_delete C h kp kn g = at_key C h key (- 1) (- 1) (- 3) (\<lambda>ob. mutate (c_delete C ob (PMap key))) g"
    and "am_map_increment C h kp kn delta g =
      at_key C h key (- 1) (- 1) (- 3) (\<lambda>ob. mutate (c_increment C ob (PMap key) delta)) g"
  using holds_at_null [OF assms] assms
  by (auto simp: am_map_delete_def am_map_increment_def at_key_def with_utf8_holds)

lemma refines_MapDelete: "length key \<le> unat N \<Longrightarrow> refines A N (MapDelete (guest_module C A) h key) (spec_MapDelete C h key)"
  unfolding MapDelete_def spec_MapDelete_def
  by (rule refines_bytes, simp, rule runs_expect0)
    (auto simp: exported_as_def exports_def map_entry_holds intro!: memoryless_intros calm_intros)

lemma refines_MapIncrement:
  "length key \<le> unat N \<Longrightarrow> refines A N (MapIncrement (guest_module C A) h key delta) (spec_MapIncrement C h key delta)"
  unfolding MapIncrement_def spec_MapIncrement_def
  by (rule refines_bytes, simp, rule runs_expect0)
    (auto simp: exported_as_def exports_def map_entry_holds intro!: memoryless_intros calm_intros)

section \<open>Lists and texts\<close>

definition at_obj ::
  "('d, 'o, 's) automerge \<Rightarrow> ObjHandle \<Rightarrow> ('o \<Rightarrow> 'd \<Rightarrow> ('d, 'o, 's) export) \<Rightarrow> uint32 \<Rightarrow> uint32 \<Rightarrow> ('d, 'o, 's) export" where
  "at_obj C h f no_doc no_obj = resolve_obj C h (\<lambda>ob. with_doc (f ob) no_doc) no_obj"

lemma memoryless_at_obj [memoryless_intros]: "(\<And>ob d. memoryless (f ob d)) \<Longrightarrow> memoryless (at_obj C h f a b)"
  unfolding at_obj_def by (intro memoryless_intros)

lemma calm_at_obj [calm_intros]: "(\<And>ob d. calm H (f ob d)) \<Longrightarrow> calm H (at_obj C h f a b)"
  unfolding at_obj_def by (intro calm_intros)

lemma announces_at_obj [announces_intros]:
  "bad a \<Longrightarrow> bad b \<Longrightarrow> (\<And>ob d. announces bad (f ob d)) \<Longrightarrow> announces bad (at_obj C h f a b)"
  unfolding at_obj_def by (intro announces_intros)

definition mutate_obj ::
  "('d, 'o, 's) automerge \<Rightarrow> ObjHandle \<Rightarrow> ('o \<Rightarrow> 'd \<Rightarrow> (string + unit) \<times> 'd) \<Rightarrow> ('d, 'o, 's) export" where
  "mutate_obj C h f = resolve_obj C h (\<lambda>ob. mutate (f ob)) (- 3)"

lemma memoryless_mutate_obj [memoryless_intros]: "memoryless (mutate_obj C h f)"
  unfolding mutate_obj_def by (intro memoryless_intros)

lemma calm_mutate_obj [calm_intros]: "calm H (mutate_obj C h f)"
  unfolding mutate_obj_def by (intro calm_intros)

text \<open>The guest sees the low 32 bits of an index.\<close>

definition seq_at :: "uint64 \<Rightarrow> nat" where
  "seq_at index = unat (u32 index)"

definition spec_ListGet :: "('d, 'o, 's) automerge \<Rightarrow> ObjHandle \<Rightarrow> uint64 \<Rightarrow> (('d, 'o, 's) guest, BackendValue) comp" where
  "spec_ListGet C h index = fetched (at_obj C h (\<lambda>ob d. prepare_value C (c_get C ob (PSeq (seq_at index)) d)) 0 0)
     (Ok void_value) DecodeValue"

lemma refines_ListGet: "refines A N (ListGet (guest_module C A) h index) (spec_ListGet C h index)"
  unfolding ListGet_def spec_ListGet_def
  by (rule refinesI, rule runs_fetch)
    (auto simp: exported_as_def exports_def ret_lift am_list_get_len_def at_obj_def seq_at_def
      intro!: memoryless_intros calm_intros announces_intros)

definition put_index ::
  "('d, 'o, 's) automerge \<Rightarrow> ObjHandle \<Rightarrow> uint64 \<Rightarrow> bool \<Rightarrow> byte \<Rightarrow> bytes \<Rightarrow> ('d, 'o, 's) export" where
  "put_index C h index ins tag payload = (if ins
     then put_value C h tag payload (\<lambda>ob. c_insert C ob (seq_at index)) (\<lambda>ob. c_insert_object C ob (seq_at index))
     else put_value C h tag payload (\<lambda>ob. c_put C ob (PSeq (seq_at index))) (\<lambda>ob. c_put_object C ob (PSeq (seq_at index))))"

definition spec_ListPut ::
  "('d, 'o, 's) automerge \<Rightarrow> ObjHandle \<Rightarrow> uint64 \<Rightarrow> bool \<Rightarrow> byte \<Rightarrow> bytes \<Rightarrow> (('d, 'o, 's) guest, ObjHandle) comp" where
  "spec_ListPut C h index ins tag payload =
     answered (put_index C h index ins tag payload) (put_outcome tag ''automerge: am_list_put failed: %d'')"

lemma am_list_put_holds:
  assumes "holds_at g vp vn payload"
  shows "am_list_put C h (u32 index) (if ins then 1 else 0) tag vp vn g = put_index C h index ins tag payload g"
proof (cases "parse_tagged_value tag payload")
  case (Some v)
  then show ?thesis
    by (cases v; cases ins)
      (simp_all add: am_list_put_def with_opt_slice_holds [OF assms] put_index_def put_value_def seq_at_def)
qed (simp add: am_list_put_def with_opt_slice_holds [OF assms] put_index_def put_value_def)

lemma refines_ListPut:
  assumes "length payload \<le> unat N"
  shows "refines A N (ListPut (guest_module C A) h index ins tag payload) (spec_ListPut C h index ins tag payload)"
  unfolding ListPut_def spec_ListPut_def Let_def
proof (rule refines_bytes [OF assms], rule runs_answered)
  fix vp vn and g :: "('a, 'b, 'c) guest" assume "holds_at g vp vn payload"
  then show "exported_as C A ''am_list_put'' [u64 h, index, if ins then 1 else 0, ucast tag, u64 vp, u64 vn]
      (put_index C h index ins tag payload) g"
    using am_list_put_holds [of g vp vn payload C h index ins tag]
    by (cases ins) (simp_all add: exported_as_def exports_def ucast_up_ucast_id is_up)
qed (auto simp: put_index_def put_result_outcome intro!: memoryless_intros calm_intros)

definition spec_ListDelete :: "('d, 'o, 's) automerge \<Rightarrow> ObjHandle \<Rightarrow> uint64 \<Rightarrow> (('d, 'o, 's) guest, unit) comp" where
  "spec_ListDelete C h index = answered (mutate_obj C h (\<lambda>ob. c_delete C ob (PSeq (seq_at index))))
     (status ''automerge: am_list_delete failed: %d'')"

definition spec_ListIncrement ::
  "('d, 'o, 's) automerge \<Rightarrow> ObjHandle \<Rightarrow> uint64 \<Rightarrow> int64 \<Rightarrow> (('d, 'o, 's) guest, unit) comp" where
  "spec_ListIncrement C h index delta = answered (mutate_obj C h (\<lambda>ob. c_increment C ob (PSeq (seq_at index)) delta))
     (status ''automerge: am_list_increment failed: %d'')"

definition spec_ObjSize :: "('d, 'o, 's) automerge \<Rightarrow> ObjHandle \<Rightarrow> (('d, 'o, 's) guest, uint64) comp" where
  "spec_ObjSize C h = answered (at_obj C h (\<lambda>ob d. reply (word_of_nat (c_length C ob d))) 0 0) (\<lambda>r. Ok (u64 r))"

definition spec_TextGet :: "('d, 'o, 's) automerge \<Rightarrow> ObjHandle \<Rightarrow> (('d, 'o, 's) guest, string) comp" where
  "spec_TextGet C h = fetched (at_obj C h (\<lambda>ob d. prepare_json (c_text C ob d)) 0 0) (Ok []) (\<lambda>data. Ok (bytes_str data))"

lemma memoryless_prepare_json [memoryless_intros]: "memoryless (prepare_json r)"
  unfolding prepare_json_def by (auto intro!: memoryless_intros split: option.splits)

lemma refines_ListDelete: "refines A N (ListDelete (guest_module C A) h index) (spec_ListDelete C h index)"
  unfolding ListDelete_def spec_ListDelete_def
  by (rule refinesI, rule runs_expect0)
    (auto simp: exported_as_def exports_def am_list_delete_def mutate_obj_def seq_at_def intro!: memoryless_intros calm_intros)

lemma refines_ListIncrement: "refines A N (ListIncrement (guest_module C A) h index delta) (spec_ListIncrement C h index delta)"
  unfolding ListIncrement_def spec_ListIncrement_def
  by (rule refinesI, rule runs_expect0)
    (auto simp: exported_as_def exports_def am_list_increment_def mutate_obj_def seq_at_def intro!: memoryless_intros calm_intros)

lemma refines_ObjSize:
  "refines A N (ObjSize (guest_module C A) h) (spec_ObjSize C h)" "refines A N (ListLen (guest_module C A) h) (spec_ObjSize C h)"
  unfolding ObjSize_def ListLen_def spec_ObjSize_def
  by (rule refinesI, rule runs_answered,
      auto simp: exported_as_def exports_def am_obj_size_def am_list_len_def at_obj_def ret_lift intro!: memoryless_intros calm_intros)+

lemma refines_TextGet: "refines A N (TextGet (guest_module C A) h) (spec_TextGet C h)"
  unfolding TextGet_def spec_TextGet_def
  by (rule refinesI, rule runs_fetch)
    (auto simp: exported_as_def exports_def ret_lift am_text_get_len_def at_obj_def prepare_json_def
      intro!: memoryless_intros calm_intros announces_intros split: option.splits)

section \<open>Methods that report the message of the guest\<close>

definition with_message :: "(uint32 \<Rightarrow> 'a outcome) \<Rightarrow> uint32 \<Rightarrow> (('d, 'o, 's) guest, 'a) comp" where
  "with_message h r = (\<lambda>c. (case h r of Error e \<Rightarrow> Error (reported e c) | x \<Rightarrow> x, c))"

definition answered_msg :: "('d, 'o, 's) export \<Rightarrow> (uint32 \<Rightarrow> 'a outcome) \<Rightarrow> (('d, 'o, 's) guest, 'a) comp" where
  "answered_msg k h = (\<lambda>c. case k c of
     (None, c') \<Rightarrow> (Error trap_error, c') | (Some r, c') \<Rightarrow> with_message h r c')"

text \<open>A method that reports an error with the message of the guest, after the core has become that of \<open>c\<close>.\<close>

lemma message_as_spec:
  assumes "j \<le> 2" and "shim_sound g'" and "core g' = core c" and "g_blocks g' = g_blocks g" and "s = (Error (reported e c), c)"
    and "c2 = core g' \<and> (r = Error (reported e (core g')) \<or>
      g_last_error g' \<noteq> [] \<and> r = Error e \<and> refuses A (g_blocks g') (word_of_nat (length (g_last_error g'))))"
  shows "as_spec A N j s g r c2"
proof -
  let ?n = "word_of_nat (length (g_last_error g')) :: uint32"
  have e: "g_last_error g' = g_last_error c" using assms(3) core_fields(4) [of g'] by simp
  have len: "unat ?n = length (g_last_error g')"
    using assms(2) by (intro unat_word_of_nat_less) (simp add: shim_sound_def)
  have "\<not> room_for A N j (g_blocks g) c" if "g_last_error g' \<noteq> []" "refuses A (g_blocks g') ?n"
  proof
    assume r: "room_for A N j (g_blocks g) c"
    have "?n \<noteq> 0" using len that(1) by (metis length_0_conv unat_0)
    with room_for_request [OF r assms(1)] that(2) len e r assms(4) show False by (auto simp: room_for_def small_def)
  qed
  then show ?thesis using assms(3,5,6) e by (auto simp: as_spec_def no_room_def reported_def)
qed

lemma runs_answered_msg:
  assumes "shim_sound g" and "exported_as C A name ps k g" and "memoryless k" and "\<And>H. calm H k"
    and "\<And>r. then' (u64 r) = (case h r of Error e \<Rightarrow> fail_with_last (guest_module C A) e | x \<Rightarrow> lift x)" and j: "j \<le> 2"
  shows "runs g (andThen (call0 (guest_module C A) name ps) then') (as_spec A N j (answered_msg k h (core g)) g)"
proof (rule runs_after_call [OF assms(1-4)])
  let ?Q = "as_spec A N j (answered_msg k h (core g)) g"
  fix a c g' assume a: "k (core g) = (Some a, c)" and g': "shim_sound g'" "core g' = core c" "g_blocks g' = g_blocks g"
  have s: "answered_msg k h (core g) = with_message h a c" using a by (simp add: answered_msg_def)
  show "runs g' (then' (u64 a)) ?Q"
  proof (cases "h a")
    case (Error x)
    have "runs g' (fail_with_last (guest_module C A) x) ?Q"
      using Error by (intro runs_conseq [OF runs_fail_with_last [OF g'(1)]] message_as_spec [OF j g'])
        (auto simp: s with_message_def)
    then show ?thesis using Error by (simp add: assms(5))
  qed (use g' in \<open>auto simp: assms(5) s with_message_def as_spec_def intro!: runs_lift\<close>)
qed (simp add: as_spec_def answered_msg_def)

lemma runs_expect0_msg:
  assumes "shim_sound g" and "exported_as C A name ps k g" and "memoryless k" and "\<And>H. calm H k" and "j \<le> 2"
  shows "runs g (expect0_msg (guest_module C A) name ps fmt) (as_spec A N j (answered_msg k (status fmt) (core g)) g)"
  unfolding expect0_msg_def by (rule runs_answered_msg [OF assms(1-4) _ assms(5)]) (simp add: status_def ret_lift)

definition splice_text :: "('d, 'o, 's) automerge \<Rightarrow> ObjHandle \<Rightarrow> nat \<Rightarrow> nat \<Rightarrow> string \<Rightarrow> ('d, 'o, 's) export" where
  "splice_text C h pos del text = resolve_obj C h (\<lambda>ob. if utf8_valid (str_bytes text)
     then mutate_msg (c_splice_text C ob pos del text) (- 5) (- 2) else reply (- 4)) (- 3)"

text \<open>The guest reads the low 32 bits of the count as a signed number and takes a negative one as 0.\<close>

definition del_count :: "int64 \<Rightarrow> nat" where
  "del_count del = nat (sint (u32 del))"

definition spec_TextSplice ::
  "('d, 'o, 's) automerge \<Rightarrow> ObjHandle \<Rightarrow> uint64 \<Rightarrow> int64 \<Rightarrow> string \<Rightarrow> (('d, 'o, 's) guest, unit) comp" where
  "spec_TextSplice C h pos del text = answered_msg (splice_text C h (seq_at pos) (del_count del) text)
     (status ''automerge: am_text_splice failed: %d'')"

lemma am_text_splice_holds:
  assumes "holds_at g p n (str_bytes text)"
  shows "am_text_splice C h (u32 pos) (u32 del) p n g = splice_text C h (seq_at pos) (del_count del) text g"
  by (simp add: am_text_splice_def splice_text_def resolve_obj_def with_opt_slice_holds [OF assms] seq_at_def
      del_count_def split: option.split)

lemma refines_TextSplice:
  "length text \<le> unat N \<Longrightarrow> refines A N (TextSplice (guest_module C A) h pos del text) (spec_TextSplice C h pos del text)"
  unfolding TextSplice_def spec_TextSplice_def
  by (rule refines_bytes, simp, rule runs_expect0_msg)
    (auto simp: exported_as_def exports_def am_text_splice_holds splice_text_def intro!: memoryless_intros calm_intros)

text \<open>Merging: the bytes are a saved document; one that does not load leaves no message of its own.\<close>

definition merge_bytes :: "('d, 'o, 's) automerge \<Rightarrow> bytes \<Rightarrow> ('d, 'o, 's) export" where
  "merge_bytes C b = (if b = [] then reply (- 1) else (case c_load C b of
     None \<Rightarrow> reply (- 3) | Some other \<Rightarrow> mutate_msg (c_merge C other) (- 4) (- 2)))"

definition spec_Merge :: "('d, 'o, 's) automerge \<Rightarrow> bytes \<Rightarrow> (('d, 'o, 's) guest, unit) comp" where
  "spec_Merge C b = answered_msg (merge_bytes C b) (status ''automerge: am_merge failed: %d'')"

lemma am_merge_holds:
  assumes "holds_at g p n b"
  shows "am_merge C p n g = merge_bytes C b g"
  using holds_at_ptr [OF assms] holds_at_ptr(2) [OF assms]
  by (cases "b = []"; cases "c_load C b")
    (simp_all add: am_merge_def merge_bytes_def with_slice_holds [OF assms] mutate_msg_def)

lemma refines_Merge: "length b \<le> unat N \<Longrightarrow> refines A N (Merge (guest_module C A) b) (spec_Merge C b)"
  unfolding Merge_def spec_Merge_def
  by (rule refines_bytes, assumption, rule runs_expect0_msg)
    (auto simp: exported_as_def exports_def am_merge_holds merge_bytes_def intro!: memoryless_intros calm_intros split: option.splits)

section \<open>Objects\<close>

definition spec_ObjType :: "('d, 'o, 's) automerge \<Rightarrow> ObjHandle \<Rightarrow> (('d, 'o, 's) guest, Kind) comp" where
  "spec_ObjType C h = answered (at_obj C h (\<lambda>ob d. if h = 0 then reply 1 else reply (type_code (c_object_type C ob d))) (- 2) (- 1))
     (\<lambda>r. Ok (obj_kind (sint r)))"

definition spec_ObjKeys :: "('d, 'o, 's) automerge \<Rightarrow> ObjHandle \<Rightarrow> (('d, 'o, 's) guest, string list) comp" where
  "spec_ObjKeys C h = fetched (at_obj C h (\<lambda>ob d. prepare (encode_keys (c_keys C ob d))) 0 0) (Ok []) (\<lambda>data. Ok (keys_loop data))"

definition spec_Marks :: "('d, 'o, 's) automerge \<Rightarrow> ObjHandle \<Rightarrow> (('d, 'o, 's) guest, string) comp" where
  "spec_Marks C h = fetched (at_obj C h (\<lambda>ob d. prepare_json (map_option (marks_to_json (f64_to_string C)) (c_marks C ob d))) 0 0) (Ok ''[]'') (\<lambda>data. Ok (bytes_str data))"

definition spec_Spans :: "('d, 'o, 's) automerge \<Rightarrow> ObjHandle \<Rightarrow> (('d, 'o, 's) guest, string) comp" where
  "spec_Spans C h = fetched (at_obj C h (\<lambda>ob d. prepare_json (map_option (spans_to_json (f64_to_string C)) (c_spans C ob d))) 0 0) (Ok ''[]'') (\<lambda>data. Ok (bytes_str data))"

lemma refines_ObjType: "refines A N (ObjType (guest_module C A) h) (spec_ObjType C h)"
  unfolding ObjType_def spec_ObjType_def
  by (rule refinesI, rule runs_answered)
    (auto simp: exported_as_def exports_def am_obj_type_def at_obj_def ret_lift intro!: memoryless_intros calm_intros)

lemma refines_ObjKeys: "refines A N (ObjKeys (guest_module C A) h) (spec_ObjKeys C h)"
  unfolding ObjKeys_def spec_ObjKeys_def
  by (rule refinesI, rule runs_fetch)
    (auto simp: exported_as_def exports_def am_obj_keys_len_def at_obj_def ret_lift intro!: memoryless_intros calm_intros announces_intros)

lemma refines_Marks:
  "refines A N (Marks (guest_module C A) h) (spec_Marks C h)" "refines A N (Spans (guest_module C A) h) (spec_Spans C h)"
  unfolding Marks_def spec_Marks_def Spans_def spec_Spans_def
  by (rule refinesI, rule runs_fetch, auto simp: exported_as_def exports_def am_marks_len_def am_spans_len_def
      at_obj_def ret_lift intro!: memoryless_intros calm_intros announces_intros)+

section \<open>Saving, committing and history\<close>

text \<open>\<open>Save\<close> and \<open>GetActorID\<close> use a second call that checks the document again.\<close>

lemma fills_save:
  assumes "exported_as C A name ps (am_save p) g" and "p \<noteq> 0" and "g_return_buf g = b" and "b \<noteq> []" and "g_doc g \<noteq> None"
  shows "fills C A name ps p b g"
  using exported_as_call [OF assms(1)] assms(2-5)
  by (auto simp: fills_def am_save_def copy_return_buf_def reply_def with_doc_def)

lemma len_has_doc:
  "am_save_len C c = (Some a, c') \<Longrightarrow> a \<noteq> 0 \<Longrightarrow> g_doc c' \<noteq> None"
  "am_get_actor_len C c = (Some a, c') \<Longrightarrow> a \<noteq> 0 \<Longrightarrow> g_doc c' \<noteq> None"
  by (auto simp: am_save_len_def am_get_actor_len_def with_doc_mut_def with_doc_def prepare_def set_return_buf_def
      return_buf_len_def split: option.splits prod.splits if_splits)

lemma memoryless_len [memoryless_intros]:
  "memoryless (am_save_len C)" "memoryless (am_get_actor_len C)" "memoryless (am_save_incremental_len C)" "memoryless (am_get_heads_len C)"
  unfolding am_save_len_def am_get_actor_len_def am_save_incremental_len_def am_get_heads_len_def
  by (intro memoryless_intros)+

definition spec_Save :: "('d, 'o, 's) automerge \<Rightarrow> (('d, 'o, 's) guest, bytes) comp" where
  "spec_Save C = fetched (am_save_len C) (Error (Errorf ''automerge: am_save_len returned 0'' [])) Ok"

definition spec_GetActorID :: "('d, 'o, 's) automerge \<Rightarrow> (('d, 'o, 's) guest, string) comp" where
  "spec_GetActorID C = fetched (am_get_actor_len C) (Ok []) (\<lambda>data. Ok (bytes_str data))"

lemma core_eq_fields: "core g = core c \<Longrightarrow> g_return_buf g = g_return_buf c \<and> g_doc g = g_doc c"
  using core_fields(1,3) [of g] by simp

lemma refines_Save: "refines A N (Save (guest_module C A)) (spec_Save C)"
proof -
  have "fills C A ''am_save'' [u64 p] p (g_return_buf c) g'"
    if "am_save_len C c0 = (Some a, c)" "a \<noteq> 0" "g_return_buf c \<noteq> []" "p \<noteq> 0" "core g' = core c" for p a c0 c g'
    using len_has_doc(1) [OF that(1,2)] core_eq_fields [OF that(5)] that(3,4)
    by (intro fills_save) (simp_all add: exported_as_def exports_def)
  then show ?thesis
    unfolding Save_def spec_Save_def
    by (intro refinesI runs_two_phase [where get = "''am_save''" and gps = "\<lambda>p. [u64 p]"])
      (auto simp: exported_as_def exports_def fail_lift call0_def andThen_def lift_def i32_def readBytes_def announces_len_exports
        intro!: memoryless_intros calm_intros split: option.splits)
qed

lemma refines_GetActorID: "refines A N (GetActorID (guest_module C A)) (spec_GetActorID C)"
proof -
  have "fills C A ''am_get_actor'' [u64 p] p (g_return_buf c) g'"
    if "am_get_actor_len C c0 = (Some a, c)" "a \<noteq> 0" "g_return_buf c \<noteq> []" "p \<noteq> 0" "core g' = core c" for p a c0 c g'
    using len_has_doc(2) [OF that(1,2)] core_eq_fields [OF that(5)] that(3,4)
    by (intro fills_save) (simp_all add: exported_as_def exports_def am_get_actor_def)
  then show ?thesis
    unfolding GetActorID_def spec_GetActorID_def
    by (intro refinesI runs_two_phase [where get = "''am_get_actor''" and gps = "\<lambda>p. [u64 p]"])
      (auto simp: exported_as_def exports_def ret_lift call0_def andThen_def lift_def i32_def readBytes_def announces_len_exports
        intro!: memoryless_intros calm_intros split: option.splits)
qed

definition spec_Heads :: "('d, 'o, 's) automerge \<Rightarrow> (('d, 'o, 's) guest, ChangeHash list) comp" where
  "spec_Heads C = fetched (am_get_heads_len C) (Ok []) (\<lambda>data. Ok (ParseChangeHashes data))"

definition spec_SaveIncremental :: "('d, 'o, 's) automerge \<Rightarrow> (('d, 'o, 's) guest, bytes) comp" where
  "spec_SaveIncremental C = fetched (am_save_incremental_len C) (Ok []) Ok"

lemma refines_Heads: "refines A N (Heads (guest_module C A)) (spec_Heads C)"
  and refines_SaveIncremental: "refines A N (SaveIncremental (guest_module C A)) (spec_SaveIncremental C)"
  unfolding Heads_def spec_Heads_def SaveIncremental_def spec_SaveIncremental_def
  by (rule refinesI, rule runs_fetch, auto simp: exported_as_def exports_def ret_lift announces_len_exports
      intro!: memoryless_intros calm_intros)+

text \<open>Bytes that the guest refuses when there are none.\<close>

definition given :: "bytes \<Rightarrow> uint32 \<Rightarrow> ('d, 'o, 's) export \<Rightarrow> ('d, 'o, 's) export" where
  "given b none k = (if b = [] then reply none else k)"

lemma given_intros:
  "memoryless k \<Longrightarrow> memoryless (given b none k)" "calm H k \<Longrightarrow> calm H (given b none k)"
  "bad none \<Longrightarrow> announces bad k \<Longrightarrow> announces bad (given b none k)"
  by (simp_all add: given_def memoryless_intros calm_intros announces_intros)

lemma given_holds:
  "holds_at g p n b \<Longrightarrow> (if p = 0 \<or> n = 0 then reply none else with_slice p (unat n) k) g = given b none (k b) g"
  by (cases "b = []") (simp_all add: given_def holds_at_ptr with_slice_holds)

lemma bytes_holds:
  assumes "holds_at g p n b"
  shows "am_load_incremental C p n g = given b (- 1) (mutate (c_load_incremental C b)) g"
    and "am_apply_changes C p n g = given b (- 1) (mutate (apply_loop C b)) g"
    and "am_change_info_len C p n g = given b 0 (case c_parse_change C b of
      None \<Rightarrow> reply 0 | Some c \<Rightarrow> prepare (encode_change_info c)) g"
  unfolding am_load_incremental_def am_apply_changes_def am_change_info_len_def given_holds [OF assms]
  by (rule refl)+

definition spec_LoadIncremental :: "('d, 'o, 's) automerge \<Rightarrow> bytes \<Rightarrow> (('d, 'o, 's) guest, unit) comp" where
  "spec_LoadIncremental C b = answered (given b (- 1) (mutate (c_load_incremental C b)))
     (status ''automerge: am_load_incremental failed: %d'')"

lemma refines_LoadIncremental:
  "length b \<le> unat N \<Longrightarrow> refines A N (LoadIncremental (guest_module C A) b) (spec_LoadIncremental C b)"
  unfolding LoadIncremental_def spec_LoadIncremental_def
  by (rule refines_bytes, assumption, rule runs_expect0)
    (auto simp: exported_as_def exports_def bytes_holds intro!: given_intros memoryless_intros calm_intros)

definition spec_ApplyChanges :: "('d, 'o, 's) automerge \<Rightarrow> bytes list \<Rightarrow> (('d, 'o, 's) guest, unit) comp" where
  "spec_ApplyChanges C changes =
     (let b = EncodeLengthPrefixedList changes in
      answered (given b (- 1) (mutate (apply_loop C b))) (status ''automerge: am_apply_changes failed: %d''))"

lemma refines_ApplyChanges:
  "length (EncodeLengthPrefixedList changes) \<le> unat N \<Longrightarrow>
   refines A N (ApplyChanges (guest_module C A) changes) (spec_ApplyChanges C changes)"
  unfolding ApplyChanges_def spec_ApplyChanges_def Let_def
  by (rule refines_bytes, assumption, rule runs_expect0)
    (auto simp: exported_as_def exports_def bytes_holds intro!: given_intros memoryless_intros calm_intros)

definition spec_GetChangeInfo :: "('d, 'o, 's) automerge \<Rightarrow> bytes \<Rightarrow> (('d, 'o, 's) guest, ChangeInfo) comp" where
  "spec_GetChangeInfo C raw = fetched (given raw 0 (case c_parse_change C raw of
       None \<Rightarrow> reply 0 | Some c \<Rightarrow> prepare (encode_change_info c)))
     (Error (Errorf ''automerge: am_change_info_len returned 0 (invalid change?)'' [])) ParseChangeInfo"

lemma refines_GetChangeInfo:
  "length raw \<le> unat N \<Longrightarrow> refines A N (GetChangeInfo (guest_module C A) raw) (spec_GetChangeInfo C raw)"
  unfolding GetChangeInfo_def spec_GetChangeInfo_def
  by (rule refines_bytes, assumption, rule runs_fetch)
    (auto simp: exported_as_def exports_def bytes_holds fail_lift
      intro!: given_intros memoryless_intros calm_intros announces_intros split: option.splits)

text \<open>Reading back the hash that a commit has left in the return buffer.\<close>

lemma copy_hash_32 [simp]: "length b = 32 \<Longrightarrow> copy_hash b = b"
  by (simp add: copy_hash_def)

lemma runs_buf_len:
  assumes "shim_sound g"
  shows "runs g (call0 (guest_module C A) ''am_commit_hash_len'' [])
    (\<lambda>r c. r = Ok (u64 (word_of_nat (length (g_return_buf g)))) \<and> c = core g)"
  by (rule runs_call0 [OF assms, where k = return_buf_len])
    (auto simp: exported_as_def exports_def return_buf_len_def intro!: memoryless_intros [unfolded return_buf_len_def] calm_intros [unfolded return_buf_len_def])

lemma runs_read_buf:
  assumes g: "shim_sound g" "core g = core c" "g_blocks g = g_blocks g0" and n: "n = word_of_nat (length (g_return_buf c))"
    and get: "\<And>p h. exported_as C A name [u64 p] (copy_out p) h"
    and s: "s = (Ok (f (g_return_buf c)), c)" and j: "j \<le> 2"
  shows "runs g (withAlloc (guest_module C A) n (\<lambda>ptr. andThen (call (guest_module C A) name [u64 ptr]) (\<lambda>_.
      andThen (readBytes (guest_module C A) ptr n) (\<lambda>data. ret (f data))))) (as_spec A N j s g0)"
proof -
  let ?b = "g_return_buf c" and ?M = "guest_module C A"
  have b: "g_return_buf g = ?b" using core_eq_fields [OF g(2)] by simp
  have len: "unat n = length ?b"
    unfolding n using g(1) b by (intro unat_word_of_nat_less) (simp add: shim_sound_def)
  show ?thesis
  proof (cases "?b = []")
    case True
    then have "n = 0" using n by simp
    moreover have "alloc ?M 0 (g, False) = (Ok 0, (g, False))"
      by (simp add: alloc_def call0_def call_def guest_module_def guest_call_def exports_def am_alloc_def andThen_def lift_def Let_def ret_def)
    moreover have "call ?M name [0] (g, False) = (Ok [u64 (- 1)], (g, False))"
      using exported_as_call [OF get [of 0 g]] call_open [of C A name "[0]" g] by (simp add: copy_out_def reply_def)
    ultimately show ?thesis
      using True g(1,2) s
      by (simp add: runs_def withAlloc_def andThen_def deferred_def free_def readBytes_def ret_def extends_refl as_spec_def)
  next
    case False
    then have n0: "n \<noteq> 0" using len by auto
    have fills: "fills C A name [u64 p] p ?b h'" if "p \<noteq> 0" "core h' = core g" for p h'
      using core_eq_fields [OF that(2)] b that(1) False fills_copy_out [OF get that(1), of h'] by simp
    have "\<not> room_for A N j (g_blocks g0) c" if "refuses A (g_blocks g) n"
      using room_for_request [OF _ j n0, of A N "g_blocks g0" c] that len g(3) by (auto simp: room_for_def small_def)
    then show ?thesis
      using g s by (intro runs_fill [OF g(1) n0 len, where name = name and ps = "\<lambda>p. [u64 p]" and h = "\<lambda>d. Ok (f d)"])
        (auto simp: fills andThen_def ret_lift as_spec_def)
  qed
qed

lemma runs_read_hash:
  assumes "shim_sound g" "core g = core c" "g_blocks g = g_blocks g0" and "n = word_of_nat (length (g_return_buf c))"
    and "s = (Ok (copy_hash (g_return_buf c)), c)" and "j \<le> 2"
  shows "runs g (read_hash (guest_module C A) n) (as_spec A N j s g0)"
  unfolding read_hash_def by (rule runs_read_buf [OF assms(1-4)]) (simp_all add: exported_as_def exports_def assms(5,6))

definition commit_with :: "('d, 'o, 's) automerge \<Rightarrow> string \<Rightarrow> int64 \<Rightarrow> ('d, 'o, 's) export" where
  "commit_with C msg t = (if \<not> utf8_valid (str_bytes msg) then set_last_error ''invalid UTF-8 in commit message'' (reply (- 1))
     else (\<lambda>g. with_doc_mut (c_commit_with C (opt_msg (str_bytes msg)) (opt_time t)) (\<lambda>r. case r of
       Some h \<Rightarrow> set_return_buf h (reply 0) | None \<Rightarrow> reply (- 3)) (- 2) (g\<lparr>g_last_error := []\<rparr>)))"

definition bad_hash_len :: "bytes \<Rightarrow> go_error" where
  "bad_hash_len b = Errorf ''automerge: expected 32-byte commit hash, got %d'' [AInt (int (length b))]"

definition spec_Commit :: "('d, 'o, 's) automerge \<Rightarrow> string \<Rightarrow> int64 \<Rightarrow> (('d, 'o, 's) guest, ChangeHash) comp" where
  "spec_Commit C msg t = (\<lambda>c. case commit_with C msg t c of
     (None, c') \<Rightarrow> (Error trap_error, c')
   | (Some r, c') \<Rightarrow> (if sint r = - 3 then Error ErrEmptyCommit
       else if sint r \<noteq> 0 then Error (reported (rc_error ''automerge: am_commit returned %d'' (sint r)) c')
       else if length (g_return_buf c') \<noteq> 32 then Error (bad_hash_len (g_return_buf c'))
       else Ok (g_return_buf c'), c'))"

lemma commit_with_intros [memoryless_intros, calm_intros]:
  "memoryless (commit_with C msg t)" "calm H (commit_with C msg t)"
  unfolding commit_with_def by (auto intro!: memoryless_intros calm_intros calm_clear_error split: option.splits)

lemma am_commit_holds: "holds_at g p n (str_bytes msg) \<Longrightarrow> am_commit C p n t g = commit_with C msg t g"
  by (simp add: am_commit_def commit_with_def with_opt_slice_holds)

lemma refines_Commit: "length msg \<le> unat N \<Longrightarrow> refines A N (Commit (guest_module C A) msg t) (spec_Commit C msg t)"
  unfolding Commit_def
proof (rule refines_bytes, simp, rule runs_after_call)
  fix p n and g g' c :: "('a, 'b, 'c) guest" and a
  assume a: "commit_with C msg t (core g) = (Some a, c)" and g': "shim_sound g'" "core g' = core c" "g_blocks g' = g_blocks g"
  let ?M = "guest_module C A" and ?Q = "as_spec A N 1 (spec_Commit C msg t (core g)) g"
  have f: "g_return_buf g' = g_return_buf c" "g_last_error g' = g_last_error c"
    using core_eq_fields [OF g'(2)] core_fields(4) [of g'] g'(2) by auto
  have hash: "runs g' (andThen (call0 ?M ''am_commit_hash_len'' []) (\<lambda>h. let hashLen = u32 h in
      if hashLen \<noteq> 32 then fail (Errorf ''automerge: expected 32-byte commit hash, got %d'' [AInt (uint hashLen)])
      else read_hash ?M 32)) ?Q" if a0: "sint a = 0"
  proof (rule runs_andThen [OF runs_buf_len [OF g'(1)]])
    fix r g2 assume g2: "extends g' g2"
      "Ok r = Ok (u64 (word_of_nat (length (g_return_buf g')))) \<and> core g2 = core g'" "g_blocks g2 = g_blocks g'"
    let ?n = "word_of_nat (length (g_return_buf c)) :: uint32"
    have sound: "shim_sound g2" using g2(1) by (simp add: extends_def)
    have b: "g_return_buf g2 = g_return_buf c" using core_eq_fields [of g2 g'] g2(2) f(1) by simp
    have un: "unat ?n = length (g_return_buf c)"
      using sound b by (intro unat_word_of_nat_less) (simp add: shim_sound_def)
    then have "uint ?n = int (length (g_return_buf c))" by (simp add: uint_nat)
    moreover have "(?n = 32) = (length (g_return_buf c) = 32)" using un by (auto simp: word_unat_eq_iff)
    moreover have "runs g2 (read_hash ?M 32) ?Q" if "length (g_return_buf c) = 32"
      by (rule runs_read_hash [OF sound, where c = c])
        (use that a a0 g2(2,3) g'(2,3) in \<open>auto simp: spec_Commit_def\<close>)
    ultimately show "runs g2 (let hashLen = u32 r in
      if hashLen \<noteq> 32 then fail (Errorf ''automerge: expected 32-byte commit hash, got %d'' [AInt (uint hashLen)])
      else read_hash ?M 32) ?Q"
      using g2(2) g'(2) f(1) sound a a0
      by (auto simp: Let_def as_spec_def spec_Commit_def bad_hash_len_def intro!: runs_fail)
  qed auto
  have last: "runs g' (fail_with_last ?M (rc_error ''automerge: am_commit returned %d'' (sint a))) ?Q"
    if "sint a \<noteq> 0" "sint a \<noteq> - 3"
    by (intro runs_conseq [OF runs_fail_with_last [OF g'(1)]] message_as_spec [OF _ g'])
      (use that a in \<open>auto simp: spec_Commit_def\<close>)
  show "runs g' (let rc = i32 (u64 a) in if rc = - 3 then fail ErrEmptyCommit
      else if rc \<noteq> 0 then fail_with_last ?M (rc_error ''automerge: am_commit returned %d'' rc)
      else andThen (call0 ?M ''am_commit_hash_len'' []) (\<lambda>h. let hashLen = u32 h in
        if hashLen \<noteq> 32 then fail (Errorf ''automerge: expected 32-byte commit hash, got %d'' [AInt (uint hashLen)])
        else read_hash ?M 32)) ?Q"
    using hash last g' a by (auto simp: Let_def as_spec_def spec_Commit_def intro!: runs_fail)
qed (auto simp: exported_as_def exports_def am_commit_holds as_spec_def spec_Commit_def intro!: commit_with_intros)

definition spec_EmptyChange :: "('d, 'o, 's) automerge \<Rightarrow> string \<Rightarrow> int64 \<Rightarrow> (('d, 'o, 's) guest, ChangeHash) comp" where
  "spec_EmptyChange C msg t = (\<lambda>c. case (if utf8_valid (str_bytes msg)
       then with_doc_mut (c_empty_change C (opt_msg (str_bytes msg)) (opt_time t)) (\<lambda>h. set_return_buf h (reply 0)) (- 2)
       else reply (- 1)) c of
     (None, c') \<Rightarrow> (Error trap_error, c')
   | (Some r, c') \<Rightarrow> (if sint r \<noteq> 0 then Error (rc_error ''automerge: am_empty_change failed: %d'' (sint r))
       else Ok (copy_hash (g_return_buf c')), c'))"

lemma refines_EmptyChange:
  "length msg \<le> unat N \<Longrightarrow> refines A N (EmptyChange (guest_module C A) msg t) (spec_EmptyChange C msg t)"
  unfolding EmptyChange_def
proof (rule refines_bytes, simp)
  fix p n and g :: "('a, 'b, 'c) guest" assume g: "shim_sound g" "holds_at g p n (str_bytes msg)"
  let ?M = "guest_module C A" and ?Q = "as_spec A N 1 (spec_EmptyChange C msg t (core g)) g"
  let ?k = "if utf8_valid (str_bytes msg)
       then with_doc_mut (c_empty_change C (opt_msg (str_bytes msg)) (opt_time t)) (\<lambda>h. set_return_buf h (reply 0)) (- 2)
       else reply (- 1)"
  have hash: "runs g' (andThen (call0 ?M ''am_commit_hash_len'' []) (\<lambda>h. read_hash ?M (u32 h))) ?Q"
    if a: "?k (core g) = (Some a, c)" "sint a = 0" and g': "shim_sound g'" "core g' = core c" "g_blocks g' = g_blocks g" for a c g'
  proof (rule runs_andThen [OF runs_buf_len [OF g'(1)]])
    fix r g2 assume g2: "extends g' g2"
      "Ok r = Ok (u64 (word_of_nat (length (g_return_buf g')))) \<and> core g2 = core g'" "g_blocks g2 = g_blocks g'"
    show "runs g2 (read_hash ?M (u32 r)) ?Q"
      by (rule runs_read_hash [where c = c])
        (use g2 g'(2,3) core_eq_fields [OF g'(2)] a in \<open>auto simp: spec_EmptyChange_def extends_def split: if_splits\<close>)
  qed auto
  have ex: "exported_as C A ''am_empty_change'' [u64 p, u64 n, t] ?k g"
    by (auto simp: exported_as_def exports_def am_empty_change_def with_opt_slice_holds [OF g(2)])
  show "runs g (andThen (expect0 ?M ''am_empty_change'' [u64 p, u64 n, t] ''automerge: am_empty_change failed: %d'')
     (\<lambda>_. andThen (call0 ?M ''am_commit_hash_len'' []) (\<lambda>h. read_hash ?M (u32 h)))) ?Q"
  proof (rule runs_andThen [where P = "\<lambda>r c. case ?k (core g) of
        (None, c') \<Rightarrow> r = Error trap_error \<and> c = core c'
      | (Some a, c') \<Rightarrow> r = status ''automerge: am_empty_change failed: %d'' a \<and> c = core c'"])
    show "runs g (expect0 ?M ''am_empty_change'' [u64 p, u64 n, t] ''automerge: am_empty_change failed: %d'')
      (\<lambda>r c. case ?k (core g) of
        (None, c') \<Rightarrow> r = Error trap_error \<and> c = core c'
      | (Some a, c') \<Rightarrow> r = status ''automerge: am_empty_change failed: %d'' a \<and> c = core c')"
      unfolding expect0_def
      by (rule runs_after_call [OF g(1) ex])
        (auto simp: status_def ret_lift fail_lift intro!: memoryless_intros calm_intros runs_lift split: prod.splits)
  qed (use hash in \<open>auto simp: extends_def as_spec_def spec_EmptyChange_def status_def split: prod.splits option.splits if_splits\<close>)
qed

text \<open>Heads that Go sends are the heads that the guest reads.\<close>

lemma length_hashes: "list_all wf_hash hs \<Longrightarrow> length (EncodeChangeHashes hs) = 32 * length hs"
  by (induction hs) (auto simp: EncodeChangeHashes_def wf_hash_def)

lemma with_heads_holds:
  assumes "holds_at g p n (EncodeChangeHashes hs)" and "list_all wf_hash hs" and "length (EncodeChangeHashes hs) < 2 ^ 32"
  shows "with_heads p (word_of_nat (length hs)) k g = k hs g"
proof (cases "hs = []")
  case True
  then show ?thesis by (simp add: with_heads_def)
next
  case False
  have len: "32 * length hs < 2 ^ 32" using assms(2,3) length_hashes by simp
  have b: "EncodeChangeHashes hs \<noteq> []" using False length_hashes [OF assms(2)] by auto
  have "unat (word_of_nat (length hs) * 32 :: uint32) = 32 * length hs"
    using unat_word_of_nat_less [of "32 * length hs", where 'a = 32] len by (simp add: mult.commute)
  then have un: "unat (word_of_nat (length hs) * 32 :: uint32) = unat n"
    using holds_at_null [OF assms(1)] length_hashes [OF assms(2)] by simp
  have "unat (word_of_nat (length hs) :: uint32) = length hs" using len by (intro unat_word_of_nat_less) simp
  then have "word_of_nat (length hs) \<noteq> (0 :: uint32)" using False by (metis length_0_conv unat_0)
  moreover have "p \<noteq> 0" using b holds_at_ptr(1) [OF assms(1)] by simp
  moreover have "ParseChangeHashes (EncodeChangeHashes hs) = hs"
    using hashes.parse_encoded [OF assms(2)] by (simp add: EncodeChangeHashes_def)
  ultimately show ?thesis by (simp add: with_heads_def un with_slice_holds [OF assms(1) b])
qed

definition changes_since :: "('d, 'o, 's) automerge \<Rightarrow> ChangeHash list \<Rightarrow> ('d, 'o, 's) export" where
  "changes_since C since = with_doc_mut (c_get_changes C since) (\<lambda>chs. prepare (EncodeLengthPrefixedList chs)) 0"

definition spec_GetChanges :: "('d, 'o, 's) automerge \<Rightarrow> ChangeHash list \<Rightarrow> (('d, 'o, 's) guest, bytes list) comp" where
  "spec_GetChanges C since = fetched (changes_since C since) (Ok []) (\<lambda>data. Ok (ParseLengthPrefixedList data))"

lemma am_get_changes_len_holds:
  assumes "holds_at g p n (EncodeChangeHashes hs)" and "list_all wf_hash hs" and "length (EncodeChangeHashes hs) < 2 ^ 32"
  shows "am_get_changes_len C p (word_of_nat (length hs)) g = changes_since C hs g"
  by (simp add: am_get_changes_len_def with_heads_holds [OF assms] changes_since_def EncodeLengthPrefixedList_def)

lemma refines_GetChanges:
  assumes "list_all wf_hash since" and "length (EncodeChangeHashes since) \<le> unat N"
  shows "refines A N (GetChanges (guest_module C A) since) (spec_GetChanges C since)"
  unfolding GetChanges_def spec_GetChanges_def Let_def
  by (rule refines_bytes [OF assms(2)], rule runs_fetch)
    (auto simp: exported_as_def exports_def ret_lift am_get_changes_len_holds [OF _ assms(1) unat_bounded [OF assms(2)]] changes_since_def
      intro!: memoryless_intros calm_intros announces_intros)

end
