(* ===== verification/Runtime.thy ===== *)
theory Runtime
  imports Wazero
begin

text \<open>
  The life of backend instances in \<open>internal/wazero/wazero.go\<close>: the module that is compiled
  once, the instances made from it, and the constructors \<open>NewBackend\<close>, \<open>LoadBackend\<close>, \<open>Fork\<close> and
  \<open>ParseRawChanges\<close>, which make an instance, talk to it and close it again when something goes
  wrong.

  The package variables and the instances are the \<open>world\<close>. The wazero runtime is third-party
  code and is the parameter \<open>R\<close>: what instantiating WASI and compiling the module return, what
  instantiating the compiled module under a name returns given the names in use, and the
  operations of an instance. An instance is named by the counter value it was made with.
\<close>

record 'w wazero_runtime =
  rt_wasi :: "go_error option"
  rt_compile :: "go_error option"
  rt_instantiate :: "uint64 \<Rightarrow> (uint64 \<Rightarrow> bool) \<Rightarrow> go_error + 'w"
  rt_module :: "'w api_module"
  rt_open :: "'w \<Rightarrow> bool"

record 'w world =
  wasmOnce :: bool
  wasmInitErr :: "go_error option"
  instanceCounter :: uint64
  instances :: "uint64 \<Rightarrow> 'w option"

type_synonym Backend = uint64

section \<open>Compiling and instantiating\<close>

definition wrapf :: "string \<Rightarrow> go_error \<Rightarrow> go_error" where
  "wrapf fmt e = Errorf fmt [AErr e]"

definition wasm_init :: "'w wazero_runtime \<Rightarrow> go_error option" where
  "wasm_init R = (case rt_wasi R of
     Some e \<Rightarrow> Some (wrapf ''automerge: failed to instantiate WASI: %w'' e)
   | None \<Rightarrow> (case rt_compile R of
       Some e \<Rightarrow> Some (wrapf ''automerge: failed to compile WASM module: %w'' e)
     | None \<Rightarrow> None))"

definition ensureWasmCompiled :: "'w wazero_runtime \<Rightarrow> ('w world, unit) comp" where
  "ensureWasmCompiled R = (\<lambda>W.
     let W' = (if wasmOnce W then W else W\<lparr>wasmOnce := True, wasmInitErr := wasm_init R\<rparr>) in
     case wasmInitErr W' of Some e \<Rightarrow> (Error e, W') | None \<Rightarrow> (Ok (), W'))"

definition in_use :: "'w wazero_runtime \<Rightarrow> 'w world \<Rightarrow> uint64 \<Rightarrow> bool" where
  "in_use R W b = (case instances W b of None \<Rightarrow> False | Some w \<Rightarrow> rt_open R w)"

definition newBackendInstance :: "'w wazero_runtime \<Rightarrow> ('w world, Backend) comp" where
  "newBackendInstance R = andThen (ensureWasmCompiled R) (\<lambda>_ W.
     let n = instanceCounter W + 1; W' = W\<lparr>instanceCounter := n\<rparr> in
     case rt_instantiate R n (in_use R W') of
       Inl e \<Rightarrow> (Error (wrapf ''automerge: failed to instantiate module: %w'' e), W')
     | Inr w \<Rightarrow> (Ok n, W'\<lparr>instances := (instances W')(n \<mapsto> w)\<rparr>))"

definition nil_deref :: go_error where
  "nil_deref = Errorf ''invalid memory address or nil pointer dereference'' []"

text \<open>A method of instance \<open>b\<close>.\<close>

definition on_inst :: "Backend \<Rightarrow> ('w, 'a) comp \<Rightarrow> ('w world, 'a) comp" where
  "on_inst b m = (\<lambda>W. case instances W b of
     None \<Rightarrow> (Panic nil_deref, W)
   | Some w \<Rightarrow> (case m w of (r, w') \<Rightarrow> (r, W\<lparr>instances := (instances W)(b \<mapsto> w')\<rparr>)))"

definition free_on :: "'w wazero_runtime \<Rightarrow> Backend \<Rightarrow> uint32 \<Rightarrow> uint32 \<Rightarrow> 'w world \<Rightarrow> 'w world" where
  "free_on R b p n W = (case instances W b of
     None \<Rightarrow> W | Some w \<Rightarrow> W\<lparr>instances := (instances W)(b \<mapsto> free (rt_module R) p n w)\<rparr>)"

definition close_inst :: "'w wazero_runtime \<Rightarrow> Backend \<Rightarrow> 'w world \<Rightarrow> 'w world" where
  "close_inst R b W = snd (on_inst b (Close (rt_module R)) W)"

text \<open>\<open>b.Close(ctx); return nil, err\<close>\<close>

definition close_fail :: "'w wazero_runtime \<Rightarrow> Backend \<Rightarrow> go_error \<Rightarrow> ('w world, 'a) comp" where
  "close_fail R b e = (\<lambda>W. (Error e, close_inst R b W))"

text \<open>\<open>if err != nil { b.Close(ctx); return nil, wrap(err) }\<close> after a call on \<open>b\<close>.\<close>

definition or_close ::
  "'w wazero_runtime \<Rightarrow> Backend \<Rightarrow> (go_error \<Rightarrow> go_error) \<Rightarrow> ('w world, 'a) comp \<Rightarrow> ('w world, 'a) comp" where
  "or_close R b wrap m = (\<lambda>W. case m W of
     (Error e, W') \<Rightarrow> close_fail R b (wrap e) W'
   | (r, W') \<Rightarrow> (r, W'))"

section \<open>The constructors\<close>

definition NewBackend :: "'w wazero_runtime \<Rightarrow> ('w world, Backend) comp" where
  "NewBackend R = andThen (newBackendInstance R) (\<lambda>b.
     andThen (or_close R b (wrapf ''automerge: am_create failed: %w'')
       (on_inst b (call0 (rt_module R) ''am_create'' []))) (\<lambda>r.
     if i32 r \<noteq> 0 then close_fail R b (rc_error ''automerge: am_create failed: %d'' (i32 r))
     else ret b))"

definition LoadBackend :: "'w wazero_runtime \<Rightarrow> bytes \<Rightarrow> ('w world, Backend) comp" where
  "LoadBackend R raw = andThen (newBackendInstance R) (\<lambda>b.
     andThen (or_close R b id (on_inst b (writeBytes (rt_module R) raw))) (\<lambda>(ptr, sz).
     deferred (free_on R b ptr sz) (
     andThen (or_close R b id (on_inst b (call0 (rt_module R) ''am_load'' [u64 ptr, u64 sz]))) (\<lambda>r.
     if i32 r \<noteq> 0 then close_fail R b (Errorf ''automerge: failed to load document'' [])
     else ret b))))"

fun infos_loop :: "'w wazero_runtime \<Rightarrow> Backend \<Rightarrow> bytes list \<Rightarrow> ('w world, ChangeInfo list) comp" where
  "infos_loop R nb [] = ret []"
| "infos_loop R nb (rc # rcs) = (\<lambda>W. case on_inst nb (GetChangeInfo (rt_module R) rc) W of
     (Error e, W') \<Rightarrow> (Error (wrapf ''unable to parse changes: %w'' e), W')
   | (Panic p, W') \<Rightarrow> (Panic p, W')
   | (Ok info, W') \<Rightarrow> andThen (infos_loop R nb rcs) (\<lambda>infos. ret (info # infos)) W')"

text \<open>\<open>ParseRawChanges\<close> does not return when \<open>splitChangeChunks\<close> does not: the value \<open>None\<close>.\<close>

definition ParseRawChanges ::
  "'w wazero_runtime \<Rightarrow> bytes \<Rightarrow> ('w world, bytes list \<times> ChangeInfo list) comp option" where
  "ParseRawChanges R raw = map_option (\<lambda>split. andThen (lift split) (\<lambda>chunks.
     if chunks = [] then ret ([], [])
     else andThen (newBackendInstance R) (\<lambda>nb.
       deferred (close_inst R nb) (
       andThen (infos_loop R nb chunks) (\<lambda>infos. ret (chunks, infos))))))
     (splitChangeChunks raw)"

text \<open>
  \<open>Fork\<close> on instance \<open>b\<close>. The four deferred frees run in reverse order, after a \<open>Close\<close> on the
  error paths.
\<close>

definition Fork_reload :: "'w wazero_runtime \<Rightarrow> Backend \<Rightarrow> uint32 \<Rightarrow> ('w world, Backend) comp" where
  "Fork_reload R nb forkLen =
     andThen (or_close R nb id (on_inst nb (alloc (rt_module R) forkLen))) (\<lambda>forkPtr.
     deferred (free_on R nb forkPtr forkLen) (
     andThen (or_close R nb id (on_inst nb (call (rt_module R) ''am_fork_get'' [u64 forkPtr]))) (\<lambda>_.
     andThen (or_close R nb id (on_inst nb (readBytes (rt_module R) forkPtr forkLen))) (\<lambda>forkData.
     andThen (or_close R nb id (on_inst nb (writeBytes (rt_module R) forkData))) (\<lambda>(loadPtr, loadSize).
     deferred (free_on R nb loadPtr loadSize) (
     andThen (or_close R nb id (on_inst nb (call0 (rt_module R) ''am_load'' [u64 loadPtr, u64 loadSize]))) (\<lambda>r.
     if i32 r \<noteq> 0 then close_fail R nb (rc_error ''automerge: am_load forked data failed: %d'' (i32 r))
     else ret nb)))))))"

definition Fork :: "'w wazero_runtime \<Rightarrow> Backend \<Rightarrow> ChangeHash list \<Rightarrow> ('w world, Backend) comp" where
  "Fork R b atHeads =
     andThen (on_inst b (Save (rt_module R))) (\<lambda>saved.
     andThen (newBackendInstance R) (\<lambda>nb.
     andThen (or_close R nb id (on_inst nb (writeBytes (rt_module R) saved))) (\<lambda>(ptr, sz).
     deferred (free_on R nb ptr sz) (
     andThen (or_close R nb id (on_inst nb (call0 (rt_module R) ''am_load'' [u64 ptr, u64 sz]))) (\<lambda>r.
     if i32 r \<noteq> 0 then close_fail R nb (rc_error ''automerge: am_load failed during fork: %d'' (i32 r)) else
     andThen (or_close R nb id (on_inst nb (writeBytes (rt_module R) (EncodeChangeHashes atHeads)))) (\<lambda>(headsPtr, headsSize).
     deferred (free_on R nb headsPtr headsSize) (
     andThen (or_close R nb id (on_inst nb (call0 (rt_module R) ''am_fork''
       [u64 headsPtr, u64 (word_of_nat (length atHeads))]))) (\<lambda>r.
     if i32 r \<noteq> 0 then close_fail R nb (rc_error ''automerge: am_fork failed: %d'' (i32 r)) else
     andThen (or_close R nb id (on_inst nb (call0 (rt_module R) ''am_fork_len'' []))) (\<lambda>r.
     let forkLen = u32 r in
     if forkLen = 0 then ret nb else Fork_reload R nb forkLen)))))))))"

section \<open>Which instances stay open\<close>

text \<open>
  What the constructors rely on: closing an instance closes it, calls and memory accesses
  neither open nor close one, and a new instance is open and takes a name that is not in use.
\<close>

text \<open>What a constructor owes: a new open instance on success, and on an error none more than before.\<close>

definition accounted :: "'w wazero_runtime \<Rightarrow> ('w world, Backend) comp \<Rightarrow> 'w world \<Rightarrow> bool" where
  "accounted R m W = (case m W of
     (Ok b, W') \<Rightarrow> \<not> in_use R W b \<and> in_use R W' = (in_use R W)(b := True)
   | (Error e, W') \<Rightarrow> in_use R W' = in_use R W
   | (Panic e, W') \<Rightarrow> True)"

named_theorems pool_intros \<open>computations that close the instance they fail on\<close>

locale instance_pool =
  fixes R :: "'w wazero_runtime"
  assumes close_closes: "\<not> rt_open R (snd (mod_Close (rt_module R) w))"
    and call_keeps: "rt_open R (snd (fn_Call (rt_module R) name ps w)) = rt_open R w"
    and write_keeps: "Memory_Write (rt_module R) p d w = Some w' \<Longrightarrow> rt_open R w' = rt_open R w"
    and fresh: "rt_instantiate R n used = Inr w \<Longrightarrow> \<not> used n \<and> rt_open R w"
begin

abbreviation "M \<equiv> rt_module R"

lemma open_call [heap_intros]: "keeps (rt_open R) (call M name ps)"
proof (rule keepsI)
  fix w show "rt_open R (snd (call M name ps w)) = rt_open R w"
    using call_keeps [of name ps w] by (auto simp: call_def split: prod.splits sum.splits)
qed

lemma open_call0 [heap_intros]: "keeps (rt_open R) (call0 M name ps)"
  unfolding call0_def by (intro heap_intros)

lemma open_free: "rt_open R (free M p n w) = rt_open R w"
  using keepsD [OF open_call, of "''am_free''" "[u64 p, u64 n]" w] by (simp add: free_def)

lemma open_deferred_free [heap_intros]: "keeps (rt_open R) m \<Longrightarrow> keeps (rt_open R) (deferred (free M p n) m)"
  by (simp add: keeps_def deferred_def open_free split_beta)

lemma open_readBytes [heap_intros]: "keeps (rt_open R) (readBytes M p n)"
  by (auto simp: keeps_def readBytes_def split: option.splits)

lemma open_alloc [heap_intros]: "keeps (rt_open R) (alloc M n)"
  unfolding alloc_def Let_def by (intro heap_intros)

lemma open_mem_write [heap_intros]: "keeps (rt_open R) (mem_write M p d)"
  by (auto simp: keeps_def mem_write_def write_keeps split: option.splits)

lemma open_writeBytes [heap_intros]: "keeps (rt_open R) (writeBytes M d)"
  unfolding writeBytes_def Let_def by (intro heap_intros)

lemma open_withAlloc [heap_intros]: "(\<And>p. keeps (rt_open R) (f p)) \<Longrightarrow> keeps (rt_open R) (withAlloc M n f)"
  unfolding withAlloc_def by (intro heap_intros)

lemma open_withBytes [heap_intros]: "(\<And>p n. keeps (rt_open R) (f p n)) \<Longrightarrow> keeps (rt_open R) (withBytes M d f)"
  unfolding withBytes_def by (intro heap_intros)

lemma open_Save: "keeps (rt_open R) (Save M)"
  unfolding Save_def Let_def by (intro heap_intros)

lemma open_GetChangeInfo: "keeps (rt_open R) (GetChangeInfo M raw)"
  unfolding GetChangeInfo_def fetch_def Let_def by (intro heap_intros)

section \<open>Settling an instance\<close>

text \<open>
  \<open>settles b P m\<close>: run while \<open>b\<close> is open, \<open>m\<close> leaves the set of open instances alone when it
  succeeds, with a result that satisfies \<open>P\<close>, and closes exactly \<open>b\<close> when it returns an error.
\<close>

definition settles :: "Backend \<Rightarrow> ('a \<Rightarrow> bool) \<Rightarrow> ('w world, 'a) comp \<Rightarrow> bool" where
  "settles b P m \<longleftrightarrow> (\<forall>W. in_use R W b \<longrightarrow> (case m W of
     (Ok x, W') \<Rightarrow> P x \<and> in_use R W' = in_use R W
   | (Error e, W') \<Rightarrow> in_use R W' = (in_use R W)(b := False)
   | (Panic e, W') \<Rightarrow> True))"

lemma in_use_put [simp]:
  "in_use R (W\<lparr>instances := (instances W)(b \<mapsto> w)\<rparr>) = (in_use R W)(b := rt_open R w)"
  by (auto simp: in_use_def fun_eq_iff)

lemma in_use_count [simp]: "in_use R (W\<lparr>instanceCounter := n\<rparr>) = in_use R W"
  by (auto simp: in_use_def fun_eq_iff)

lemma in_use_on_inst:
  assumes "keeps (rt_open R) m"
  shows "in_use R (snd (on_inst b m W)) = in_use R W"
proof (cases "instances W b")
  case (Some w)
  then have "rt_open R (snd (m w)) = in_use R W b" using keepsD [OF assms] by (simp add: in_use_def)
  then show ?thesis using Some by (simp add: on_inst_def split_beta fun_upd_idem)
qed (simp add: on_inst_def)

lemma in_use_close: "in_use R (close_inst R b W) = (in_use R W)(b := False)"
proof (cases "instances W b")
  case None
  then have "\<not> in_use R W b" by (simp add: in_use_def)
  then show ?thesis using None by (simp add: close_inst_def on_inst_def fun_upd_idem)
next
  case (Some w)
  have "snd (Close M w) = snd (mod_Close M w)"
    by (simp add: Close_def split: prod.splits option.splits)
  then show ?thesis using Some close_closes by (simp add: close_inst_def on_inst_def split_beta)
qed

lemma in_use_free_on: "in_use R (free_on R b p n W) = in_use R W"
proof (cases "instances W b")
  case (Some w)
  then have "rt_open R (free M p n w) = in_use R W b" by (simp add: open_free in_use_def)
  then show ?thesis using Some by (simp add: free_on_def fun_upd_idem)
qed (simp add: free_on_def)

lemma settles_ret [pool_intros]: "P x \<Longrightarrow> settles b P (ret x)"
  by (simp add: settles_def ret_def)

lemma settles_close_fail [pool_intros]: "settles b P (close_fail R b e)"
  by (simp add: settles_def close_fail_def in_use_close)

lemma settles_or_close [pool_intros]:
  assumes "keeps (rt_open R) m"
  shows "settles b (\<lambda>_. True) (or_close R b wrap (on_inst b m))"
proof -
  have "in_use R W' = in_use R W" if "on_inst b m W = (r, W')" for W r W'
    using in_use_on_inst [OF assms, of b W] that by simp
  then show ?thesis
    by (auto simp: settles_def or_close_def close_fail_def in_use_close split: prod.splits outcome.splits)
qed

lemma settles_andThen [pool_intros]:
  assumes "settles b (\<lambda>_. True) m" and "\<And>x. settles b P (f x)"
  shows "settles b P (andThen m f)"
proof -
  have "case andThen m f W of
      (Ok x, W') \<Rightarrow> P x \<and> in_use R W' = in_use R W
    | (Error e, W') \<Rightarrow> in_use R W' = (in_use R W)(b := False)
    | (Panic e, W') \<Rightarrow> True" if W: "in_use R W b" for W
  proof (cases "m W")
    case (Pair r W1)
    show ?thesis
    proof (cases r)
      case (Ok x)
      then have same: "in_use R W1 = in_use R W" using assms(1) W Pair by (auto simp: settles_def)
      then have "in_use R W1 b" using W by simp
      then show ?thesis
        using assms(2) [of x, unfolded settles_def, rule_format, of W1] Pair Ok same
        by (simp add: andThen_def split: prod.splits outcome.splits)
    qed (use assms(1) W Pair in \<open>auto simp: settles_def andThen_def\<close>)
  qed
  then show ?thesis by (simp add: settles_def)
qed

lemma settles_deferred [pool_intros]: "settles b P m \<Longrightarrow> settles b P (deferred (free_on R b' p n) m)"
  by (auto simp: settles_def deferred_def in_use_free_on split: prod.splits outcome.splits)

lemma settles_if [pool_intros]: "settles b P x \<Longrightarrow> settles b P y \<Longrightarrow> settles b P (if c then x else y)"
  by simp

lemma settles_case_prod [pool_intros]: "(\<And>x y. settles b P (f x y)) \<Longrightarrow> settles b P (case_prod f p)"
  by (cases p) simp

definition constructs :: "('w world, Backend) comp \<Rightarrow> bool" where
  "constructs m \<longleftrightarrow> (\<forall>W. accounted R m W)"

lemma in_use_ensure: "in_use R (snd (ensureWasmCompiled R W)) = in_use R W"
  by (simp add: ensureWasmCompiled_def Let_def in_use_def fun_eq_iff split: option.splits)

lemma constructs_newBackendInstance: "constructs (newBackendInstance R)"
proof -
  have "accounted R (newBackendInstance R) W" for W
  proof (cases "ensureWasmCompiled R W")
    case (Pair r W1)
    then have same: "in_use R W1 = in_use R W" using in_use_ensure [of W] by simp
    let ?n = "instanceCounter W1 + 1"
    have put: "in_use R (W1\<lparr>instanceCounter := ?n, instances := (instances W1)(?n \<mapsto> w)\<rparr>) =
        (in_use R W)(?n := rt_open R w)" for w
      using in_use_put [of "W1\<lparr>instanceCounter := ?n\<rparr>" ?n w] same by simp
    show ?thesis
    proof (cases r)
      case (Ok u)
      then show ?thesis
        using Pair same put fresh [of ?n "in_use R W"]
        by (auto simp: accounted_def newBackendInstance_def andThen_def Let_def split: sum.splits)
    qed (use Pair same in \<open>auto simp: accounted_def newBackendInstance_def andThen_def\<close>)
  qed
  then show ?thesis by (simp add: constructs_def)
qed

lemma constructs_andThen:
  assumes "\<And>b. settles b (\<lambda>x. x = b) (f b)"
  shows "constructs (andThen (newBackendInstance R) f)"
proof -
  note new = constructs_newBackendInstance [unfolded constructs_def accounted_def, rule_format]
  have "accounted R (andThen (newBackendInstance R) f) W" for W
  proof (cases "newBackendInstance R W")
    case (Pair r W1)
    show ?thesis
    proof (cases r)
      case (Ok b)
      then have b: "\<not> in_use R W b" "in_use R W1 = (in_use R W)(b := True)"
        using new [of W] Pair by simp_all
      have "(in_use R W1)(b := False) = in_use R W" using b by (simp add: fun_upd_idem)
      then show ?thesis
        using assms [of b, unfolded settles_def, rule_format, of W1] Pair Ok b
        by (auto simp: accounted_def andThen_def split: prod.splits outcome.splits)
    qed (use new [of W] Pair in \<open>auto simp: accounted_def andThen_def\<close>)
  qed
  then show ?thesis by (simp add: constructs_def)
qed

theorem constructs_NewBackend: "constructs (NewBackend R)"
  unfolding NewBackend_def
  by (intro constructs_andThen pool_intros) (auto intro: heap_intros)

theorem constructs_LoadBackend: "constructs (LoadBackend R raw)"
  unfolding LoadBackend_def
  by (intro constructs_andThen pool_intros) (auto intro: heap_intros)

lemma settles_Fork_reload [pool_intros]: "settles nb (\<lambda>x. x = nb) (Fork_reload R nb n)"
  unfolding Fork_reload_def by (intro pool_intros) (auto intro: heap_intros)

lemma keeps_on_inst: "keeps (rt_open R) m \<Longrightarrow> keeps (in_use R) (on_inst b m)"
  by (rule keepsI) (rule in_use_on_inst)

lemma constructs_after:
  assumes "keeps (in_use R) m" and "\<And>x. constructs (f x)"
  shows "constructs (andThen m f)"
proof -
  have "accounted R (andThen m f) W" for W
  proof (cases "m W")
    case (Pair r W1)
    then have same: "in_use R W1 = in_use R W" using keepsD [OF assms(1), of W] by simp
    show ?thesis
    proof (cases r)
      case (Ok x)
      then show ?thesis
        using assms(2) [of x, unfolded constructs_def, rule_format, of W1] Pair same
        by (simp add: accounted_def andThen_def split: prod.splits outcome.splits)
    qed (use Pair same in \<open>auto simp: accounted_def andThen_def\<close>)
  qed
  then show ?thesis by (simp add: constructs_def)
qed

theorem constructs_Fork: "constructs (Fork R b atHeads)"
  unfolding Fork_def Let_def
  by (intro constructs_after keeps_on_inst open_Save constructs_andThen pool_intros) (auto intro: heap_intros)

lemma keeps_infos_loop: "keeps (in_use R) (infos_loop R nb rcs)"
proof (induction rcs)
  case (Cons rc rcs)
  have "keeps (in_use R) (andThen (infos_loop R nb rcs) (\<lambda>infos. ret (info # infos)))" for info
    by (intro heap_intros Cons.IH)
  moreover have "keeps (in_use R) (on_inst nb (GetChangeInfo M rc))"
    by (intro keeps_on_inst open_GetChangeInfo)
  ultimately have step: "in_use R (snd (infos_loop R nb (rc # rcs) W)) = in_use R W" for W
    by (cases "on_inst nb (GetChangeInfo M rc) W")
      (use keepsD [OF \<open>keeps (in_use R) (on_inst nb (GetChangeInfo M rc))\<close>, of W] in
        \<open>auto simp: keeps_def split: outcome.splits\<close>)
  then show ?case by (rule keepsI)
qed (simp add: keeps_ret)

theorem ParseRawChanges_keeps:
  assumes "ParseRawChanges R raw = Some m"
  shows "in_use R (snd (m W)) = in_use R W"
proof -
  have loop: "keeps (in_use R) (andThen (infos_loop R nb chunks) (\<lambda>infos. ret (chunks, infos)))" for nb chunks
    by (intro heap_intros keeps_infos_loop)
  have body: "in_use R (snd (andThen (newBackendInstance R) (\<lambda>nb.
      deferred (close_inst R nb) (andThen (infos_loop R nb chunks) (\<lambda>infos. ret (chunks, infos)))) W)) = in_use R W"
    for chunks W
  proof (cases "newBackendInstance R W")
    case (Pair r W1)
    note new = constructs_newBackendInstance [unfolded constructs_def accounted_def, rule_format, of W]
    show ?thesis
    proof (cases r)
      case (Ok nb)
      then have "(in_use R W1)(nb := False) = in_use R W" using new Pair by (simp add: fun_upd_idem)
      then show ?thesis
        unfolding andThen_Ok [where m = "newBackendInstance R" and s = W, OF Pair [unfolded Ok]]
        using keepsD [OF loop [of nb chunks], of W1] by (simp add: deferred_def split_beta in_use_close)
    next
      case (Error e)
      then show ?thesis using new Pair by (simp add: andThen_def)
    next
      case (Panic e)
      then show ?thesis
        using Pair
        by (auto simp: newBackendInstance_def ensureWasmCompiled_def andThen_def Let_def
            split: option.splits sum.splits if_splits)
    qed
  qed
  show ?thesis
    using assms body
    by (auto simp: ParseRawChanges_def andThen_def lift_def ret_def split: outcome.splits)
qed

end

end
