(* ===== verification/Doc.thy ===== *)
theory Doc
  imports Runtime
begin

text \<open>
  Documents, changes and sync states: \<open>doc.go\<close>, \<open>changes.go\<close> and \<open>sync_state.go\<close>.

  The program state \<open>prog\<close> has the world of backend instances, the documents and, for the API
  layer above, the Go objects that point into documents; objects are reached by references.
  A document is a backend, a mutex and the \<open>closed\<close> flag. Locking a mutex that is held blocks
  the goroutine for ever; in a sequential program that is the deadlock that the Go runtime
  reports, and the model makes it the panic \<open>deadlock\<close> and remembers it in \<open>p_stuck\<close>. \<open>with_lock\<close> is the pair of statements
  \<open>b, unlock := d.lock(); defer unlock()\<close> around the rest of a method.
\<close>

type_synonym ref = nat

record Doc =
  doc_b :: Backend
  doc_held :: bool
  doc_closed :: bool

datatype seg = SKey string | SIdx int

record Path =
  path_d :: ref
  path_path :: "seg list"

record MapObj =
  map_doc :: "ref option"
  map_handle :: ObjHandle
  map_path :: "Path option"

record ListObj =
  list_doc :: "ref option"
  list_handle :: ObjHandle
  list_path :: "Path option"

record TextObj =
  text_doc :: "ref option"
  text_handle :: ObjHandle
  text_path :: "Path option"
  text_val :: string

record CounterObj =
  counter_val :: int64
  counter_path :: "Path option"
  counter_m :: "ref option"
  counter_key :: string
  counter_l :: "ref option"
  counter_idx :: int

record 'w prog =
  p_world :: "'w world"
  p_docs :: "ref \<Rightarrow> Doc option"
  p_maps :: "ref \<Rightarrow> MapObj option"
  p_lists :: "ref \<Rightarrow> ListObj option"
  p_texts :: "ref \<Rightarrow> TextObj option"
  p_counters :: "ref \<Rightarrow> CounterObj option"
  p_next :: ref
  p_stuck :: bool

section \<open>Locking\<close>

definition deadlock :: go_error where
  "deadlock = Errorf ''all goroutines are asleep - deadlock!'' []"

definition set_held :: "ref \<Rightarrow> bool \<Rightarrow> 'w prog \<Rightarrow> 'w prog" where
  "set_held d h P = (case p_docs P d of
     None \<Rightarrow> P | Some D \<Rightarrow> P\<lparr>p_docs := (p_docs P)(d \<mapsto> D\<lparr>doc_held := h\<rparr>)\<rparr>)"

definition with_lock :: "ref \<Rightarrow> (Backend \<Rightarrow> ('w prog, 'a) comp) \<Rightarrow> ('w prog, 'a) comp" where
  "with_lock d body = (\<lambda>P. case p_docs P d of
     None \<Rightarrow> (Panic nil_deref, P)
   | Some D \<Rightarrow> if doc_held D then (Panic deadlock, P\<lparr>p_stuck := True\<rparr>)
       else deferred (set_held d False) (body (doc_b D)) (set_held d True P))"

definition on_world :: "('w world, 'a) comp \<Rightarrow> ('w prog, 'a) comp" where
  "on_world m = (\<lambda>P. case m (p_world P) of (r, W) \<Rightarrow> (r, P\<lparr>p_world := W\<rparr>))"

text \<open>A method of the backend \<open>b\<close>.\<close>

definition on_b :: "Backend \<Rightarrow> ('w, 'a) comp \<Rightarrow> ('w prog, 'a) comp" where
  "on_b b m = on_world (on_inst b m)"

text \<open>\<open>if err != nil { panic(fmt.Errorf(...)) }\<close>\<close>

fun must :: "string \<Rightarrow> 'a outcome \<Rightarrow> 'a outcome" where
  "must fmt (Ok x) = Ok x"
| "must fmt (Error e) = Panic (wrapf fmt e)"
| "must fmt (Panic p) = Panic p"

definition or_panic :: "string \<Rightarrow> ('s, 'a) comp \<Rightarrow> ('s, 'a) comp" where
  "or_panic fmt m = (\<lambda>s. case m s of (r, s') \<Rightarrow> (must fmt r, s'))"

definition new_doc :: "Backend \<Rightarrow> ('w prog, ref) comp" where
  "new_doc b = (\<lambda>P. (Ok (p_next P),
     P\<lparr>p_docs := (p_docs P)(p_next P \<mapsto> \<lparr>doc_b = b, doc_held = False, doc_closed = False\<rparr>),
       p_next := Suc (p_next P)\<rparr>))"

section \<open>Documents\<close>

definition Doc_New :: "'w wazero_runtime \<Rightarrow> ('w prog, ref) comp" where
  "Doc_New R = andThen (or_panic ''automerge.New: %w'' (on_world (NewBackend R))) new_doc"

definition Doc_Load :: "'w wazero_runtime \<Rightarrow> bytes \<Rightarrow> ('w prog, ref) comp" where
  "Doc_Load R raw = andThen (on_world (LoadBackend R raw)) new_doc"

definition is_closed :: "ref \<Rightarrow> ('w prog, bool) comp" where
  "is_closed d = (\<lambda>P. case p_docs P d of None \<Rightarrow> (Panic nil_deref, P) | Some D \<Rightarrow> (Ok (doc_closed D), P))"

definition set_closed :: "ref \<Rightarrow> ('w prog, unit) comp" where
  "set_closed d = (\<lambda>P. case p_docs P d of
     None \<Rightarrow> (Panic nil_deref, P)
   | Some D \<Rightarrow> (Ok (), P\<lparr>p_docs := (p_docs P)(d \<mapsto> D\<lparr>doc_closed := True\<rparr>)\<rparr>))"

definition Doc_Close :: "'w wazero_runtime \<Rightarrow> ref \<Rightarrow> ('w prog, unit) comp" where
  "Doc_Close R d = with_lock d (\<lambda>b.
     andThen (is_closed d) (\<lambda>closed.
     if closed then ret ()
     else andThen (set_closed d) (\<lambda>_. on_b b (Close (rt_module R)))))"

definition Doc_Save :: "'w wazero_runtime \<Rightarrow> ref \<Rightarrow> ('w prog, bytes) comp" where
  "Doc_Save R d = with_lock d (\<lambda>b. or_panic ''automerge.Doc.Save: %w'' (on_b b (Save (rt_module R))))"

record CommitOptions =
  co_Time :: "go_time option"
  co_AllowEmpty :: bool

fun commit_options :: "CommitOptions list \<Rightarrow> bool \<Rightarrow> go_time \<Rightarrow> bool \<times> go_time" where
  "commit_options [] allowEmpty ts = (allowEmpty, ts)"
| "commit_options (o' # os) allowEmpty ts =
     commit_options os (if co_AllowEmpty o' then True else allowEmpty)
       (case co_Time o' of Some t \<Rightarrow> t | None \<Rightarrow> ts)"

definition commit_millis :: "go_time \<Rightarrow> int64" where
  "commit_millis ts = (if \<not> Time_IsZero ts then Time_UnixMilli ts else 0)"

text \<open>
  \<open>Commit\<close>, with the result of \<open>time.Now()\<close> as a parameter. The backend returns
  \<open>ErrEmptyCommit\<close> itself, so \<open>errors.Is\<close> is equality here.
\<close>

definition commit_or_empty :: "'w api_module \<Rightarrow> string \<Rightarrow> int64 \<Rightarrow> bool \<Rightarrow> ('w, ChangeHash) comp" where
  "commit_or_empty M msg millis allowEmpty = (\<lambda>w. case Commit M msg millis w of
     (Error e, w') \<Rightarrow>
       (if e \<noteq> ErrEmptyCommit then (Error e, w')
        else if \<not> allowEmpty then (Error (Errorf ''Commit is empty'' []), w')
        else EmptyChange M msg millis w')
   | (r, w') \<Rightarrow> (r, w'))"

definition Doc_Commit ::
  "'w wazero_runtime \<Rightarrow> go_time \<Rightarrow> ref \<Rightarrow> string \<Rightarrow> CommitOptions list \<Rightarrow> ('w prog, ChangeHash) comp" where
  "Doc_Commit R now d msg opts = with_lock d (\<lambda>b.
     case commit_options opts False now of (allowEmpty, ts) \<Rightarrow>
       on_b b (commit_or_empty (rt_module R) msg (commit_millis ts) allowEmpty))"

definition Doc_Heads :: "'w wazero_runtime \<Rightarrow> ref \<Rightarrow> ('w prog, ChangeHash list) comp" where
  "Doc_Heads R d = with_lock d (\<lambda>b. or_panic ''automerge.Doc.Heads: %w'' (on_b b (Heads (rt_module R))))"

record Change =
  ch_raw :: bytes
  ch_info :: ChangeInfo

definition no_such_change :: "ChangeHash \<Rightarrow> go_error" where
  "no_such_change h =
     Errorf ''hash %s does not correspond to a change in this document'' [AStr (ChangeHash_String h)]"

definition get_change :: "'w api_module \<Rightarrow> bytes \<Rightarrow> ('w, Change) comp" where
  "get_change M raw = andThen (GetChangeInfo M raw) (\<lambda>info. ret \<lparr>ch_raw = raw, ch_info = info\<rparr>)"

definition Doc_Change :: "'w wazero_runtime \<Rightarrow> ref \<Rightarrow> ChangeHash \<Rightarrow> ('w prog, Change) comp" where
  "Doc_Change R d ch = with_lock d (\<lambda>b. on_b b (
     andThen (GetChangeByHash (rt_module R) ch) (\<lambda>raw. case raw of
       None \<Rightarrow> fail (no_such_change ch)
     | Some raw \<Rightarrow> get_change (rt_module R) raw)))"

fun get_changes :: "'w api_module \<Rightarrow> bytes list \<Rightarrow> ('w, Change list) comp" where
  "get_changes M [] = ret []"
| "get_changes M (raw # raws) = andThen (get_change M raw) (\<lambda>c.
     andThen (get_changes M raws) (\<lambda>cs. ret (c # cs)))"

definition Doc_Changes :: "'w wazero_runtime \<Rightarrow> ref \<Rightarrow> ChangeHash list \<Rightarrow> ('w prog, Change list) comp" where
  "Doc_Changes R d since = with_lock d (\<lambda>b. on_b b (
     andThen (GetChanges (rt_module R) since) (get_changes (rt_module R))))"

definition Doc_Apply :: "'w wazero_runtime \<Rightarrow> ref \<Rightarrow> Change list \<Rightarrow> ('w prog, unit) comp" where
  "Doc_Apply R d chs = (if chs = [] then ret ()
     else with_lock d (\<lambda>b. on_b b (ApplyChanges (rt_module R) (map ch_raw chs))))"

definition Doc_SaveIncremental :: "'w wazero_runtime \<Rightarrow> ref \<Rightarrow> ('w prog, bytes) comp" where
  "Doc_SaveIncremental R d = with_lock d (\<lambda>b.
     or_panic ''automerge.Doc.SaveIncremental: %w'' (on_b b (SaveIncremental (rt_module R))))"

definition Doc_LoadIncremental :: "'w wazero_runtime \<Rightarrow> ref \<Rightarrow> bytes \<Rightarrow> ('w prog, unit) comp" where
  "Doc_LoadIncremental R d raw = with_lock d (\<lambda>b. on_b b (LoadIncremental (rt_module R) raw))"

definition Doc_Fork :: "'w wazero_runtime \<Rightarrow> ref \<Rightarrow> ChangeHash list \<Rightarrow> ('w prog, ref) comp" where
  "Doc_Fork R d asOf = with_lock d (\<lambda>b. andThen (on_world (Fork R b asOf)) new_doc)"

definition Doc_Merge :: "'w wazero_runtime \<Rightarrow> ref \<Rightarrow> ref \<Rightarrow> ('w prog, ChangeHash list) comp" where
  "Doc_Merge R d d2 = andThen (Doc_Save R d2) (\<lambda>d2Bytes.
     with_lock d (\<lambda>b.
       andThen (on_b b (Merge (rt_module R) d2Bytes)) (\<lambda>_. on_b b (Heads (rt_module R)))))"

definition Doc_ActorID :: "'w wazero_runtime \<Rightarrow> ref \<Rightarrow> ('w prog, string) comp" where
  "Doc_ActorID R d = with_lock d (\<lambda>b. or_panic ''automerge.Doc.ActorID: %w'' (on_b b (GetActorID (rt_module R))))"

definition bad_actor :: "string \<Rightarrow> go_error \<Rightarrow> go_error" where
  "bad_actor ident e = Errorf ''automerge: invalid actor ID %q: %w'' [AStr ident, AErr e]"

definition Doc_SetActorID :: "'w wazero_runtime \<Rightarrow> ref \<Rightarrow> string \<Rightarrow> ('w prog, unit) comp" where
  "Doc_SetActorID R d ident = (case hex_DecodeString ident of
     Ok _ \<Rightarrow> with_lock d (\<lambda>b. on_b b (SetActorID (rt_module R) ident))
   | Error e \<Rightarrow> fail (bad_actor ident e)
   | Panic p \<Rightarrow> panic p)"

text \<open>\<open>NewActorID\<close>, with what \<open>rand.Read\<close> returns for its 16 bytes as a parameter.\<close>

definition NewActorID :: "(go_error + bytes) \<Rightarrow> string outcome" where
  "NewActorID rnd = (case rnd of
     Inl e \<Rightarrow> Panic (wrapf ''automerge.NewActorID: %w'' e)
   | Inr b \<Rightarrow> Ok (hex_EncodeToString b))"

section \<open>Changes\<close>

definition Change_ActorID :: "Change \<Rightarrow> string" where "Change_ActorID c = ci_ActorID (ch_info c)"
definition Change_ActorSeq :: "Change \<Rightarrow> uint64" where "Change_ActorSeq c = ci_Seq (ch_info c)"
definition Change_Hash :: "Change \<Rightarrow> ChangeHash" where "Change_Hash c = ci_Hash (ch_info c)"
definition Change_Dependencies :: "Change \<Rightarrow> ChangeHash list" where "Change_Dependencies c = ci_Deps (ch_info c)"
definition Change_Message :: "Change \<Rightarrow> string" where "Change_Message c = ci_Message (ch_info c)"
definition Change_Timestamp :: "Change \<Rightarrow> go_time" where "Change_Timestamp c = ci_Timestamp (ch_info c)"
definition Change_Save :: "Change \<Rightarrow> bytes" where "Change_Save c = ch_raw c"

definition LoadChanges :: "'w wazero_runtime \<Rightarrow> bytes \<Rightarrow> ('w world, Change list) comp option" where
  "LoadChanges R raw = map_option (\<lambda>m. andThen m (\<lambda>(rawChanges, infos).
     ret (map (\<lambda>(raw, info). \<lparr>ch_raw = raw, ch_info = info\<rparr>) (zip rawChanges infos)))) (ParseRawChanges R raw)"

definition SaveChanges :: "Change list \<Rightarrow> bytes" where
  "SaveChanges cs = concat (map Change_Save cs)"

section \<open>Sync states\<close>

record SyncState =
  ss_Doc :: ref
  ss_peerID :: uint32

definition NewSyncState :: "'w wazero_runtime \<Rightarrow> ref \<Rightarrow> ('w prog, SyncState) comp" where
  "NewSyncState R d = with_lock d (\<lambda>b.
     andThen (or_panic ''automerge.NewSyncState: %w'' (on_b b (SyncInit (rt_module R)))) (\<lambda>peerID.
     ret \<lparr>ss_Doc = d, ss_peerID = peerID\<rparr>))"

definition LoadSyncState :: "'w wazero_runtime \<Rightarrow> ref \<Rightarrow> bytes \<Rightarrow> ('w prog, SyncState) comp" where
  "LoadSyncState R d raw = with_lock d (\<lambda>b.
     andThen (on_b b (SyncLoad (rt_module R) raw)) (\<lambda>peerID. ret \<lparr>ss_Doc = d, ss_peerID = peerID\<rparr>))"

definition LoadSyncMessage :: "bytes \<Rightarrow> bytes outcome" where
  "LoadSyncMessage msg = (if msg = [] then Error (Errorf ''automerge: empty sync message'' []) else Ok msg)"

definition SyncState_ReceiveMessage :: "'w wazero_runtime \<Rightarrow> SyncState \<Rightarrow> bytes \<Rightarrow> ('w prog, bytes) comp" where
  "SyncState_ReceiveMessage R ss msg = with_lock (ss_Doc ss) (\<lambda>b.
     andThen (on_b b (SyncReceiveMessage (rt_module R) (ss_peerID ss) msg)) (\<lambda>_. lift (LoadSyncMessage msg)))"

text \<open>\<open>GenerateMessage\<close> reports an error of the backend as "nothing to send".\<close>

definition SyncState_GenerateMessage :: "'w wazero_runtime \<Rightarrow> SyncState \<Rightarrow> ('w prog, bytes option) comp" where
  "SyncState_GenerateMessage R ss = with_lock (ss_Doc ss) (\<lambda>b. swallowed None (
     andThen (on_b b (SyncGenerateMessage (rt_module R) (ss_peerID ss))) (\<lambda>(msgBytes, ok).
     ret (if \<not> ok \<or> msgBytes = [] then None else Some msgBytes))))"

definition SyncState_Save :: "'w wazero_runtime \<Rightarrow> SyncState \<Rightarrow> ('w prog, bytes) comp" where
  "SyncState_Save R ss = with_lock (ss_Doc ss) (\<lambda>b.
     or_panic ''automerge.SyncState.Save: %w'' (on_b b (SyncSave (rt_module R) (ss_peerID ss))))"

end
