(* ===== verification/Float64.thy ===== *)
theory Float64
  imports Prelude
begin

text \<open>
  The part of IEEE 754 that \<open>normalize.go\<close> relies on. A \<open>float64\<close> is its 64 bits. \<open>f64_of_int\<close> is
  Go's conversion of an integer, rounded to the nearest double with ties to even; \<open>f64_trunc\<close> is
  the truncation that Go's conversion to an integer gives when the result is in range; \<open>f64_eq\<close> is
  the comparison \<open>==\<close>. \<open>f64_int\<close> is the integer that a double denotes, if it denotes one.
\<close>

section \<open>The format\<close>

definition f64_exp :: "uint64 \<Rightarrow> int" where
  "f64_exp w = (uint w mod 2 ^ 63) div 2 ^ 52"

definition f64_frac :: "uint64 \<Rightarrow> int" where
  "f64_frac w = uint w mod 2 ^ 52"

definition f64_neg :: "uint64 \<Rightarrow> bool" where
  "f64_neg w \<longleftrightarrow> 2 ^ 63 \<le> uint w"

definition f64_nan :: "uint64 \<Rightarrow> bool" where
  "f64_nan w \<longleftrightarrow> f64_exp w = 2047 \<and> f64_frac w \<noteq> 0"

definition f64_zero :: "uint64 \<Rightarrow> bool" where
  "f64_zero w \<longleftrightarrow> uint w mod 2 ^ 63 = 0"

definition f64_eq :: "uint64 \<Rightarrow> uint64 \<Rightarrow> bool" where
  "f64_eq a b \<longleftrightarrow> \<not> f64_nan a \<and> \<not> f64_nan b \<and> (a = b \<or> f64_zero a \<and> f64_zero b)"

text \<open>\<open>f > 0\<close>\<close>

definition f64_pos :: "uint64 \<Rightarrow> bool" where
  "f64_pos w \<longleftrightarrow> \<not> f64_nan w \<and> \<not> f64_neg w \<and> \<not> f64_zero w"

text \<open>A finite double is \<open>\<plusminus> m * 2 ^ k\<close> for its significand and its exponent.\<close>

definition f64_m :: "uint64 \<Rightarrow> int" where
  "f64_m w = (if f64_exp w = 0 then f64_frac w else 2 ^ 52 + f64_frac w)"

definition f64_k :: "uint64 \<Rightarrow> int" where
  "f64_k w = max (f64_exp w) 1 - 1075"

definition f64_signed :: "uint64 \<Rightarrow> int \<Rightarrow> int" where
  "f64_signed w a = (if f64_neg w then - a else a)"

definition f64_trunc :: "uint64 \<Rightarrow> int option" where
  "f64_trunc w = (if f64_exp w = 2047 then None
     else if 0 \<le> f64_k w then Some (f64_signed w (f64_m w * 2 ^ nat (f64_k w)))
     else Some (f64_signed w (f64_m w div 2 ^ nat (- f64_k w))))"

definition f64_int :: "uint64 \<Rightarrow> int option" where
  "f64_int w = (if f64_exp w = 2047 \<or> f64_k w < 0 \<and> f64_m w mod 2 ^ nat (- f64_k w) \<noteq> 0 then None else f64_trunc w)"

section \<open>Integers to doubles\<close>

fun ilog2 :: "int \<Rightarrow> nat" where
  "ilog2 n = (if n \<le> 1 then 0 else Suc (ilog2 (n div 2)))"

declare ilog2.simps [simp del]

definition round_even :: "int \<Rightarrow> int \<Rightarrow> int" where
  "round_even a d = (let q = a div d; r = a mod d in if d < 2 * r \<or> 2 * r = d \<and> odd q then q + 1 else q)"

text \<open>The 53 leading bits; rounding up to the next power of two carries into the exponent.\<close>

definition f64_lead :: "int \<Rightarrow> int" where
  "f64_lead a = (let e = ilog2 a in if e \<le> 52 then a * 2 ^ (52 - e) else round_even a (2 ^ (e - 52)))"

definition f64_of_int :: "int \<Rightarrow> uint64" where
  "f64_of_int n = (if n = 0 then 0 else
     word_of_int ((if n < 0 then 2 ^ 63 else 0) + (int (ilog2 \<bar>n\<bar>) + 1023) * 2 ^ 52 + (f64_lead \<bar>n\<bar> - 2 ^ 52)))"

section \<open>Exact integers\<close>

lemma ilog2_unique: "2 ^ e \<le> n \<Longrightarrow> n < 2 ^ Suc e \<Longrightarrow> ilog2 n = e"
proof (induction e arbitrary: n)
  case 0
  then show ?case by (simp add: ilog2.simps)
next
  case (Suc e)
  then have "2 ^ e \<le> n div 2" "n div 2 < 2 ^ Suc e" by simp_all
  then have "ilog2 (n div 2) = e" by (rule Suc.IH)
  moreover have "\<not> n \<le> 1"
  proof -
    have "2 * (1 :: int) \<le> 2 * 2 ^ e" by (rule mult_left_mono) simp_all
    then show ?thesis using Suc.prems(1) unfolding power_Suc by linarith
  qed
  ultimately show ?case by (simp add: ilog2.simps [of n])
qed

lemma ilog2_bounds: "0 < n \<Longrightarrow> 2 ^ ilog2 n \<le> n \<and> n < 2 ^ Suc (ilog2 n)"
proof (induction n rule: ilog2.induct)
  case (1 n)
  show ?case
  proof (cases "n \<le> 1")
    case True
    then show ?thesis using 1 by (simp add: ilog2.simps)
  next
    case False
    then have "2 ^ ilog2 (n div 2) \<le> n div 2 \<and> n div 2 < 2 ^ Suc (ilog2 (n div 2))" using 1 by simp
    then have "2 * 2 ^ ilog2 (n div 2) \<le> n" "n < 2 * (2 * 2 ^ ilog2 (n div 2))" by simp_all linarith+
    then show ?thesis using False by (simp add: ilog2.simps [of n])
  qed
qed

lemma round_even_exact: "0 < d \<Longrightarrow> round_even (m * d) d = m"
  by (simp add: round_even_def Let_def)

text \<open>An integer \<open>m * 2 ^ k\<close> with a significand of 53 bits is its own leading bits.\<close>

lemma lead_exact:
  assumes "2 ^ 52 \<le> m" and "m < 2 ^ 53"
  shows "f64_lead (m * 2 ^ k) = m" and "ilog2 (m * 2 ^ k) = 52 + k"
proof -
  have "2 ^ (52 + k) \<le> m * 2 ^ k" using assms(1) by (simp add: power_add)
  moreover have "m * 2 ^ k < 2 ^ Suc (52 + k)" using assms(2) by (simp add: power_add)
  ultimately show l: "ilog2 (m * 2 ^ k) = 52 + k" by (rule ilog2_unique)
  show "f64_lead (m * 2 ^ k) = m"
    unfolding f64_lead_def l Let_def by (cases "k = 0") (simp_all add: round_even_exact)
qed

lemma lead_small:
  assumes "0 < a" and "a = m div 2 ^ k" and "m mod 2 ^ k = 0" and "2 ^ 52 \<le> m" and "m < 2 ^ 53"
  shows "f64_lead a = m" and "int (ilog2 a) = 52 - int k"
proof -
  have m: "m = a * 2 ^ k" using assms(2,3) by (metis div_mult_mod_eq add_0_right)
  have "k \<le> 52"
  proof (rule ccontr)
    assume "\<not> k \<le> 52"
    then have "(2 :: int) ^ 53 \<le> 2 ^ k" by (intro power_increasing) simp_all
    also have "\<dots> \<le> m" using assms(1) m by simp
    finally show False using assms(5) by simp
  qed
  then have split: "(2 :: int) ^ 52 = 2 ^ (52 - k) * 2 ^ k" "(2 :: int) ^ 53 = 2 ^ Suc (52 - k) * 2 ^ k"
    by (simp_all only: power_add [symmetric]) (simp_all add: Suc_diff_le)
  have "2 ^ (52 - k) \<le> a" using assms(4) unfolding m split(1) by simp
  moreover have "a < 2 ^ Suc (52 - k)" using assms(5) unfolding m split(2) by (simp del: power_Suc)
  ultimately have l: "ilog2 a = 52 - k" by (rule ilog2_unique)
  then show "int (ilog2 a) = 52 - int k" using \<open>k \<le> 52\<close> by simp
  show "f64_lead a = m" using \<open>k \<le> 52\<close> by (simp add: f64_lead_def l m Let_def)
qed

text \<open>The bits of a double from its parts.\<close>

lemma f64_parts: "uint w = (if f64_neg w then 2 ^ 63 else 0) + f64_exp w * 2 ^ 52 + f64_frac w"
proof -
  have lt: "uint w < 2 ^ 64" "0 \<le> uint w" using uint_lt2p [of w] by simp_all
  have "uint w mod 2 ^ 63 = uint w - (if f64_neg w then 2 ^ 63 else 0)"
  proof (cases "f64_neg w")
    case True
    then have "(uint w - 2 ^ 63) mod 2 ^ 63 = uint w - 2 ^ 63"
      using lt by (intro mod_pos_pos_trivial) (simp_all add: f64_neg_def)
    moreover have "(uint w - 2 ^ 63) mod 2 ^ 63 = uint w mod 2 ^ 63" by (rule minus_mod_self2)
    ultimately show ?thesis using True by simp
  next
    case False
    then show ?thesis using lt by (simp add: f64_neg_def)
  qed
  moreover have "(uint w mod 2 ^ 63) mod 2 ^ 52 = uint w mod 2 ^ 52" by (rule mod_mod_cancel) simp
  ultimately show ?thesis
    using div_mult_mod_eq [of "uint w mod 2 ^ 63" "2 ^ 52"] unfolding f64_exp_def f64_frac_def by linarith
qed

lemma f64_ranges: "0 \<le> f64_exp w" "f64_exp w < 2048" "0 \<le> f64_frac w" "f64_frac w < 2 ^ 52" "0 \<le> f64_m w" "f64_m w < 2 ^ 53"
proof -
  show "0 \<le> f64_exp w" "f64_exp w < 2048" by (simp_all add: f64_exp_def div_less_iff_less_mult)
  show frac: "0 \<le> f64_frac w" "f64_frac w < 2 ^ 52" by (simp_all add: f64_frac_def)
  then show "0 \<le> f64_m w" "f64_m w < 2 ^ 53" by (simp_all add: f64_m_def)
qed

text \<open>A double that denotes a number other than zero is the conversion of that number.\<close>

lemma f64_of_int_denoted:
  assumes "f64_int w = Some n" and "n \<noteq> 0"
  shows "f64_of_int n = w"
proof -
  have fin: "f64_exp w \<noteq> 2047" and tr: "f64_trunc w = Some n"
    and ex: "f64_k w < 0 \<Longrightarrow> f64_m w mod 2 ^ nat (- f64_k w) = 0"
    using assms(1) by (auto simp: f64_int_def split: if_splits)
  define a where "a = (if 0 \<le> f64_k w then f64_m w * 2 ^ nat (f64_k w) else f64_m w div 2 ^ nat (- f64_k w))"
  have n: "n = f64_signed w a" using tr fin by (auto simp: f64_trunc_def a_def split: if_splits)
  have "0 \<le> a" using f64_ranges(5) [of w] by (simp add: a_def pos_imp_zdiv_nonneg_iff)
  then have a: "0 < a" using n assms(2) by (cases "a = 0") (auto simp: f64_signed_def split: if_splits)
  have exp: "f64_exp w \<noteq> 0"
  proof
    assume "f64_exp w = 0"
    then have "f64_k w = - 1074" "f64_m w < 2 ^ 52" using f64_ranges(4) by (simp_all add: f64_k_def f64_m_def)
    then have "a = f64_m w div 2 ^ 1074" "f64_m w < 2 ^ 1074" by (simp_all add: a_def)
    then show False using a f64_ranges(5) [of w] by simp
  qed
  then have m: "f64_m w = 2 ^ 52 + f64_frac w" "2 ^ 52 \<le> f64_m w" "f64_m w < 2 ^ 53" "f64_k w = f64_exp w - 1075"
    using f64_ranges [of w] by (simp_all add: f64_m_def f64_k_def)
  have "f64_lead a = f64_m w \<and> int (ilog2 a) = 52 + f64_k w"
  proof (cases "0 \<le> f64_k w")
    case True
    then show ?thesis using lead_exact [OF m(2,3), of "nat (f64_k w)"] by (simp add: a_def)
  next
    case False
    then show ?thesis using lead_small [of a "f64_m w" "nat (- f64_k w)"] a ex m by (simp add: a_def)
  qed
  moreover have "\<bar>n\<bar> = a" "n < 0 \<longleftrightarrow> f64_neg w" using n a by (auto simp: f64_signed_def)
  ultimately have "f64_of_int n = word_of_int ((if f64_neg w then 2 ^ 63 else 0) + f64_exp w * 2 ^ 52 + f64_frac w)"
    using assms(2) m by (simp add: f64_of_int_def algebra_simps)
  then show ?thesis by (simp only: f64_parts [symmetric] word_of_int_uint)
qed

lemma f64_of_parts:
  assumes "w = word_of_int ((if s then 2 ^ 63 else 0) + E * 2 ^ 52 + F)" and "0 \<le> E" "E < 2048" "0 \<le> F" "F < 2 ^ 52"
  shows "f64_exp w = E" and "f64_frac w = F" and "f64_neg w = s"
proof -
  let ?u = "(if s then 2 ^ 63 else 0) + E * 2 ^ 52 + F"
  have mag: "0 \<le> E * 2 ^ 52 + F" "E * 2 ^ 52 + F < 2 ^ 63" using assms(2-) by simp_all
  then have u: "uint w = ?u" unfolding assms(1) by (subst uint_word_of_int_eq) (auto simp: take_bit_int_eq_self_iff)
  then show neg: "f64_neg w = s" using mag by (auto simp: f64_neg_def)
  have "f64_exp w * 2 ^ 52 + f64_frac w = E * 2 ^ 52 + F" using f64_parts [of w] u neg by simp
  moreover have "0 \<le> f64_frac w" "f64_frac w < 2 ^ 52" using f64_ranges by simp_all
  ultimately show "f64_exp w = E" using assms(4,5) by simp
  then show "f64_frac w = F" using \<open>f64_exp w * 2 ^ 52 + f64_frac w = E * 2 ^ 52 + F\<close> by simp
qed

text \<open>Integers of at most 53 bits convert exactly.\<close>

lemma f64_int_of_int:
  assumes "\<bar>n\<bar> < 2 ^ 53"
  shows "f64_int (f64_of_int n) = Some n"
proof (cases "n = 0")
  case True
  then show ?thesis by (simp add: f64_of_int_def f64_int_def f64_trunc_def f64_exp_def f64_frac_def f64_m_def f64_k_def f64_signed_def)
next
  case False
  let ?a = "\<bar>n\<bar>" let ?e = "ilog2 ?a" let ?w = "f64_of_int n"
  have b: "2 ^ ?e \<le> ?a" "?a < 2 ^ Suc ?e" using ilog2_bounds [of ?a] False by simp_all
  have e: "?e \<le> 52"
  proof (rule ccontr)
    assume "\<not> ?e \<le> 52"
    then have "(2 :: int) ^ 53 \<le> 2 ^ ?e" by (intro power_increasing) simp_all
    then show False using b(1) assms by simp
  qed
  define m where "m = ?a * 2 ^ (52 - ?e)"
  have pow: "(2 :: int) ^ ?e * 2 ^ (52 - ?e) = 2 ^ 52" "(2 :: int) ^ Suc ?e * 2 ^ (52 - ?e) = 2 ^ 53"
    using e by (simp_all only: power_add [symmetric]) (simp_all add: Suc_diff_le)
  have m: "2 ^ 52 \<le> m" "m < 2 ^ 53"
    using mult_right_mono [OF b(1), of "2 ^ (52 - ?e)"] mult_strict_right_mono [OF b(2), of "2 ^ (52 - ?e)"]
    unfolding pow m_def by simp_all
  have w: "?w = word_of_int ((if n < 0 then 2 ^ 63 else 0) + (int ?e + 1023) * 2 ^ 52 + (m - 2 ^ 52))"
    using False e by (simp add: f64_of_int_def f64_lead_def m_def Let_def)
  have parts: "f64_exp ?w = int ?e + 1023" "f64_frac ?w = m - 2 ^ 52" "f64_neg ?w = (n < 0)"
    using f64_of_parts [OF w] m e by simp_all
  then have mk: "f64_m ?w = m" "f64_k ?w = int ?e - 52" using e by (simp_all add: f64_m_def f64_k_def)
  have "nat (52 - int ?e) = 52 - ?e" using e by simp
  then show ?thesis
    using e by (cases "?e = 52") (auto simp: f64_int_def f64_trunc_def parts mk f64_signed_def m_def)
qed

lemma f64_int_of_min: "f64_int (f64_of_int (- (2 ^ 63))) = Some (- (2 ^ 63))" "f64_int (f64_of_int (2 ^ 63)) = Some (2 ^ 63)"
  by code_simp+

lemma f64_zero_int: "f64_zero w \<longleftrightarrow> f64_int w = Some 0"
proof
  assume "f64_zero w"
  then have "f64_exp w = 0 \<and> f64_m w = 0"
    by (auto simp: f64_zero_def f64_exp_def f64_frac_def f64_m_def simp flip: mod_mod_cancel [of "2 ^ 52" "2 ^ 63" "uint w"])
  then show "f64_int w = Some 0" by (simp add: f64_int_def f64_trunc_def f64_signed_def)
next
  assume i: "f64_int w = Some 0"
  have "f64_m w = 0"
  proof (cases "0 \<le> f64_k w")
    case True
    then show ?thesis using i by (auto simp: f64_int_def f64_trunc_def f64_signed_def split: if_splits)
  next
    case False
    then have "f64_m w mod 2 ^ nat (- f64_k w) = 0" "f64_m w div 2 ^ nat (- f64_k w) = 0"
      using i by (auto simp: f64_int_def f64_trunc_def f64_signed_def split: if_splits)
    then show ?thesis by (metis div_mult_mod_eq mult_zero_left add_0)
  qed
  then have "f64_exp w = 0" "f64_frac w = 0" using f64_ranges [of w] by (auto simp: f64_m_def split: if_splits)
  then show "f64_zero w"
    using div_mult_mod_eq [of "uint w mod 2 ^ 63" "2 ^ 52"] mod_mod_cancel [of "2 ^ 52" "2 ^ 63" "uint w"]
    by (simp add: f64_zero_def f64_exp_def f64_frac_def)
qed

lemma f64_int_not_nan: "f64_int w = Some n \<Longrightarrow> \<not> f64_nan w"
  by (auto simp: f64_int_def f64_nan_def)

lemma f64_eq_int: "f64_eq a b \<Longrightarrow> f64_int a = f64_int b"
  by (auto simp: f64_eq_def f64_zero_int)

text \<open>
  The test \<open>float64(T(f)) == f\<close> for a truncation that is in the range of \<open>T\<close>: it succeeds exactly
  on the doubles that denote an integer.
\<close>

lemma truncation_exact:
  assumes "f64_trunc f = Some n"
  shows "f64_eq (f64_of_int n) f \<longleftrightarrow> f64_int f = Some n"
proof
  assume eq: "f64_eq (f64_of_int n) f"
  show "f64_int f = Some n"
  proof (cases "f64_k f < 0 \<and> f64_m f mod 2 ^ nat (- f64_k f) \<noteq> 0")
    case True
    then have "n = f64_signed f (f64_m f div 2 ^ nat (- f64_k f))" using assms by (auto simp: f64_trunc_def split: if_splits)
    moreover have q: "0 \<le> f64_m f div 2 ^ nat (- f64_k f)" using f64_ranges(5) [of f] by (simp add: pos_imp_zdiv_nonneg_iff)
    moreover have "f64_m f div 2 ^ nat (- f64_k f) \<le> f64_m f"
    proof -
      have "0 \<le> f64_m f mod 2 ^ nat (- f64_k f)" by (rule pos_mod_sign) simp
      moreover have "f64_m f div 2 ^ nat (- f64_k f) * 1 \<le> f64_m f div 2 ^ nat (- f64_k f) * 2 ^ nat (- f64_k f)"
        by (rule mult_left_mono [OF _ q]) simp
      ultimately show ?thesis using div_mult_mod_eq [of "f64_m f" "2 ^ nat (- f64_k f)"] by linarith
    qed
    ultimately have "\<bar>n\<bar> < 2 ^ 53" using f64_ranges(6) [of f] by (auto simp: f64_signed_def)
    then show ?thesis using f64_int_of_int f64_eq_int [OF eq] by simp
  next
    case False
    then show ?thesis using assms by (auto simp: f64_int_def f64_trunc_def split: if_splits)
  qed
next
  assume i: "f64_int f = Some n"
  show "f64_eq (f64_of_int n) f"
  proof (cases "n = 0")
    case True
    then have "f64_zero f" "f64_zero 0" "\<not> f64_nan 0" using i by (simp_all add: f64_zero_int [symmetric]) (simp_all add: f64_zero_def f64_nan_def f64_exp_def)
    then show ?thesis using True f64_int_not_nan [OF i] by (simp add: f64_eq_def f64_of_int_def)
  next
    case False
    then show ?thesis using f64_of_int_denoted [OF i] f64_int_not_nan [OF i] by (simp add: f64_eq_def)
  qed
qed

section \<open>Signs\<close>

lemma lead_bounds:
  assumes "0 < a"
  shows "2 ^ 52 \<le> f64_lead a" and "f64_lead a \<le> 2 ^ 53"
proof -
  let ?e = "ilog2 a"
  have b: "2 ^ ?e \<le> a" "a < 2 ^ Suc ?e" using ilog2_bounds [OF assms] by simp_all
  have "2 ^ 52 \<le> f64_lead a \<and> f64_lead a \<le> 2 ^ 53"
  proof (cases "?e \<le> 52")
    case True
    then have p: "(2 :: int) ^ ?e * 2 ^ (52 - ?e) = 2 ^ 52" "(2 :: int) ^ Suc ?e * 2 ^ (52 - ?e) = 2 ^ 53"
      by (simp_all only: power_add [symmetric]) (simp_all add: Suc_diff_le)
    have "a * 2 ^ (52 - ?e) < 2 ^ Suc ?e * 2 ^ (52 - ?e)" by (rule mult_strict_right_mono [OF b(2)]) simp
    moreover have "2 ^ ?e * 2 ^ (52 - ?e) \<le> a * 2 ^ (52 - ?e)" by (rule mult_right_mono [OF b(1)]) simp
    ultimately show ?thesis using True unfolding p by (simp add: f64_lead_def Let_def)
  next
    case False
    let ?d = "2 ^ (?e - 52) :: int"
    have "(2 :: int) ^ ?e = 2 ^ 52 * ?d" "(2 :: int) ^ Suc ?e = 2 ^ 53 * ?d"
      using False by (simp_all only: power_add [symmetric]) (simp_all add: Suc_diff_le)
    then have "2 ^ 52 * ?d \<le> a" "a < 2 ^ 53 * ?d" using b by simp_all
    then have "2 ^ 52 \<le> a div ?d" "a div ?d < 2 ^ 53"
      using zdiv_mono1 [of "2 ^ 52 * ?d" a ?d] zdiv_mono1 [of a "2 ^ 53 * ?d - 1" ?d] div_pos_pos_trivial [of "?d - 1" ?d]
        div_mult_self3 [of ?d "2 ^ 53 - 1" "?d - 1"] by (simp_all add: algebra_simps)
    then show ?thesis using False by (simp add: f64_lead_def round_even_def Let_def)
  qed
  then show "2 ^ 52 \<le> f64_lead a" "f64_lead a \<le> 2 ^ 53" by simp_all
qed

lemma f64_of_int_nonneg:
  assumes "0 \<le> n" and "n < 2 ^ 64"
  shows "\<not> f64_neg (f64_of_int n)"
proof (cases "n = 0")
  case True
  then show ?thesis by (simp add: f64_of_int_def f64_neg_def)
next
  case False
  let ?u = "(int (ilog2 n) + 1023) * 2 ^ 52 + (f64_lead n - 2 ^ 52)"
  have "2 ^ ilog2 n < (2 :: int) ^ 64" using ilog2_bounds [of n] assms False by simp
  then have "ilog2 n < 64" by (rule power_less_imp_less_exp [rotated]) simp
  then have "0 \<le> ?u" "?u < 2 ^ 63" using lead_bounds [of n] assms(1) False by simp_all
  moreover have "f64_of_int n = word_of_int ?u" using False assms(1) by (simp add: f64_of_int_def)
  ultimately have "uint (f64_of_int n) = ?u"
    by (simp only: uint_word_of_int_eq take_bit_int_eq_self_iff) simp
  then show ?thesis using \<open>?u < 2 ^ 63\<close> by (simp add: f64_neg_def)
qed

lemma f64_trunc_neg: "f64_trunc w = Some n \<Longrightarrow> n < 0 \<Longrightarrow> f64_neg w"
proof (rule ccontr)
  assume t: "f64_trunc w = Some n" "n < 0" "\<not> f64_neg w"
  moreover have "0 \<le> f64_m w * 2 ^ nat (f64_k w)" "0 \<le> f64_m w div 2 ^ nat (- f64_k w)"
    using f64_ranges(5) [of w] by (simp_all add: pos_imp_zdiv_nonneg_iff)
  ultimately show False by (auto simp: f64_trunc_def f64_signed_def split: if_splits)
qed

end
