(* ===== verification/Json.thy ===== *)
theory Json
  imports Wire Float64
begin

text \<open>
  What \<open>text.go\<close> uses of Go's package \<open>encoding/json\<close>: the grammar that \<open>json.Unmarshal\<close> checks
  before it decodes, with its limit on nesting, and the decoding of strings, of unsigned
  integers, of structs by field name, of maps and of interface values.

  A Go string is a list of bytes, each as a character. An error of the package is a syntax error
  or a type error; its text is not modelled. Decoding goes on after a type error and reports it
  at the end: since the callers then drop what was decoded, the model stops at once.
\<close>

section \<open>Syntax\<close>

datatype json = JNull | JBool bool | JNum string | JStr string | JArr "json list" | JObj "(string \<times> json) list"

definition is_ws :: "char \<Rightarrow> bool" where
  "is_ws c \<longleftrightarrow> c = CHR 0x20 \<or> c = CHR 0x09 \<or> c = CHR 0x0A \<or> c = CHR 0x0D"

definition skip_ws :: "string \<Rightarrow> string" where
  "skip_ws s = dropWhile is_ws s"

subsection \<open>Strings\<close>

definition chr_of :: "nat \<Rightarrow> char" where
  "chr_of n = char_of n"

definition hex_value :: "char \<Rightarrow> nat option" where
  "hex_value c = (let n = of_char c :: nat in
     if 0x30 \<le> n \<and> n \<le> 0x39 then Some (n - 0x30)
     else if 0x61 \<le> n \<and> n \<le> 0x66 then Some (n - 0x61 + 10)
     else if 0x41 \<le> n \<and> n \<le> 0x46 then Some (n - 0x41 + 10) else None)"

text \<open>\<open>getu4\<close> without the leading \<open>\u\<close>: four hexadecimal digits.\<close>

fun hex4 :: "string \<Rightarrow> nat option" where
  "hex4 (a # b # c # d # _) = (case (hex_value a, hex_value b, hex_value c, hex_value d) of
     (Some w, Some x, Some y, Some z) \<Rightarrow> Some (((w * 16 + x) * 16 + y) * 16 + z) | _ \<Rightarrow> None)"
| "hex4 _ = None"

text \<open>\<open>utf8.EncodeRune\<close>\<close>

definition encode_rune :: "nat \<Rightarrow> string" where
  "encode_rune u = (if u < 0x80 then [chr_of u]
     else if u < 0x800 then [chr_of (0xC0 + u div 0x40), chr_of (0x80 + u mod 0x40)]
     else if u < 0x10000 then [chr_of (0xE0 + u div 0x1000), chr_of (0x80 + u div 0x40 mod 0x40), chr_of (0x80 + u mod 0x40)]
     else [chr_of (0xF0 + u div 0x40000), chr_of (0x80 + u div 0x1000 mod 0x40), chr_of (0x80 + u div 0x40 mod 0x40),
           chr_of (0x80 + u mod 0x40)])"

definition replacement :: string where
  "replacement = [CHR 0xEF, CHR 0xBF, CHR 0xBD]"

definition escape_char :: "char \<Rightarrow> char option" where
  "escape_char e = (if e = CHR 0x22 \<or> e = CHR 0x5C \<or> e = CHR 0x2F then Some e
     else if e = CHR 0x62 then Some (CHR 0x08) else if e = CHR 0x66 then Some (CHR 0x0C)
     else if e = CHR 0x6E then Some (CHR 0x0A) else if e = CHR 0x72 then Some (CHR 0x0D)
     else if e = CHR 0x74 then Some (CHR 0x09) else None)"

text \<open>The width of the character in UTF-8 that the bytes start with, 0 if there is none.\<close>

definition rune_width :: "string \<Rightarrow> nat" where
  "rune_width s = (if s \<noteq> [] \<and> utf8_valid (str_bytes (take 1 s)) then 1
     else if 2 \<le> length s \<and> utf8_valid (str_bytes (take 2 s)) then 2
     else if 3 \<le> length s \<and> utf8_valid (str_bytes (take 3 s)) then 3
     else if 4 \<le> length s \<and> utf8_valid (str_bytes (take 4 s)) then 4 else 0)"

text \<open>
  The rest of a string literal after its opening quote: the text that it denotes and what
  follows the closing quote. A surrogate without its partner, and a byte that is not part of a
  character, become the replacement character.
\<close>

definition is_low :: "nat \<Rightarrow> bool" where
  "is_low u \<longleftrightarrow> 0xDC00 \<le> u \<and> u < 0xE000"

definition low_partner :: "string \<Rightarrow> nat option" where
  "low_partner s = (case s of
     a # b # r \<Rightarrow> (if a = CHR 0x5C \<and> b = CHR 0x75 then (case hex4 r of Some v \<Rightarrow> (if is_low v then Some v else None) | None \<Rightarrow> None)
       else None)
   | _ \<Rightarrow> None)"

definition put_front :: "string \<Rightarrow> (string \<times> string) option \<Rightarrow> (string \<times> string) option" where
  "put_front p r = map_option (apfst ((@) p)) r"

function parse_str :: "string \<Rightarrow> (string \<times> string) option" where
  "parse_str [] = None"
| "parse_str (c # r) =
     (if c = CHR 0x22 then Some ([], r)
      else if c = CHR 0x5C then (case r of
          [] \<Rightarrow> None
        | e # r' \<Rightarrow>
            (if e = CHR 0x75 then (case hex4 r' of
                None \<Rightarrow> None
              | Some u \<Rightarrow>
                  (if u < 0xD800 \<or> 0xE000 \<le> u then put_front (encode_rune u) (parse_str (drop 4 r'))
                   else (case (if u < 0xDC00 then low_partner (drop 4 r') else None) of
                       Some v \<Rightarrow> put_front (encode_rune (0x10000 + (u - 0xD800) * 0x400 + (v - 0xDC00))) (parse_str (drop 10 r'))
                     | None \<Rightarrow> put_front replacement (parse_str (drop 4 r')))))
             else (case escape_char e of
                None \<Rightarrow> None
              | Some x \<Rightarrow> put_front [x] (parse_str r'))))
      else if of_char c < (0x20 :: nat) then None
      else if rune_width (c # r) = 0 then put_front replacement (parse_str r)
      else put_front (take (rune_width (c # r)) (c # r)) (parse_str (drop (rune_width (c # r) - 1) r)))"
  by pat_completeness auto

termination
  by (relation "measure length") auto

declare parse_str.simps [simp del]

subsection \<open>Numbers\<close>

definition is_digit :: "char \<Rightarrow> bool" where
  "is_digit c \<longleftrightarrow> 0x30 \<le> (of_char c :: nat) \<and> of_char c \<le> (0x39 :: nat)"

definition digits :: "string \<Rightarrow> string \<times> string" where
  "digits s = (takeWhile is_digit s, dropWhile is_digit s)"

definition parse_frac :: "string \<Rightarrow> (string \<times> string) option" where
  "parse_frac s = (case s of
     c # r \<Rightarrow> (if c = CHR 0x2E then (case digits r of (ds, r') \<Rightarrow> if ds = [] then None else Some (c # ds, r')) else Some ([], s))
   | [] \<Rightarrow> Some ([], []))"

definition parse_exp :: "string \<Rightarrow> (string \<times> string) option" where
  "parse_exp s = (case s of
     c # r \<Rightarrow> (if c = CHR 0x65 \<or> c = CHR 0x45 then
         (let (sg, r1) = (case r of d # r' \<Rightarrow> if d = CHR 0x2B \<or> d = CHR 0x2D then ([d], r') else ([], r) | [] \<Rightarrow> ([], []));
              (ds, r2) = digits r1
          in if ds = [] then None else Some (c # sg @ ds, r2))
       else Some ([], s))
   | [] \<Rightarrow> Some ([], []))"

definition parse_int :: "string \<Rightarrow> (string \<times> string) option" where
  "parse_int s = (case s of
     c # r \<Rightarrow> (if c = CHR 0x30 then Some ([c], r)
       else if is_digit c then Some (digits s) else None)
   | [] \<Rightarrow> None)"

definition num_sign :: "string \<Rightarrow> string \<times> string" where
  "num_sign s = (case s of c # r \<Rightarrow> if c = CHR 0x2D then ([c], r) else ([], s) | [] \<Rightarrow> ([], []))"

definition parse_num :: "string \<Rightarrow> (string \<times> string) option" where
  "parse_num s = (case num_sign s of (sg, s1) \<Rightarrow>
     case parse_int s1 of None \<Rightarrow> None
     | Some (i, s2) \<Rightarrow> (case parse_frac s2 of None \<Rightarrow> None
       | Some (f, s3) \<Rightarrow> (case parse_exp s3 of None \<Rightarrow> None
         | Some (e, s4) \<Rightarrow> Some (sg @ i @ f @ e, s4))))"

subsection \<open>Values\<close>

text \<open>A literal name.\<close>

definition parse_name :: "string \<Rightarrow> string \<Rightarrow> json \<Rightarrow> (json \<times> string) option" where
  "parse_name name s v = (if take (length name) s = name then Some (v, drop (length name) s) else None)"

text \<open>
  \<open>parse_value d s\<close> reads a value from the front of \<open>s\<close>, with \<open>d\<close> levels of nesting left;
  \<open>parse_items\<close> and \<open>parse_members\<close> read the rest of an array and of an object that has at least
  one entry. The comparisons of lengths always hold; they only make the recursion evident.
\<close>

function parse_value :: "nat \<Rightarrow> string \<Rightarrow> (json \<times> string) option"
  and parse_items :: "nat \<Rightarrow> string \<Rightarrow> (json list \<times> string) option"
  and parse_members :: "nat \<Rightarrow> string \<Rightarrow> ((string \<times> json) list \<times> string) option" where
  "parse_value d s = (case skip_ws s of
     [] \<Rightarrow> None
   | c # r \<Rightarrow>
       if length s \<le> length r then None
       else if c = CHR 0x22 then map_option (apfst JStr) (parse_str r)
       else if c = CHR 0x5B then
         (if d = 0 then None
          else case skip_ws r of
            [] \<Rightarrow> None
          | c' # r' \<Rightarrow> if c' = CHR 0x5D then Some (JArr [], r') else map_option (apfst JArr) (parse_items (d - 1) r))
       else if c = CHR 0x7B then
         (if d = 0 then None
          else case skip_ws r of
            [] \<Rightarrow> None
          | c' # r' \<Rightarrow> if c' = CHR 0x7D then Some (JObj [], r') else map_option (apfst JObj) (parse_members (d - 1) r))
       else if c = CHR 0x74 then parse_name ''true'' (c # r) (JBool True)
       else if c = CHR 0x66 then parse_name ''false'' (c # r) (JBool False)
       else if c = CHR 0x6E then parse_name ''null'' (c # r) JNull
       else map_option (apfst JNum) (parse_num (c # r)))"
| "parse_items d s = (case parse_value d s of
     None \<Rightarrow> None
   | Some (v, r) \<Rightarrow> (case skip_ws r of
       [] \<Rightarrow> None
     | c # r' \<Rightarrow>
         if length s \<le> length r' then None
         else if c = CHR 0x5D then Some ([v], r')
         else if c = CHR 0x2C then map_option (apfst (Cons v)) (parse_items d r')
         else None))"
| "parse_members d s = (case skip_ws s of
     [] \<Rightarrow> None
   | q # s1 \<Rightarrow> if q \<noteq> CHR 0x22 then None else (case parse_str s1 of
       None \<Rightarrow> None
     | Some (k, s2) \<Rightarrow> (case skip_ws s2 of
         [] \<Rightarrow> None
       | c # s3 \<Rightarrow> if c \<noteq> CHR 0x3A \<or> length s \<le> length s3 then None else (case parse_value d s3 of
           None \<Rightarrow> None
         | Some (v, s4) \<Rightarrow> (case skip_ws s4 of
             [] \<Rightarrow> None
           | e # s5 \<Rightarrow>
               if length s \<le> length s5 then None
               else if e = CHR 0x7D then Some ([(k, v)], s5)
               else if e = CHR 0x2C then map_option (apfst (Cons (k, v))) (parse_members d s5)
               else None)))))"
  by pat_completeness auto

termination
  by (relation "measure (\<lambda>x. case x of Inl (d, s) \<Rightarrow> 2 * length s | Inr (Inl (d, s)) \<Rightarrow> 2 * length s + 1
      | Inr (Inr (d, s)) \<Rightarrow> 2 * length s + 1)") auto

declare parse_value.simps [simp del] parse_items.simps [simp del] parse_members.simps [simp del]

definition maxNestingDepth :: nat where
  "maxNestingDepth = 10000"

definition json_parse :: "string \<Rightarrow> json option" where
  "json_parse s = (case parse_value maxNestingDepth s of
     None \<Rightarrow> None
   | Some (v, r) \<Rightarrow> if skip_ws r = [] then Some v else None)"

section \<open>Decoding\<close>

definition json_syntax_error :: go_error where
  "json_syntax_error = Errorf ''json: syntax error'' []"

definition json_type_error :: go_error where
  "json_type_error = Errorf ''json: cannot unmarshal'' []"

text \<open>
  A value is stored into a variable that has a value already: \<open>null\<close> leaves a string or a number
  as it is.
\<close>

fun into_string :: "json \<Rightarrow> string \<Rightarrow> string option" where
  "into_string (JStr s) _ = Some s"
| "into_string JNull old = Some old"
| "into_string _ _ = None"

definition digits_value :: "string \<Rightarrow> int" where
  "digits_value ds = foldl (\<lambda>n c. 10 * n + (of_char c - 0x30)) 0 ds"

text \<open>\<open>strconv.ParseUint(s, 10, 64)\<close> on a number literal\<close>

definition parse_uint :: "string \<Rightarrow> uint64 option" where
  "parse_uint s = (if s \<noteq> [] \<and> list_all is_digit s \<and> digits_value s < 2 ^ 64 then Some (word_of_int (digits_value s)) else None)"

fun into_uint :: "json \<Rightarrow> uint64 \<Rightarrow> uint64 option" where
  "into_uint (JNum s) _ = parse_uint s"
| "into_uint JNull old = Some old"
| "into_uint _ _ = None"

text \<open>
  The field that a key names: the one with this name, or else the one whose name is the same up
  to case. The folding of Unicode maps two characters outside of ASCII to letters: the long s and
  the Kelvin sign.
\<close>

fun fold_name :: "string \<Rightarrow> string" where
  "fold_name [] = []"
| "fold_name (a # r) =
     (if take 2 (a # r) = [CHR 0xC5, CHR 0xBF] then CHR 0x53 # fold_name (drop 1 r)
      else if take 3 (a # r) = [CHR 0xE2, CHR 0x84, CHR 0xAA] then CHR 0x4B # fold_name (drop 2 r)
      else (if 0x61 \<le> (of_char a :: nat) \<and> of_char a \<le> (0x7A :: nat) then chr_of (of_char a - 0x20) else a) # fold_name r)"

definition field_named :: "string list \<Rightarrow> string \<Rightarrow> string option" where
  "field_named names k = (if k \<in> set names then Some k else find (\<lambda>n. fold_name n = fold_name k) names)"

definition into_struct :: "string list \<Rightarrow> (string \<Rightarrow> json \<Rightarrow> 'a \<Rightarrow> 'a option) \<Rightarrow> json \<Rightarrow> 'a \<Rightarrow> 'a option" where
  "into_struct names set_field v old = (case v of
     JObj kvs \<Rightarrow> foldl (\<lambda>acc (k, x). Option.bind acc (\<lambda>a. case field_named names k of
         None \<Rightarrow> Some a | Some f \<Rightarrow> set_field f x a)) (Some old) kvs
   | JNull \<Rightarrow> Some old
   | _ \<Rightarrow> None)"

text \<open>A slice is filled from empty: each element starts as the zero value.\<close>

fun all_some :: "'a option list \<Rightarrow> 'a list option" where
  "all_some [] = Some []"
| "all_some (None # _) = None"
| "all_some (Some x # xs) = map_option (Cons x) (all_some xs)"

definition into_slice :: "(json \<Rightarrow> 'a option) \<Rightarrow> json \<Rightarrow> 'a list option" where
  "into_slice elem v = (case v of
     JArr vs \<Rightarrow> all_some (map elem vs)
   | JNull \<Rightarrow> Some []
   | _ \<Rightarrow> None)"

text \<open>Maps keep a key once, with its last value; \<open>None\<close> is the nil map.\<close>

fun put_entry :: "string \<Rightarrow> 'a \<Rightarrow> (string \<times> 'a) list \<Rightarrow> (string \<times> 'a) list" where
  "put_entry k v [] = [(k, v)]"
| "put_entry k v ((k', v') # kvs) = (if k' = k then (k, v) # kvs else (k', v') # put_entry k v kvs)"

definition into_map ::
  "(json \<Rightarrow> 'a option) \<Rightarrow> json \<Rightarrow> (string \<times> 'a) list option \<Rightarrow> (string \<times> 'a) list option option" where
  "into_map elem v old = (case v of
     JObj kvs \<Rightarrow> map_option Some (foldl (\<lambda>acc (k, x). Option.bind acc (\<lambda>m. map_option (\<lambda>y. put_entry k y m) (elem x)))
       (Some (case old of None \<Rightarrow> [] | Some m \<Rightarrow> m)) kvs)
   | JNull \<Rightarrow> Some None
   | _ \<Rightarrow> None)"

subsection \<open>Interface values\<close>

text \<open>
  \<open>strconv.ParseFloat(s, 64)\<close> on a number literal: the nearest double, ties to even; a number that
  rounds to infinity is an error.
\<close>

definition f64_of_ratio :: "bool \<Rightarrow> int \<Rightarrow> int \<Rightarrow> uint64 option" where
  "f64_of_ratio neg p q =
     (let e0 = int (ilog2 p) - int (ilog2 q);
          e = (if p * 2 ^ nat (- e0) < q * 2 ^ nat e0 then e0 - 1 else e0);
          k = max (e - 52) (- 1074);
          m = (if p = 0 then 0 else round_even (p * 2 ^ nat (- k)) (q * 2 ^ nat k));
          b = (if m < 2 ^ 52 then m else (k + 1075) * 2 ^ 52 + (m - 2 ^ 52))
      in if 2047 * 2 ^ 52 \<le> b then None else Some (word_of_int ((if neg then 2 ^ 63 else 0) + b)))"

definition parse_float :: "string \<Rightarrow> uint64 option" where
  "parse_float s =
     (let (sg, s1) = num_sign s;
          (i, s2) = digits s1;
          (f, s3) = (case s2 of c # r \<Rightarrow> if c = CHR 0x2E then digits r else ([], s2) | [] \<Rightarrow> ([], []));
          (eneg, s4) = (case s3 of _ # c # r \<Rightarrow> if c = CHR 0x2D then (True, r) else if c = CHR 0x2B then (False, r) else (False, c # r)
             | _ \<Rightarrow> (False, []));
          x = (if eneg then - digits_value s4 else digits_value s4) - int (length f);
          m = digits_value (i @ f)
      in f64_of_ratio (sg \<noteq> []) (m * 10 ^ nat x) (10 ^ nat (- x)))"

datatype any = AnyNil | AnyBool bool | AnyNum uint64 | AnyStr string | AnyList "any list" | AnyMap "(string \<times> any) list"

fun into_any :: "json \<Rightarrow> any option"
  and into_anys :: "json list \<Rightarrow> any list option"
  and into_entries :: "(string \<times> json) list \<Rightarrow> (string \<times> any) list \<Rightarrow> (string \<times> any) list option" where
  "into_any JNull = Some AnyNil"
| "into_any (JBool b) = Some (AnyBool b)"
| "into_any (JNum s) = map_option AnyNum (parse_float s)"
| "into_any (JStr s) = Some (AnyStr s)"
| "into_any (JArr vs) = map_option AnyList (into_anys vs)"
| "into_any (JObj kvs) = map_option AnyMap (into_entries kvs [])"
| "into_anys [] = Some []"
| "into_anys (v # vs) = (case into_any v of None \<Rightarrow> None | Some x \<Rightarrow> map_option (Cons x) (into_anys vs))"
| "into_entries [] m = Some m"
| "into_entries ((k, v) # kvs) m = (case into_any v of None \<Rightarrow> None | Some x \<Rightarrow> into_entries kvs (put_entry k x m))"

end
