(* ===== verification/TextMarks.thy ===== *)
theory TextMarks
  imports Json
begin

text \<open>
  How \<open>Text.Marks\<close> and \<open>Text.Spans\<close> of \<open>text.go\<close> read the JSON that the backend returns.
\<close>

section \<open>Marks\<close>

record Mark_t =
  mk_Name :: string
  mk_Value :: string
  mk_Start :: uint64
  mk_End :: uint64

definition zero_mark :: Mark_t where
  "zero_mark = \<lparr>mk_Name = [], mk_Value = [], mk_Start = 0, mk_End = 0\<rparr>"

text \<open>The fields of the anonymous struct \<open>rawMarks\<close> by their JSON names.\<close>

definition set_mark_field :: "string \<Rightarrow> json \<Rightarrow> Mark_t \<Rightarrow> Mark_t option" where
  "set_mark_field f v m =
     (if f = ''name'' then map_option (\<lambda>s. m\<lparr>mk_Name := s\<rparr>) (into_string v (mk_Name m))
      else if f = ''value'' then map_option (\<lambda>s. m\<lparr>mk_Value := s\<rparr>) (into_string v (mk_Value m))
      else if f = ''start'' then map_option (\<lambda>n. m\<lparr>mk_Start := n\<rparr>) (into_uint v (mk_Start m))
      else map_option (\<lambda>n. m\<lparr>mk_End := n\<rparr>) (into_uint v (mk_End m)))"

definition into_mark :: "json \<Rightarrow> Mark_t option" where
  "into_mark v = into_struct [''name'', ''value'', ''start'', ''end''] set_mark_field v zero_mark"

definition parse_marks :: "string \<Rightarrow> Mark_t list outcome" where
  "parse_marks jsonStr = (if jsonStr = ''[]'' then Ok []
     else case json_parse jsonStr of
       None \<Rightarrow> Error (Errorf ''automerge.Text: failed to parse marks JSON: %w'' [AErr json_syntax_error])
     | Some v \<Rightarrow> (case into_slice into_mark v of
         None \<Rightarrow> Error (Errorf ''automerge.Text: failed to parse marks JSON: %w'' [AErr json_type_error])
       | Some marks \<Rightarrow> Ok marks))"

section \<open>Spans\<close>

text \<open>A span has a text and its marks, or the properties of a block marker.\<close>

datatype Span = SpanText string "(string \<times> string) list" | SpanBlock "(string \<times> any) list"

record span_header =
  h_Type :: string
  h_Text :: string
  h_Marks :: "(string \<times> string) list option"
  h_Value :: "(string \<times> any) list option"

definition zero_header :: span_header where
  "zero_header = \<lparr>h_Type = [], h_Text = [], h_Marks = None, h_Value = None\<rparr>"

definition set_header_field :: "string \<Rightarrow> json \<Rightarrow> span_header \<Rightarrow> span_header option" where
  "set_header_field f v h =
     (if f = ''type'' then map_option (\<lambda>s. h\<lparr>h_Type := s\<rparr>) (into_string v (h_Type h))
      else if f = ''text'' then map_option (\<lambda>s. h\<lparr>h_Text := s\<rparr>) (into_string v (h_Text h))
      else if f = ''marks'' then map_option (\<lambda>m. h\<lparr>h_Marks := m\<rparr>) (into_map (\<lambda>x. into_string x []) v (h_Marks h))
      else map_option (\<lambda>m. h\<lparr>h_Value := m\<rparr>) (into_map into_any v (h_Value h)))"

text \<open>
  Each element is kept as raw JSON first and then decoded on its own: the bytes have passed the
  check of the grammar with the whole, so the second check finds the same value.
\<close>

definition parse_span :: "json \<Rightarrow> Span outcome" where
  "parse_span v = (case into_struct [''type'', ''text'', ''marks'', ''value''] set_header_field v zero_header of
     None \<Rightarrow> Error (Errorf ''automerge.Text: failed to parse span: %w'' [AErr json_type_error])
   | Some h \<Rightarrow>
       (if h_Type h = ''text'' then Ok (SpanText (h_Text h) (case h_Marks h of None \<Rightarrow> [] | Some m \<Rightarrow> m))
        else if h_Type h = ''block'' then Ok (SpanBlock (case h_Value h of None \<Rightarrow> [] | Some m \<Rightarrow> m))
        else Error (Errorf ''automerge.Text: unknown span type %q'' [AStr (h_Type h)])))"

fun span_loop :: "json list \<Rightarrow> Span list outcome" where
  "span_loop [] = Ok []"
| "span_loop (v # vs) = (case parse_span v of
     Ok s \<Rightarrow> map_outcome_of (Cons s) (span_loop vs)
   | Error e \<Rightarrow> Error e
   | Panic e \<Rightarrow> Panic e)"

definition parse_spans :: "string \<Rightarrow> Span list outcome" where
  "parse_spans jsonStr = (if jsonStr = ''[]'' then Ok []
     else case json_parse jsonStr of
       None \<Rightarrow> Error (Errorf ''automerge.Text: failed to parse spans JSON: %w'' [AErr json_syntax_error])
     | Some v \<Rightarrow> (case into_slice Some v of
         None \<Rightarrow> Error (Errorf ''automerge.Text: failed to parse spans JSON: %w'' [AErr json_type_error])
       | Some raws \<Rightarrow> span_loop raws))"

end
