(* ===== verification/Api.thy ===== *)
theory Api
  imports Doc TextMarks
begin

text \<open>
  The public types that point into a document: \<open>value.go\<close>, \<open>map.go\<close>, \<open>list.go\<close>, \<open>text.go\<close>,
  \<open>counter.go\<close> and \<open>path.go\<close>.

  A \<open>Map\<close>, \<open>List\<close>, \<open>Text\<close> or \<open>Counter\<close> is an object of the store, because its methods change its
  fields: attaching gives it a document and a handle, and the first write through a path
  replaces the path by a handle. The methods come in two layers. The definitions ending in
  \<open>_at\<close> are the part of a method after its path has been dealt with; \<open>Path_Get\<close> and the \<open>ensure\<close>
  functions use only these, since the objects they meet have no path. The public methods
  dispatch on the path first.

  \<open>gval\<close> is the type of normalized values, the fixed points of \<open>normalize\<close>; a Go map is the list
  of its entries in the order in which it is ranged over. Where the source prints whole objects
  into an error text with the verb \<open>#v\<close>, the model keeps the format and the keys and indices.
\<close>

section \<open>Values\<close>

datatype gval =
    GPrim prim
  | GSlice "gval list"
  | GMap "(string \<times> gval) list"
  | GMapRef ref
  | GListRef ref
  | GCounterRef ref
  | GTextRef ref

datatype vval = VP prim | VCounterRef ref | VMapRef ref | VListRef ref | VTextRef ref

record Value =
  value_doc :: "ref option"
  value_kind :: Kind
  value_val :: vval

definition fresh_ref :: "('w prog, ref) comp" where
  "fresh_ref = (\<lambda>P. (Ok (p_next P), P\<lparr>p_next := Suc (p_next P)\<rparr>))"

definition read_map :: "ref \<Rightarrow> ('w prog, MapObj) comp" where
  "read_map r = (\<lambda>P. case p_maps P r of None \<Rightarrow> (Panic nil_deref, P) | Some x \<Rightarrow> (Ok x, P))"

definition write_map :: "ref \<Rightarrow> MapObj \<Rightarrow> ('w prog, unit) comp" where
  "write_map r x = (\<lambda>P. (Ok (), P\<lparr>p_maps := (p_maps P)(r \<mapsto> x)\<rparr>))"

definition read_list :: "ref \<Rightarrow> ('w prog, ListObj) comp" where
  "read_list r = (\<lambda>P. case p_lists P r of None \<Rightarrow> (Panic nil_deref, P) | Some x \<Rightarrow> (Ok x, P))"

definition write_list :: "ref \<Rightarrow> ListObj \<Rightarrow> ('w prog, unit) comp" where
  "write_list r x = (\<lambda>P. (Ok (), P\<lparr>p_lists := (p_lists P)(r \<mapsto> x)\<rparr>))"

definition read_text :: "ref \<Rightarrow> ('w prog, TextObj) comp" where
  "read_text r = (\<lambda>P. case p_texts P r of None \<Rightarrow> (Panic nil_deref, P) | Some x \<Rightarrow> (Ok x, P))"

definition write_text :: "ref \<Rightarrow> TextObj \<Rightarrow> ('w prog, unit) comp" where
  "write_text r x = (\<lambda>P. (Ok (), P\<lparr>p_texts := (p_texts P)(r \<mapsto> x)\<rparr>))"

definition read_counter :: "ref \<Rightarrow> ('w prog, CounterObj) comp" where
  "read_counter r = (\<lambda>P. case p_counters P r of None \<Rightarrow> (Panic nil_deref, P) | Some x \<Rightarrow> (Ok x, P))"

definition write_counter :: "ref \<Rightarrow> CounterObj \<Rightarrow> ('w prog, unit) comp" where
  "write_counter r x = (\<lambda>P. (Ok (), P\<lparr>p_counters := (p_counters P)(r \<mapsto> x)\<rparr>))"

definition alloc_map :: "MapObj \<Rightarrow> ('w prog, ref) comp" where
  "alloc_map x = andThen fresh_ref (\<lambda>r. andThen (write_map r x) (\<lambda>_. ret r))"

definition alloc_list :: "ListObj \<Rightarrow> ('w prog, ref) comp" where
  "alloc_list x = andThen fresh_ref (\<lambda>r. andThen (write_list r x) (\<lambda>_. ret r))"

definition alloc_text :: "TextObj \<Rightarrow> ('w prog, ref) comp" where
  "alloc_text x = andThen fresh_ref (\<lambda>r. andThen (write_text r x) (\<lambda>_. ret r))"

definition alloc_counter :: "CounterObj \<Rightarrow> ('w prog, ref) comp" where
  "alloc_counter x = andThen fresh_ref (\<lambda>r. andThen (write_counter r x) (\<lambda>_. ret r))"

definition map_at :: "ref \<Rightarrow> ObjHandle \<Rightarrow> MapObj" where
  "map_at d h = \<lparr>map_doc = Some d, map_handle = h, map_path = None\<rparr>"

definition list_at :: "ref \<Rightarrow> ObjHandle \<Rightarrow> ListObj" where
  "list_at d h = \<lparr>list_doc = Some d, list_handle = h, list_path = None\<rparr>"

definition text_at :: "ref \<Rightarrow> ObjHandle \<Rightarrow> TextObj" where
  "text_at d h = \<lparr>text_doc = Some d, text_handle = h, text_path = None, text_val = []\<rparr>"

definition counter_of :: "int64 \<Rightarrow> CounterObj" where
  "counter_of v = \<lparr>counter_val = v, counter_path = None, counter_m = None, counter_key = [],
     counter_l = None, counter_idx = 0\<rparr>"

definition NewMap :: "('w prog, ref) comp" where
  "NewMap = alloc_map \<lparr>map_doc = None, map_handle = 0, map_path = None\<rparr>"

definition NewList :: "('w prog, ref) comp" where
  "NewList = alloc_list \<lparr>list_doc = None, list_handle = 0, list_path = None\<rparr>"

definition NewText :: "string \<Rightarrow> ('w prog, ref) comp" where
  "NewText s = alloc_text \<lparr>text_doc = None, text_handle = 0, text_path = None, text_val = s\<rparr>"

definition NewCounter :: "int64 \<Rightarrow> ('w prog, ref) comp" where
  "NewCounter v = alloc_counter (counter_of v)"

definition type_assertion :: go_error where
  "type_assertion = Errorf ''interface conversion'' []"

definition newValueFromBackend :: "BackendValue \<Rightarrow> ref \<Rightarrow> ('w prog, Value) comp" where
  "newValueFromBackend bv d =
     (let v = (\<lambda>x. \<lparr>value_doc = Some d, value_kind = bv_Kind bv, value_val = x\<rparr>) in
      case bv_Kind bv of
        KindNull \<Rightarrow> ret (v (VP VNil))
      | KindVoid \<Rightarrow> ret (v (VP VNil))
      | KindUnknown \<Rightarrow> ret (v (VP VNil))
      | KindCounter \<Rightarrow> (case bv_Val bv of
          VInt64 i \<Rightarrow> andThen (alloc_counter (counter_of i)) (\<lambda>c. ret (v (VCounterRef c)))
        | _ \<Rightarrow> panic type_assertion)
      | KindMap \<Rightarrow> andThen (alloc_map (map_at d (bv_Obj bv))) (\<lambda>r. ret (v (VMapRef r)))
      | KindList \<Rightarrow> andThen (alloc_list (list_at d (bv_Obj bv))) (\<lambda>r. ret (v (VListRef r)))
      | KindText \<Rightarrow> andThen (alloc_text (text_at d (bv_Obj bv))) (\<lambda>r. ret (v (VTextRef r)))
      | _ \<Rightarrow> ret (v (VP (bv_Val bv))))"

definition newValueInMap :: "BackendValue \<Rightarrow> ref \<Rightarrow> ref \<Rightarrow> string \<Rightarrow> ('w prog, Value) comp" where
  "newValueInMap bv d m key = andThen (newValueFromBackend bv d) (\<lambda>v.
     case value_val v of
       VCounterRef c \<Rightarrow> andThen (read_counter c) (\<lambda>x.
         andThen (write_counter c (x\<lparr>counter_m := Some m, counter_key := key\<rparr>)) (\<lambda>_. ret v))
     | _ \<Rightarrow> ret v)"

definition newValueInList :: "BackendValue \<Rightarrow> ref \<Rightarrow> ref \<Rightarrow> int \<Rightarrow> ('w prog, Value) comp" where
  "newValueInList bv d l idx = andThen (newValueFromBackend bv d) (\<lambda>v.
     case value_val v of
       VCounterRef c \<Rightarrow> andThen (read_counter c) (\<lambda>x.
         andThen (write_counter c (x\<lparr>counter_l := Some l, counter_idx := idx\<rparr>)) (\<lambda>_. ret v))
     | _ \<Rightarrow> ret v)"

definition kind_panic :: "Kind \<Rightarrow> Kind \<Rightarrow> go_error" where
  "kind_panic want got =
     Errorf ''automerge.Value: called .%s() on value of %v'' [AStr (drop 4 (Kind_String want)), AStr (Kind_String got)]"

definition assertKind :: "Value \<Rightarrow> Kind \<Rightarrow> unit outcome" where
  "assertKind v k = (if value_kind v \<noteq> k then Panic (kind_panic k (value_kind v)) else Ok ())"

text \<open>The accessors \<open>Map()\<close>, \<open>List()\<close>, \<open>Text()\<close> and \<open>Counter()\<close>.\<close>

definition Value_Map :: "Value \<Rightarrow> ref outcome" where
  "Value_Map v = and_then (assertKind v KindMap) (\<lambda>_. case value_val v of
     VMapRef r \<Rightarrow> Ok r | _ \<Rightarrow> Panic type_assertion)"

definition Value_List :: "Value \<Rightarrow> ref outcome" where
  "Value_List v = and_then (assertKind v KindList) (\<lambda>_. case value_val v of
     VListRef r \<Rightarrow> Ok r | _ \<Rightarrow> Panic type_assertion)"

definition Value_Text :: "Value \<Rightarrow> ref outcome" where
  "Value_Text v = and_then (assertKind v KindText) (\<lambda>_. case value_val v of
     VTextRef r \<Rightarrow> Ok r | _ \<Rightarrow> Panic type_assertion)"

definition Value_Counter :: "Value \<Rightarrow> ref outcome" where
  "Value_Counter v = and_then (assertKind v KindCounter) (\<lambda>_. case value_val v of
     VCounterRef r \<Rightarrow> Ok r | _ \<Rightarrow> Panic type_assertion)"

text \<open>The accessors of the primitive kinds.\<close>

definition Value_prim :: "Value \<Rightarrow> Kind \<Rightarrow> prim outcome" where
  "Value_prim v k = and_then (assertKind v k) (\<lambda>_. case value_val v of
     VP x \<Rightarrow> (if kind_of_prim x = k then Ok x else Panic type_assertion) | _ \<Rightarrow> Panic type_assertion)"

definition IsVoid :: "Value \<Rightarrow> bool" where "IsVoid v \<longleftrightarrow> value_kind v = KindVoid"
definition IsNull :: "Value \<Rightarrow> bool" where "IsNull v \<longleftrightarrow> value_kind v = KindNull"
definition IsUnknown :: "Value \<Rightarrow> bool" where "IsUnknown v \<longleftrightarrow> value_kind v = KindUnknown"

definition void_at :: Value where
  "void_at = \<lparr>value_doc = None, value_kind = KindVoid, value_val = VP VNil\<rparr>"

definition RootMap :: "ref \<Rightarrow> ('w prog, ref) comp" where
  "RootMap d = alloc_map (map_at d RootObjHandle)"

definition Root :: "ref \<Rightarrow> ('w prog, Value) comp" where
  "Root d = andThen (RootMap d) (\<lambda>m. ret \<lparr>value_doc = Some d, value_kind = KindMap, value_val = VMapRef m\<rparr>)"

section \<open>Methods on objects without a path\<close>

definition lock_of :: "ref option \<Rightarrow> (Backend \<Rightarrow> ('w prog, 'a) comp) \<Rightarrow> ('w prog, 'a) comp" where
  "lock_of d body = (case d of None \<Rightarrow> panic nil_deref | Some d \<Rightarrow> with_lock d body)"

definition the_doc :: "ref option \<Rightarrow> (ref \<Rightarrow> ('w prog, 'a) comp) \<Rightarrow> ('w prog, 'a) comp" where
  "the_doc d body = (case d of None \<Rightarrow> panic nil_deref | Some d \<Rightarrow> body d)"

definition Map_Get_at :: "'w wazero_runtime \<Rightarrow> ref \<Rightarrow> string \<Rightarrow> ('w prog, Value) comp" where
  "Map_Get_at R m key = andThen (read_map m) (\<lambda>o'. the_doc (map_doc o') (\<lambda>d. with_lock d (\<lambda>b.
     andThen (on_b b (MapGet (rt_module R) (map_handle o') key)) (\<lambda>bv. newValueInMap bv d m key))))"

definition Map_Len_at :: "'w wazero_runtime \<Rightarrow> ref \<Rightarrow> ('w prog, int) comp" where
  "Map_Len_at R m = andThen (read_map m) (\<lambda>o'. lock_of (map_doc o') (\<lambda>b.
     swallowed 0 (andThen (on_b b (ObjSize (rt_module R) (map_handle o'))) (\<lambda>n. ret (sint n)))))"

definition Map_Delete_at :: "'w wazero_runtime \<Rightarrow> ref \<Rightarrow> string \<Rightarrow> ('w prog, unit) comp" where
  "Map_Delete_at R m key = andThen (read_map m) (\<lambda>o'. lock_of (map_doc o') (\<lambda>b.
     on_b b (MapDelete (rt_module R) (map_handle o') key)))"

definition Map_inc :: "'w wazero_runtime \<Rightarrow> ref \<Rightarrow> string \<Rightarrow> int64 \<Rightarrow> ('w prog, unit) comp" where
  "Map_inc R m key delta = andThen (read_map m) (\<lambda>o'. lock_of (map_doc o') (\<lambda>b.
     on_b b (MapIncrement (rt_module R) (map_handle o') key delta)))"

fun map_values :: "'w wazero_runtime \<Rightarrow> Backend \<Rightarrow> ref \<Rightarrow> ref \<Rightarrow> ObjHandle \<Rightarrow> string list \<Rightarrow>
    ('w prog, (string \<times> Value) list) comp" where
  "map_values R b d m h [] = ret []"
| "map_values R b d m h (key # keys) =
     andThen (on_b b (MapGet (rt_module R) h key)) (\<lambda>bv.
     andThen (newValueInMap bv d m key) (\<lambda>v.
     andThen (map_values R b d m h keys) (\<lambda>rest. ret ((key, v) # rest))))"

definition Map_Values_at :: "'w wazero_runtime \<Rightarrow> ref \<Rightarrow> ('w prog, (string \<times> Value) list) comp" where
  "Map_Values_at R m = andThen (read_map m) (\<lambda>o'. the_doc (map_doc o') (\<lambda>d. with_lock d (\<lambda>b.
     andThen (on_b b (ObjKeys (rt_module R) (map_handle o'))) (\<lambda>keys.
     map_values R b d m (map_handle o') keys))))"

definition List_Len_at :: "'w wazero_runtime \<Rightarrow> ref \<Rightarrow> ('w prog, int) comp" where
  "List_Len_at R l = andThen (read_list l) (\<lambda>o'. lock_of (list_doc o') (\<lambda>b.
     swallowed 0 (andThen (on_b b (ListLen (rt_module R) (list_handle o'))) (\<lambda>n. ret (sint n)))))"

definition List_Get_at :: "'w wazero_runtime \<Rightarrow> ref \<Rightarrow> int \<Rightarrow> ('w prog, Value) comp" where
  "List_Get_at R l i = andThen (if i < 0 then ret True else andThen (List_Len_at R l) (\<lambda>n. ret (n \<le> i))) (\<lambda>outside.
     if outside then ret void_at
     else andThen (read_list l) (\<lambda>o'. the_doc (list_doc o') (\<lambda>d. with_lock d (\<lambda>b.
       andThen (on_b b (ListGet (rt_module R) (list_handle o') (word_of_int i))) (\<lambda>bv. newValueInList bv d l i)))))"

definition List_Delete_at :: "'w wazero_runtime \<Rightarrow> ref \<Rightarrow> int \<Rightarrow> ('w prog, unit) comp" where
  "List_Delete_at R l i = andThen (read_list l) (\<lambda>o'. lock_of (list_doc o') (\<lambda>b.
     on_b b (ListDelete (rt_module R) (list_handle o') (word_of_int i))))"

definition List_inc :: "'w wazero_runtime \<Rightarrow> ref \<Rightarrow> int \<Rightarrow> int64 \<Rightarrow> ('w prog, unit) comp" where
  "List_inc R l i delta = andThen (read_list l) (\<lambda>o'. lock_of (list_doc o') (\<lambda>b.
     on_b b (ListIncrement (rt_module R) (list_handle o') (word_of_int i) delta)))"

fun list_values :: "'w wazero_runtime \<Rightarrow> Backend \<Rightarrow> ref \<Rightarrow> ref \<Rightarrow> ObjHandle \<Rightarrow> nat list \<Rightarrow>
    ('w prog, Value list) comp" where
  "list_values R b d l h [] = ret []"
| "list_values R b d l h (i # is) =
     andThen (on_b b (ListGet (rt_module R) h (word_of_nat i))) (\<lambda>bv.
     andThen (newValueInList bv d l (int i)) (\<lambda>v.
     andThen (list_values R b d l h is) (\<lambda>rest. ret (v # rest))))"

definition List_Values_at :: "'w wazero_runtime \<Rightarrow> ref \<Rightarrow> ('w prog, Value list) comp" where
  "List_Values_at R l = andThen (read_list l) (\<lambda>o'. the_doc (list_doc o') (\<lambda>d. with_lock d (\<lambda>b.
     andThen (on_b b (ListLen (rt_module R) (list_handle o'))) (\<lambda>n.
     list_values R b d l (list_handle o') [0..<unat n]))))"

definition Text_Len_at :: "'w wazero_runtime \<Rightarrow> ref \<Rightarrow> ('w prog, int) comp" where
  "Text_Len_at R t = andThen (read_text t) (\<lambda>o'. lock_of (text_doc o') (\<lambda>b.
     swallowed 0 (andThen (on_b b (ObjSize (rt_module R) (text_handle o'))) (\<lambda>n. ret (sint n)))))"

definition Text_Get_at :: "'w wazero_runtime \<Rightarrow> ref \<Rightarrow> ('w prog, string) comp" where
  "Text_Get_at R t = andThen (read_text t) (\<lambda>o'. lock_of (text_doc o') (\<lambda>b.
     on_b b (TextGet (rt_module R) (text_handle o'))))"

definition wrapped :: "string \<Rightarrow> ('s, 'a) comp \<Rightarrow> ('s, 'a) comp" where
  "wrapped fmt m = (\<lambda>s. case m s of (Error e, s') \<Rightarrow> (Error (wrapf fmt e), s') | (r, s') \<Rightarrow> (r, s'))"

definition Text_splice_at :: "'w wazero_runtime \<Rightarrow> ref \<Rightarrow> uint64 \<Rightarrow> int64 \<Rightarrow> string \<Rightarrow> ('w prog, unit) comp" where
  "Text_splice_at R t pos del s = andThen (read_text t) (\<lambda>o'. lock_of (text_doc o') (\<lambda>b.
     wrapped ''automerge.Text: failed to write: %w''
       (on_b b (TextSplice (rt_module R) (text_handle o') pos del s))))"

definition Text_Set_at :: "'w wazero_runtime \<Rightarrow> ref \<Rightarrow> string \<Rightarrow> ('w prog, unit) comp" where
  "Text_Set_at R t s = andThen (Text_Len_at R t) (\<lambda>n. Text_splice_at R t 0 (word_of_int n) s)"

section \<open>Writing a value into a map or a list\<close>

text \<open>
  \<open>Map.Set\<close> and \<open>List.put\<close> have the same switch over the type of the value; they differ in the
  backend call and in the error texts. A slot is a key of a map or an index of a list, the
  latter with the flag that says whether to insert.
\<close>

datatype slot = InMap ref string | InList ref uint64 bool

fun slot_target :: "slot \<Rightarrow> ('w prog, ref option \<times> ObjHandle) comp" where
  "slot_target (InMap m key) = andThen (read_map m) (\<lambda>o'. ret (map_doc o', map_handle o'))"
| "slot_target (InList l i before) = andThen (read_list l) (\<lambda>o'. ret (list_doc o', list_handle o'))"

fun slot_put :: "'w api_module \<Rightarrow> slot \<Rightarrow> ObjHandle \<Rightarrow> byte \<Rightarrow> bytes \<Rightarrow> ('w, ObjHandle) comp" where
  "slot_put M (InMap m key) h tag payload = MapPut M h key tag payload"
| "slot_put M (InList l i before) h tag payload = ListPut M h i before tag payload"

fun moved :: "slot \<Rightarrow> string \<Rightarrow> go_error" where
  "moved (InMap m key) what = Errorf (''automerge.Map: tried to move an existing '' @ what) []"
| "moved (InList l i before) what = Errorf (''automerge.List: tried to move an attached '' @ what) []"

fun own_counter :: "slot \<Rightarrow> CounterObj \<Rightarrow> CounterObj" where
  "own_counter (InMap m key) c = c\<lparr>counter_m := Some m, counter_key := key\<rparr>"
| "own_counter (InList l i before) c = c\<lparr>counter_l := Some l, counter_idx := sint i\<rparr>"

definition put_at :: "'w wazero_runtime \<Rightarrow> slot \<Rightarrow> (Backend \<Rightarrow> ref \<Rightarrow> ObjHandle \<Rightarrow> ('w prog, 'a) comp) \<Rightarrow> ('w prog, 'a) comp" where
  "put_at R s body = andThen (slot_target s) (\<lambda>(d, h). the_doc d (\<lambda>d. with_lock d (\<lambda>b. body b d h)))"

definition put_prim :: "'w wazero_runtime \<Rightarrow> slot \<Rightarrow> prim \<Rightarrow> ('w prog, unit) comp" where
  "put_prim R s p = put_at R s (\<lambda>b d h. case encode_prim p of (tag, payload) \<Rightarrow>
     andThen (on_b b (slot_put (rt_module R) s h tag payload)) (\<lambda>_. ret ()))"

definition attach_map :: "'w wazero_runtime \<Rightarrow> slot \<Rightarrow> ref \<Rightarrow> ('w prog, unit) comp" where
  "attach_map R s r = put_at R s (\<lambda>b d h. andThen (read_map r) (\<lambda>v.
     if map_doc v \<noteq> None then fail (moved s ''*automerge.Map'')
     else andThen (on_b b (slot_put (rt_module R) s h TagMap [])) (\<lambda>h'.
       write_map r (v\<lparr>map_doc := Some d, map_handle := h'\<rparr>))))"

definition attach_list :: "'w wazero_runtime \<Rightarrow> slot \<Rightarrow> ref \<Rightarrow> ('w prog, unit) comp" where
  "attach_list R s r = put_at R s (\<lambda>b d h. andThen (read_list r) (\<lambda>v.
     if list_doc v \<noteq> None then fail (moved s ''*automerge.List'')
     else andThen (on_b b (slot_put (rt_module R) s h TagList [])) (\<lambda>h'.
       write_list r (v\<lparr>list_doc := Some d, list_handle := h'\<rparr>))))"

definition attach_counter :: "'w wazero_runtime \<Rightarrow> slot \<Rightarrow> ref \<Rightarrow> ('w prog, unit) comp" where
  "attach_counter R s r = put_at R s (\<lambda>b d h. andThen (read_counter r) (\<lambda>v.
     if counter_m v \<noteq> None \<or> counter_l v \<noteq> None then fail (moved s ''*automerge.Counter'')
     else (case EncodeCounter (counter_val v) of (tag, payload) \<Rightarrow>
       andThen (on_b b (slot_put (rt_module R) s h tag payload)) (\<lambda>_. write_counter r (own_counter s v)))))"

text \<open>A text is attached under the lock and filled after \<open>unlock()\<close>.\<close>

definition attach_text :: "'w wazero_runtime \<Rightarrow> slot \<Rightarrow> ref \<Rightarrow> ('w prog, unit) comp" where
  "attach_text R s r = andThen (put_at R s (\<lambda>b d h. andThen (read_text r) (\<lambda>v.
     if text_doc v \<noteq> None then fail (moved s ''*automerge.Text'')
     else andThen (on_b b (slot_put (rt_module R) s h TagText [])) (\<lambda>h'.
       andThen (write_text r (v\<lparr>text_doc := Some d, text_handle := h'\<rparr>)) (\<lambda>_. ret (text_val v))))))
     (\<lambda>val. Text_Set_at R r val)"

text \<open>
  The switch. A slice or a map becomes a new list or map that is attached first and then
  filled, each element with its own lock.
\<close>

fun set_slot :: "'w wazero_runtime \<Rightarrow> slot \<Rightarrow> gval \<Rightarrow> ('w prog, unit) comp"
  and append_all :: "'w wazero_runtime \<Rightarrow> ref \<Rightarrow> gval list \<Rightarrow> ('w prog, unit) comp"
  and set_all :: "'w wazero_runtime \<Rightarrow> ref \<Rightarrow> (string \<times> gval) list \<Rightarrow> ('w prog, unit) comp"
where
  "set_slot R s (GPrim p) = put_prim R s p"
| "set_slot R s (GSlice vs) = andThen NewList (\<lambda>nl. andThen (attach_list R s nl) (\<lambda>_. append_all R nl vs))"
| "set_slot R s (GMap kvs) = andThen NewMap (\<lambda>n. andThen (attach_map R s n) (\<lambda>_. set_all R n kvs))"
| "set_slot R s (GMapRef r) = attach_map R s r"
| "set_slot R s (GListRef r) = attach_list R s r"
| "set_slot R s (GCounterRef r) = attach_counter R s r"
| "set_slot R s (GTextRef r) = attach_text R s r"
| "append_all R l [] = ret ()"
| "append_all R l (v # vs) = andThen (List_Len_at R l) (\<lambda>n.
     andThen (set_slot R (InList l (word_of_int n) True) v) (\<lambda>_. append_all R l vs))"
| "set_all R m [] = ret ()"
| "set_all R m ((key, v) # kvs) = andThen (set_slot R (InMap m key) v) (\<lambda>_. set_all R m kvs)"

section \<open>Paths\<close>

definition Path_Path :: "Path \<Rightarrow> seg list \<Rightarrow> Path" where
  "Path_Path p segs = p\<lparr>path_path := path_path p @ segs\<rparr>"

definition Doc_Path :: "ref \<Rightarrow> seg list \<Rightarrow> Path" where
  "Doc_Path d segs = Path_Path \<lparr>path_d = d, path_path = []\<rparr> segs"

fun seg_arg :: "seg \<Rightarrow> go_arg" where
  "seg_arg (SKey k) = AStr k"
| "seg_arg (SIdx i) = AInt i"

definition non_map :: "string \<Rightarrow> go_error" where
  "non_map k = Errorf ''%#v: tried to read property %#v of non-map %#v'' [AStr k]"

definition non_list :: "int \<Rightarrow> go_error" where
  "non_list i = Errorf ''%#v: tried to read index %#v of non-list %#v'' [AInt i]"

fun path_walk :: "'w wazero_runtime \<Rightarrow> seg list \<Rightarrow> Value \<Rightarrow> ('w prog, Value) comp" where
  "path_walk R [] obj = ret obj"
| "path_walk R (SKey idx # segs) obj =
     (if value_kind obj = KindVoid then ret obj
      else if value_kind obj \<noteq> KindMap then fail (non_map idx)
      else andThen (lift (Value_Map obj)) (\<lambda>m. andThen (Map_Get_at R m idx) (path_walk R segs)))"
| "path_walk R (SIdx idx # segs) obj =
     (if value_kind obj = KindVoid then ret obj
      else if value_kind obj \<noteq> KindList then fail (non_list idx)
      else andThen (lift (Value_List obj)) (\<lambda>l. andThen (List_Get_at R l idx) (path_walk R segs)))"

definition Path_Get :: "'w wazero_runtime \<Rightarrow> Path \<Rightarrow> ('w prog, Value) comp" where
  "Path_Get R p = andThen (Root (path_d p)) (path_walk R (path_path p))"

text \<open>
  \<open>ensure\<close> returns a value and a closure that writes to its place. The closure is data here:
  which place it writes to. \<open>None\<close> as the value to write is the sentinel \<open>toDelete\<close>.
\<close>

datatype setter = SetRoot | SetKey ref string | SetIdx ref int

definition overwrite_root :: go_error where
  "overwrite_root = Errorf ''%#v: tried to overwrite root of document'' []"

definition beyond_end :: "string \<Rightarrow> int \<Rightarrow> int \<Rightarrow> go_error" where
  "beyond_end fmt i n = Errorf fmt [AInt i, AInt n]"

definition List_Set_at :: "'w wazero_runtime \<Rightarrow> ref \<Rightarrow> int \<Rightarrow> gval \<Rightarrow> ('w prog, unit) comp" where
  "List_Set_at R l idx v = andThen (if idx < 0 then ret True else andThen (List_Len_at R l) (\<lambda>n. ret (n \<le> idx))) (\<lambda>outside.
     if outside then andThen (List_Len_at R l) (\<lambda>n.
       fail (beyond_end ''automerge.List: tried to write index %v beyond end of list length %v'' idx n))
     else set_slot R (InList l (word_of_int idx) False) v)"

definition List_Delete_checked_at :: "'w wazero_runtime \<Rightarrow> ref \<Rightarrow> int \<Rightarrow> ('w prog, unit) comp" where
  "List_Delete_checked_at R l idx = andThen (if idx < 0 then ret True else andThen (List_Len_at R l) (\<lambda>n. ret (n \<le> idx))) (\<lambda>outside.
     if outside then andThen (List_Len_at R l) (\<lambda>n.
       fail (beyond_end ''automerge.List: tried to write index %v beyond end of list length %v'' idx n))
     else List_Delete_at R l idx)"

fun apply_set :: "'w wazero_runtime \<Rightarrow> setter \<Rightarrow> gval option \<Rightarrow> ('w prog, unit) comp" where
  "apply_set R SetRoot v = fail overwrite_root"
| "apply_set R (SetKey m key) v = (case v of
     None \<Rightarrow> Map_Delete_at R m key
   | Some v \<Rightarrow> set_slot R (InMap m key) v)"
| "apply_set R (SetIdx l key) v = andThen (List_Len_at R l) (\<lambda>n.
     if n < key \<or> key = n \<and> v = None
     then andThen (List_Len_at R l) (\<lambda>n.
       fail (beyond_end ''%#v: tried to write index %v beyond end of list length %v'' key n))
     else (case v of
       None \<Rightarrow> List_Delete_checked_at R l key
     | Some v \<Rightarrow> andThen (List_Len_at R l) (\<lambda>n.
         if key = n then append_all R l [v] else List_Set_at R l key v)))"

definition write_non_map :: "string \<Rightarrow> go_error" where
  "write_non_map k = Errorf ''%#v: tried to write property %#v of non-map %#v'' [AStr k]"

definition write_non_list :: "int \<Rightarrow> go_error" where
  "write_non_list i = Errorf ''%#v: tried to write index %v of non-list %#v'' [AInt i]"

definition ensureMap_of ::
  "'w wazero_runtime \<Rightarrow> ref \<Rightarrow> bool \<Rightarrow> ('w prog, Value \<times> setter) comp \<Rightarrow> string \<Rightarrow> ('w prog, ref) comp" where
  "ensureMap_of R d root ens debugKey = (if root then RootMap d else andThen ens (\<lambda>(v, set).
     if value_kind v = KindVoid then andThen NewMap (\<lambda>t. andThen (apply_set R set (Some (GMapRef t))) (\<lambda>_. ret t))
     else if value_kind v = KindMap then lift (Value_Map v)
     else fail (write_non_map debugKey)))"

definition ensureList_of ::
  "'w wazero_runtime \<Rightarrow> ('w prog, Value \<times> setter) comp \<Rightarrow> int \<Rightarrow> ('w prog, ref) comp" where
  "ensureList_of R ens debugKey = andThen ens (\<lambda>(v, set).
     if value_kind v = KindVoid then andThen NewList (\<lambda>t. andThen (apply_set R set (Some (GListRef t))) (\<lambda>_. ret t))
     else if value_kind v = KindList then lift (Value_List v)
     else fail (write_non_list debugKey))"

text \<open>\<open>ensure\<close> recurses on the parent path, so the segments come last first.\<close>

fun ensure_rev :: "'w wazero_runtime \<Rightarrow> ref \<Rightarrow> seg list \<Rightarrow> ('w prog, Value \<times> setter) comp" where
  "ensure_rev R d [] = andThen (Root d) (\<lambda>v. ret (v, SetRoot))"
| "ensure_rev R d (SKey key # parent) =
     andThen (ensureMap_of R d (parent = []) (ensure_rev R d parent) key) (\<lambda>m.
     andThen (Map_Get_at R m key) (\<lambda>v. ret (v, SetKey m key)))"
| "ensure_rev R d (SIdx key # parent) =
     andThen (ensureList_of R (ensure_rev R d parent) key) (\<lambda>l.
     andThen (List_Get_at R l key) (\<lambda>v. ret (v, SetIdx l key)))"

definition ensure :: "'w wazero_runtime \<Rightarrow> Path \<Rightarrow> ('w prog, Value \<times> setter) comp" where
  "ensure R p = ensure_rev R (path_d p) (rev (path_path p))"

definition ensureMap :: "'w wazero_runtime \<Rightarrow> Path \<Rightarrow> string \<Rightarrow> ('w prog, ref) comp" where
  "ensureMap R p debugKey = ensureMap_of R (path_d p) (path_path p = []) (ensure R p) debugKey"

definition ensureList :: "'w wazero_runtime \<Rightarrow> Path \<Rightarrow> int \<Rightarrow> ('w prog, ref) comp" where
  "ensureList R p debugKey = ensureList_of R (ensure R p) debugKey"

definition ensureText :: "'w wazero_runtime \<Rightarrow> Path \<Rightarrow> ('w prog, ref) comp" where
  "ensureText R p = andThen (ensure R p) (\<lambda>(v, set).
     if value_kind v = KindVoid then andThen (NewText []) (\<lambda>t. andThen (apply_set R set (Some (GTextRef t))) (\<lambda>_. ret t))
     else if value_kind v = KindText then lift (Value_Text v)
     else fail (Errorf ''%#v: tried to edit non-text %#v'' []))"

definition ensureCounter :: "'w wazero_runtime \<Rightarrow> Path \<Rightarrow> ('w prog, ref) comp" where
  "ensureCounter R p = andThen (ensure R p) (\<lambda>(v, set).
     if value_kind v = KindVoid then andThen (NewCounter 0) (\<lambda>t. andThen (apply_set R set (Some (GCounterRef t))) (\<lambda>_. ret t))
     else if value_kind v = KindCounter then lift (Value_Counter v)
     else fail (Errorf ''%#v: tried to increment non-counter %#v'' []))"

definition Path_Set :: "'w wazero_runtime \<Rightarrow> Path \<Rightarrow> gval \<Rightarrow> ('w prog, unit) comp" where
  "Path_Set R p v = andThen (ensure R p) (\<lambda>(_, set). apply_set R set (Some v))"

definition Path_Delete :: "'w wazero_runtime \<Rightarrow> Path \<Rightarrow> ('w prog, unit) comp" where
  "Path_Delete R p = andThen (ensure R p) (\<lambda>(_, set). apply_set R set None)"

definition Path_Map :: "Path \<Rightarrow> ('w prog, ref) comp" where
  "Path_Map p = alloc_map \<lparr>map_doc = Some (path_d p), map_handle = 0, map_path = Some p\<rparr>"

definition Path_List :: "Path \<Rightarrow> ('w prog, ref) comp" where
  "Path_List p = alloc_list \<lparr>list_doc = Some (path_d p), list_handle = 0, list_path = Some p\<rparr>"

definition Path_Text :: "Path \<Rightarrow> ('w prog, ref) comp" where
  "Path_Text p = alloc_text \<lparr>text_doc = Some (path_d p), text_handle = 0, text_path = Some p, text_val = []\<rparr>"

definition Path_Counter :: "Path \<Rightarrow> ('w prog, ref) comp" where
  "Path_Counter p = alloc_counter ((counter_of 0)\<lparr>counter_path := Some p\<rparr>)"

section \<open>Maps\<close>

definition detached :: "string \<Rightarrow> go_error" where
  "detached fmt = Errorf fmt []"

definition createOnPath :: "'w wazero_runtime \<Rightarrow> ref \<Rightarrow> string \<Rightarrow> ('w prog, unit) comp" where
  "createOnPath R m key = andThen (read_map m) (\<lambda>o'. case map_path o' of
     None \<Rightarrow> ret ()
   | Some p \<Rightarrow> andThen (ensureMap R p key) (\<lambda>m2. andThen (read_map m2) (\<lambda>o2.
       write_map m (o'\<lparr>map_doc := map_doc o2, map_handle := map_handle o2, map_path := None\<rparr>))))"

definition Map_Get :: "'w wazero_runtime \<Rightarrow> ref \<Rightarrow> string \<Rightarrow> ('w prog, Value) comp" where
  "Map_Get R m key = andThen (read_map m) (\<lambda>o'.
     if map_doc o' = None then fail (detached ''automerge.Map: tried to read detached map'')
     else case map_path o' of
       Some p \<Rightarrow> Path_Get R (Path_Path p [SKey key])
     | None \<Rightarrow> Map_Get_at R m key)"

text \<open>Reading a length through a path: 0 on an error and on another kind.\<close>

definition len_on_path ::
  "'w wazero_runtime \<Rightarrow> Path \<Rightarrow> Kind \<Rightarrow> (Value \<Rightarrow> ref outcome) \<Rightarrow> (ref \<Rightarrow> ('w prog, int) comp) \<Rightarrow> ('w prog, int) comp" where
  "len_on_path R p k get len = (\<lambda>P. case Path_Get R p P of
     (Error e, P') \<Rightarrow> (Ok 0, P')
   | (Panic e, P') \<Rightarrow> (Panic e, P')
   | (Ok v, P') \<Rightarrow> if value_kind v \<noteq> k then (Ok 0, P') else andThen (lift (get v)) len P')"

definition Map_Len :: "'w wazero_runtime \<Rightarrow> ref \<Rightarrow> ('w prog, int) comp" where
  "Map_Len R m = andThen (read_map m) (\<lambda>o'.
     if map_doc o' = None then ret 0
     else case map_path o' of
       Some p \<Rightarrow> len_on_path R p KindMap Value_Map (Map_Len_at R)
     | None \<Rightarrow> Map_Len_at R m)"

definition Map_Delete :: "'w wazero_runtime \<Rightarrow> ref \<Rightarrow> string \<Rightarrow> ('w prog, unit) comp" where
  "Map_Delete R m key = andThen (read_map m) (\<lambda>o'.
     if map_doc o' = None then fail (detached ''automerge.Map: tried to write to detached map'')
     else andThen (createOnPath R m key) (\<lambda>_. Map_Delete_at R m key))"

definition Map_Set :: "'w wazero_runtime \<Rightarrow> ref \<Rightarrow> string \<Rightarrow> gval \<Rightarrow> ('w prog, unit) comp" where
  "Map_Set R m key v = andThen (read_map m) (\<lambda>o'.
     if map_doc o' = None then fail (detached ''automerge.Map: tried to write to detached map'')
     else andThen (createOnPath R m key) (\<lambda>_. set_slot R (InMap m key) v))"

definition Map_Values :: "'w wazero_runtime \<Rightarrow> ref \<Rightarrow> ('w prog, (string \<times> Value) list) comp" where
  "Map_Values R m = andThen (read_map m) (\<lambda>o'.
     if map_doc o' = None then fail (detached ''automerge.Map: tried to read detached map'')
     else case map_path o' of
       None \<Rightarrow> Map_Values_at R m
     | Some p \<Rightarrow> andThen (Path_Get R p) (\<lambda>v.
         if value_kind v = KindMap then andThen (lift (Value_Map v)) (Map_Values_at R)
         else if value_kind v = KindVoid then ret []
         else fail (Errorf ''%#v: tried to read non-map %#v'' [])))"

definition Map_Keys :: "'w wazero_runtime \<Rightarrow> ref \<Rightarrow> ('w prog, string list) comp" where
  "Map_Keys R m = andThen (Map_Values R m) (\<lambda>v. ret (remdups (map fst v)))"

section \<open>Lists\<close>

definition List_Len :: "'w wazero_runtime \<Rightarrow> ref \<Rightarrow> ('w prog, int) comp" where
  "List_Len R l = andThen (read_list l) (\<lambda>o'.
     if list_doc o' = None then ret 0
     else case list_path o' of
       Some p \<Rightarrow> len_on_path R p KindList Value_List (List_Len_at R)
     | None \<Rightarrow> List_Len_at R l)"

definition List_Values :: "'w wazero_runtime \<Rightarrow> ref \<Rightarrow> ('w prog, Value list) comp" where
  "List_Values R l = andThen (read_list l) (\<lambda>o'.
     if list_doc o' = None then fail (detached ''automerge.List: tried to read detached list'')
     else case list_path o' of
       None \<Rightarrow> List_Values_at R l
     | Some p \<Rightarrow> andThen (Path_Get R p) (\<lambda>v.
         if value_kind v = KindList then andThen (lift (Value_List v)) (List_Values_at R)
         else if value_kind v = KindVoid then ret []
         else fail (Errorf ''%#v: tried to read non-list %#v'' [])))"

definition List_Get :: "'w wazero_runtime \<Rightarrow> ref \<Rightarrow> int \<Rightarrow> ('w prog, Value) comp" where
  "List_Get R l i = andThen (read_list l) (\<lambda>o'.
     if list_doc o' = None then fail (detached ''automerge.List: tried to read detached list'')
     else case list_path o' of
       Some p \<Rightarrow> Path_Get R (Path_Path p [SIdx i])
     | None \<Rightarrow> List_Get_at R l i)"

definition List_put :: "'w wazero_runtime \<Rightarrow> ref \<Rightarrow> uint64 \<Rightarrow> bool \<Rightarrow> gval \<Rightarrow> ('w prog, unit) comp" where
  "List_put R l i before v = andThen (read_list l) (\<lambda>o'.
     if list_doc o' = None then fail (detached ''automerge.List: tried to write to detached list'')
     else andThen (case list_path o' of
         None \<Rightarrow> ret ()
       | Some p \<Rightarrow> andThen (ensureList R p (sint i)) (\<lambda>l2. andThen (read_list l2) (\<lambda>o2.
           write_list l (o'\<lparr>list_doc := list_doc o2, list_handle := list_handle o2, list_path := None\<rparr>))))
       (\<lambda>_. set_slot R (InList l i before) v))"

fun List_Append :: "'w wazero_runtime \<Rightarrow> ref \<Rightarrow> gval list \<Rightarrow> ('w prog, unit) comp" where
  "List_Append R l [] = ret ()"
| "List_Append R l (v # vs) = andThen (List_Len R l) (\<lambda>n.
     andThen (List_put R l (word_of_int n) True v) (\<lambda>_. List_Append R l vs))"

text \<open>\<open>idx < 0 || idx >= l.Len()\<close> and the error with a second call of \<open>Len\<close>.\<close>

definition checked_index ::
  "'w wazero_runtime \<Rightarrow> ref \<Rightarrow> int \<Rightarrow> (int \<Rightarrow> bool) \<Rightarrow> ('w prog, unit) comp \<Rightarrow> ('w prog, unit) comp" where
  "checked_index R l idx bad body = andThen (if idx < 0 then ret True else andThen (List_Len R l) (\<lambda>n. ret (bad n))) (\<lambda>outside.
     if outside then andThen (List_Len R l) (\<lambda>n.
       fail (beyond_end ''automerge.List: tried to write index %v beyond end of list length %v'' idx n))
     else body)"

definition List_Set :: "'w wazero_runtime \<Rightarrow> ref \<Rightarrow> int \<Rightarrow> gval \<Rightarrow> ('w prog, unit) comp" where
  "List_Set R l idx v = checked_index R l idx (\<lambda>n. n \<le> idx) (List_put R l (word_of_int idx) False v)"

fun insert_all :: "'w wazero_runtime \<Rightarrow> ref \<Rightarrow> int \<Rightarrow> gval list \<Rightarrow> ('w prog, unit) comp" where
  "insert_all R l i [] = ret ()"
| "insert_all R l i (v # vs) = andThen (List_put R l (word_of_int i) True v) (\<lambda>_. insert_all R l (i + 1) vs)"

definition List_Insert :: "'w wazero_runtime \<Rightarrow> ref \<Rightarrow> int \<Rightarrow> gval list \<Rightarrow> ('w prog, unit) comp" where
  "List_Insert R l idx vs = checked_index R l idx (\<lambda>n. n < idx) (insert_all R l idx vs)"

text \<open>\<open>List.Delete\<close> does not look at the path of the list: it uses the handle it has.\<close>

definition List_Delete :: "'w wazero_runtime \<Rightarrow> ref \<Rightarrow> int \<Rightarrow> ('w prog, unit) comp" where
  "List_Delete R l idx = checked_index R l idx (\<lambda>n. n \<le> idx) (List_Delete_at R l idx)"

section \<open>Texts\<close>

definition Text_Len :: "'w wazero_runtime \<Rightarrow> ref \<Rightarrow> ('w prog, int) comp" where
  "Text_Len R t = andThen (read_text t) (\<lambda>o'.
     if text_doc o' = None then ret 0
     else case text_path o' of
       Some p \<Rightarrow> len_on_path R p KindText Value_Text (Text_Len_at R)
     | None \<Rightarrow> Text_Len_at R t)"

definition Text_Get :: "'w wazero_runtime \<Rightarrow> ref \<Rightarrow> ('w prog, string) comp" where
  "Text_Get R t = andThen (read_text t) (\<lambda>o'.
     if text_doc o' = None then fail (detached ''automerge.Text: tried to read detached text'')
     else case text_path o' of
       None \<Rightarrow> Text_Get_at R t
     | Some p \<Rightarrow> andThen (Path_Get R p) (\<lambda>v.
         if value_kind v = KindVoid then ret []
         else if value_kind v = KindText then andThen (lift (Value_Text v)) (Text_Get_at R)
         else fail (Errorf ''automerge.Text: tried to read non-text value %#v'' [])))"

text \<open>
  The opening of every writing method: refuse a detached text, and replace a path by the
  handle of the text found or created there.
\<close>

definition resolve_text :: "'w wazero_runtime \<Rightarrow> ref \<Rightarrow> string \<Rightarrow> ('w prog, TextObj) comp" where
  "resolve_text R t msg = andThen (read_text t) (\<lambda>o'.
     if text_doc o' = None then fail (detached msg)
     else case text_path o' of
       None \<Rightarrow> ret o'
     | Some p \<Rightarrow> andThen (ensureText R p) (\<lambda>t2. andThen (read_text t2) (\<lambda>o2.
         let o3 = o'\<lparr>text_doc := text_doc o2, text_handle := text_handle o2, text_path := None\<rparr> in
         andThen (write_text t o3) (\<lambda>_. ret o3))))"

definition Text_splice :: "'w wazero_runtime \<Rightarrow> ref \<Rightarrow> uint64 \<Rightarrow> int64 \<Rightarrow> string \<Rightarrow> ('w prog, unit) comp" where
  "Text_splice R t pos del s =
     andThen (resolve_text R t ''automerge.Text: tried to write to detached text'') (\<lambda>_. Text_splice_at R t pos del s)"

definition Text_Set :: "'w wazero_runtime \<Rightarrow> ref \<Rightarrow> string \<Rightarrow> ('w prog, unit) comp" where
  "Text_Set R t s = andThen (Text_Len R t) (\<lambda>n. Text_splice R t 0 (word_of_int n) s)"

definition Text_Insert :: "'w wazero_runtime \<Rightarrow> ref \<Rightarrow> int \<Rightarrow> string \<Rightarrow> ('w prog, unit) comp" where
  "Text_Insert R t pos s = Text_splice R t (word_of_int pos) 0 s"

definition Text_Delete :: "'w wazero_runtime \<Rightarrow> ref \<Rightarrow> int \<Rightarrow> int \<Rightarrow> ('w prog, unit) comp" where
  "Text_Delete R t pos del = Text_splice R t (word_of_int pos) (word_of_int del) []"

definition Text_Append :: "'w wazero_runtime \<Rightarrow> ref \<Rightarrow> string \<Rightarrow> ('w prog, unit) comp" where
  "Text_Append R t s = andThen (Text_Len R t) (\<lambda>n. Text_splice R t (word_of_int n) 0 s)"

definition Text_Splice :: "'w wazero_runtime \<Rightarrow> ref \<Rightarrow> int \<Rightarrow> int \<Rightarrow> string \<Rightarrow> ('w prog, unit) comp" where
  "Text_Splice R t pos del s = Text_splice R t (word_of_int pos) (word_of_int del) s"

definition Text_Mark :: "'w wazero_runtime \<Rightarrow> ref \<Rightarrow> string \<Rightarrow> string \<Rightarrow> int \<Rightarrow> int \<Rightarrow> byte \<Rightarrow> ('w prog, unit) comp" where
  "Text_Mark R t name val start stop expand =
     andThen (resolve_text R t ''automerge.Text: tried to mark detached text'') (\<lambda>o'. lock_of (text_doc o') (\<lambda>b.
       on_b b (Mark (rt_module R) (text_handle o') name val (word_of_int start) (word_of_int stop) expand)))"

definition Text_Unmark :: "'w wazero_runtime \<Rightarrow> ref \<Rightarrow> string \<Rightarrow> int \<Rightarrow> int \<Rightarrow> byte \<Rightarrow> ('w prog, unit) comp" where
  "Text_Unmark R t name start stop expand =
     andThen (resolve_text R t ''automerge.Text: tried to unmark detached text'') (\<lambda>o'. lock_of (text_doc o') (\<lambda>b.
       on_b b (Unmark (rt_module R) (text_handle o') name (word_of_int start) (word_of_int stop) expand)))"

definition on_text ::
  "'w wazero_runtime \<Rightarrow> ref \<Rightarrow> string \<Rightarrow> string \<Rightarrow> (ref \<Rightarrow> ('w prog, 'a) comp) \<Rightarrow> ('w prog, 'a) comp" where
  "on_text R t nodoc nontext body = andThen (read_text t) (\<lambda>o'.
     if text_doc o' = None then fail (detached nodoc)
     else case text_path o' of
       None \<Rightarrow> body t
     | Some p \<Rightarrow> andThen (Path_Get R p) (\<lambda>v.
         if value_kind v \<noteq> KindText then fail (Errorf nontext [])
         else andThen (lift (Value_Text v)) body))"

definition Text_Marks :: "'w wazero_runtime \<Rightarrow> ref \<Rightarrow> ('w prog, Mark_t list) comp" where
  "Text_Marks R t = on_text R t ''automerge.Text: tried to read marks on detached text''
     ''automerge.Text: tried to read marks on non-text value'' (\<lambda>t. andThen (read_text t) (\<lambda>o'. lock_of (text_doc o') (\<lambda>b.
       andThen (wrapped ''automerge.Text: failed to get marks: %w'' (on_b b (Marks (rt_module R) (text_handle o'))))
         (\<lambda>jsonStr. lift (parse_marks jsonStr)))))"

definition Text_Spans :: "'w wazero_runtime \<Rightarrow> ref \<Rightarrow> ('w prog, Span list) comp" where
  "Text_Spans R t = on_text R t ''automerge.Text: tried to read spans on detached text''
     ''automerge.Text: tried to read spans on non-text value'' (\<lambda>t. andThen (read_text t) (\<lambda>o'. lock_of (text_doc o') (\<lambda>b.
       andThen (wrapped ''automerge.Text: failed to get spans: %w'' (on_b b (Spans (rt_module R) (text_handle o'))))
         (\<lambda>jsonStr. lift (parse_spans jsonStr)))))"

definition Text_GetCursor :: "'w wazero_runtime \<Rightarrow> ref \<Rightarrow> int \<Rightarrow> ('w prog, string) comp" where
  "Text_GetCursor R t index = on_text R t ''automerge.Text: tried to get cursor on detached text''
     ''automerge.Text: tried to get cursor on non-text value'' (\<lambda>t. andThen (read_text t) (\<lambda>o'. lock_of (text_doc o') (\<lambda>b.
       wrapped ''automerge.Text: failed to get cursor: %w''
         (on_b b (GetCursor (rt_module R) (text_handle o') (word_of_int index))))))"

text \<open>\<open>LookupCursor\<close> looks at the document before it looks at the cursor, \<open>None\<close> being the nil pointer.\<close>

definition Text_LookupCursor :: "'w wazero_runtime \<Rightarrow> ref \<Rightarrow> string option \<Rightarrow> ('w prog, int) comp" where
  "Text_LookupCursor R t c = andThen (read_text t) (\<lambda>o'.
     if text_doc o' = None then fail (detached ''automerge.Text: tried to lookup cursor on detached text'')
     else case c of
       None \<Rightarrow> fail (Errorf ''automerge.Text: cursor is nil'' [])
     | Some c \<Rightarrow> on_text R t ''automerge.Text: tried to lookup cursor on detached text''
         ''automerge.Text: tried to lookup cursor on non-text value'' (\<lambda>t. andThen (read_text t) (\<lambda>o'. lock_of (text_doc o') (\<lambda>b.
           wrapped ''automerge.Text: failed to lookup cursor: %w''
             (andThen (on_b b (LookupCursor (rt_module R) (text_handle o') c)) (\<lambda>i. ret (sint i)))))))"

definition block_method ::
  "'w wazero_runtime \<Rightarrow> ref \<Rightarrow> string \<Rightarrow> string \<Rightarrow> (ObjHandle \<Rightarrow> ('w, ObjHandle) comp) \<Rightarrow> ('w prog, ref) comp" where
  "block_method R t nodoc fmt meth = andThen (resolve_text R t nodoc) (\<lambda>o'. the_doc (text_doc o') (\<lambda>d. with_lock d (\<lambda>b.
     andThen (wrapped fmt (on_b b (meth (text_handle o')))) (\<lambda>h. alloc_map (map_at d h)))))"

definition Text_SplitBlock :: "'w wazero_runtime \<Rightarrow> ref \<Rightarrow> int \<Rightarrow> ('w prog, ref) comp" where
  "Text_SplitBlock R t index = block_method R t ''automerge.Text: tried to split block on detached text''
     ''automerge.Text: failed to split block: %w'' (\<lambda>h. SplitBlock (rt_module R) h (word_of_int index))"

definition Text_JoinBlock :: "'w wazero_runtime \<Rightarrow> ref \<Rightarrow> int \<Rightarrow> ('w prog, unit) comp" where
  "Text_JoinBlock R t index =
     andThen (resolve_text R t ''automerge.Text: tried to join block on detached text'') (\<lambda>o'. lock_of (text_doc o') (\<lambda>b.
       on_b b (JoinBlock (rt_module R) (text_handle o') (word_of_int index))))"

definition Text_ReplaceBlock :: "'w wazero_runtime \<Rightarrow> ref \<Rightarrow> int \<Rightarrow> ('w prog, ref) comp" where
  "Text_ReplaceBlock R t index = block_method R t ''automerge.Text: tried to replace block on detached text''
     ''automerge.Text: failed to replace block: %w'' (\<lambda>h. ReplaceBlock (rt_module R) h (word_of_int index))"

section \<open>Counters\<close>

definition counter_value :: "Value \<Rightarrow> ('w prog, int64) comp" where
  "counter_value v =
     (if value_kind v = KindVoid then ret 0
      else if value_kind v = KindCounter
      then andThen (lift (Value_Counter v)) (\<lambda>c. andThen (read_counter c) (\<lambda>x. ret (counter_val x)))
      else fail (Errorf ''automerge.Counter: tried to read non-counter %#v'' []))"

definition Counter_Get :: "'w wazero_runtime \<Rightarrow> ref \<Rightarrow> ('w prog, int64) comp" where
  "Counter_Get R c = andThen (read_counter c) (\<lambda>x.
     case counter_m x of
       Some m \<Rightarrow> andThen (Map_Get R m (counter_key x)) counter_value
     | None \<Rightarrow> (case counter_l x of
         Some l \<Rightarrow> andThen (List_Get R l (counter_idx x)) counter_value
       | None \<Rightarrow> (case counter_path x of
           Some p \<Rightarrow> andThen (Path_Get R p) counter_value
         | None \<Rightarrow> fail (detached ''automerge.Counter: tried to read from detached counter''))))"

definition resolve_counter :: "'w wazero_runtime \<Rightarrow> ref \<Rightarrow> ('w prog, CounterObj) comp" where
  "resolve_counter R c = andThen (read_counter c) (\<lambda>x.
     if counter_m x = None \<and> counter_l x = None then (case counter_path x of
       None \<Rightarrow> fail (detached ''automerge.Counter: tried to write to detached counter'')
     | Some p \<Rightarrow> andThen (ensureCounter R p) (\<lambda>c2. andThen (read_counter c2) (\<lambda>x2.
         let x3 = x\<lparr>counter_l := counter_l x2, counter_idx := counter_idx x2, counter_m := counter_m x2,
           counter_key := counter_key x2, counter_path := None\<rparr> in
         andThen (write_counter c x3) (\<lambda>_. ret x3))))
     else ret x)"

definition Counter_Inc :: "'w wazero_runtime \<Rightarrow> ref \<Rightarrow> int64 \<Rightarrow> ('w prog, unit) comp" where
  "Counter_Inc R c delta = andThen (resolve_counter R c) (\<lambda>x.
     case counter_l x of
       Some l \<Rightarrow> List_inc R l (counter_idx x) delta
     | None \<Rightarrow> (case counter_m x of
         Some m \<Rightarrow> Map_inc R m (counter_key x) delta
       | None \<Rightarrow> panic nil_deref))"

end
