(* ===== verification/ApiLocks.thy ===== *)
theory ApiLocks
  imports Api
begin

text \<open>
  Lock discipline of the public API. Every method takes the mutex of its document for the time
  it talks to the backend, and several methods call others. \<open>quiet\<close> computations take no mutex;
  \<open>polite\<close> ones, started with all mutexes free, find every mutex they lock free, and leave all
  of them free, on success, on errors and on panics.
\<close>

definition held :: "'w prog \<Rightarrow> ref \<Rightarrow> bool" where
  "held P d = (case p_docs P d of None \<Rightarrow> False | Some D \<Rightarrow> doc_held D)"

definition unlocked :: "'w prog \<Rightarrow> bool" where
  "unlocked P \<longleftrightarrow> \<not> p_stuck P \<and> (\<forall>d. \<not> held P d)"

definition quiet :: "('w prog, 'a) comp \<Rightarrow> bool" where
  "quiet m \<longleftrightarrow> (\<forall>P. p_stuck (snd (m P)) = p_stuck P \<and> (\<forall>d. held (snd (m P)) d \<longrightarrow> held P d))"

definition polite :: "('w prog, 'a) comp \<Rightarrow> bool" where
  "polite m \<longleftrightarrow> (\<forall>P. unlocked P \<longrightarrow> unlocked (snd (m P)))"

named_theorems quiet_intros \<open>computations that take no mutex\<close>
named_theorems polite_intros \<open>computations that leave every mutex free\<close>

section \<open>Computations that take no mutex\<close>

lemma quiet_basic [quiet_intros]: "quiet (ret x)" "quiet (fail e)" "quiet (panic e)" "quiet (lift r)"
  by (simp_all add: quiet_def ret_def fail_def panic_def lift_def)

lemma quiet_andThen [quiet_intros]:
  assumes "quiet m" and "\<And>x. quiet (f x)"
  shows "quiet (andThen m f)"
  unfolding quiet_def
proof
  fix P
  obtain r P1 where m: "m P = (r, P1)" by (cases "m P")
  have one: "p_stuck P1 = p_stuck P" "held P1 d \<Longrightarrow> held P d" for d
    using assms(1) m by (auto simp: quiet_def dest: spec [of _ P])
  have two: "p_stuck (snd (f x P1)) = p_stuck P1" "held (snd (f x P1)) d \<Longrightarrow> held P1 d" for x d
    using assms(2) [of x] by (auto simp: quiet_def)
  show "p_stuck (snd (andThen m f P)) = p_stuck P \<and> (\<forall>d. held (snd (andThen m f P)) d \<longrightarrow> held P d)"
    using m one two by (cases r) (auto simp: andThen_def)
qed

lemma quiet_if [quiet_intros]: "quiet x \<Longrightarrow> quiet y \<Longrightarrow> quiet (if c then x else y)"
  by simp

lemma quiet_case_prod [quiet_intros]: "(\<And>x y. quiet (f x y)) \<Longrightarrow> quiet (case_prod f p)"
  by (cases p) simp

lemma quiet_on_world [quiet_intros]: "quiet (on_world m)"
  by (simp add: quiet_def on_world_def held_def split: prod.splits)

lemma quiet_on_b [quiet_intros]: "quiet (on_b b m)"
  unfolding on_b_def by (rule quiet_on_world)

lemma quiet_result:
  assumes "quiet m"
  shows quiet_or_panic [quiet_intros]: "quiet (or_panic fmt m)"
    and quiet_swallowed [quiet_intros]: "quiet (swallowed d m)"
    and quiet_wrapped [quiet_intros]: "quiet (wrapped fmt m)"
  using assms
  by (auto simp: quiet_def or_panic_def swallowed_def wrapped_def split: prod.splits outcome.splits)
    (metis snd_conv)+

lemma quiet_new_doc [quiet_intros]: "quiet (new_doc b)"
  by (simp add: quiet_def new_doc_def held_def)

lemma quiet_closed [quiet_intros]: "quiet (is_closed d)" "quiet (set_closed d)"
  by (auto simp: quiet_def is_closed_def set_closed_def held_def split: option.splits if_splits)

lemma quiet_store [quiet_intros]:
  "quiet fresh_ref" "quiet (read_map r)" "quiet (read_list r)" "quiet (read_text r)" "quiet (read_counter r)"
  "quiet (write_map r mo)" "quiet (write_list r lo)" "quiet (write_text r to)" "quiet (write_counter r co)"
  by (simp_all add: quiet_def held_def fresh_ref_def read_map_def read_list_def read_text_def read_counter_def
      write_map_def write_list_def write_text_def write_counter_def split: option.splits)

lemma quiet_alloc [quiet_intros]:
  "quiet (alloc_map mo)" "quiet (alloc_list lo)" "quiet (alloc_text to)" "quiet (alloc_counter co)"
  unfolding alloc_map_def alloc_list_def alloc_text_def alloc_counter_def by (intro quiet_intros)+

lemma quiet_new [quiet_intros]:
  "quiet NewMap" "quiet NewList" "quiet (NewText s)" "quiet (NewCounter v)" "quiet (RootMap d)" "quiet (Root d)"
  "quiet (Path_Map p)" "quiet (Path_List p)" "quiet (Path_Text p)" "quiet (Path_Counter p)"
  unfolding NewMap_def NewList_def NewText_def NewCounter_def RootMap_def Root_def
    Path_Map_def Path_List_def Path_Text_def Path_Counter_def
  by (intro quiet_intros)+

lemma quiet_newValue [quiet_intros]:
  "quiet (newValueFromBackend bv d)" "quiet (newValueInMap bv d m key)" "quiet (newValueInList bv d l i)"
proof -
  show v: "quiet (newValueFromBackend bv d)"
    by (auto simp: newValueFromBackend_def Let_def intro!: quiet_intros split: Kind.splits prim.splits)
  show "quiet (newValueInMap bv d m key)" "quiet (newValueInList bv d l i)"
    unfolding newValueInMap_def newValueInList_def
    by (auto intro!: quiet_intros v split: vval.splits)
qed

lemma quiet_values [quiet_intros]:
  "quiet (map_values R b d m h keys)" "quiet (list_values R b d l h is)"
proof -
  show "quiet (map_values R b d m h keys)" by (induction keys) (auto intro!: quiet_intros)
  show "quiet (list_values R b d l h is)" by (induction "is") (auto intro!: quiet_intros)
qed

lemma quiet_slot_target [quiet_intros]: "quiet (slot_target s)"
  by (cases s) (auto intro!: quiet_intros)

section \<open>Computations that lock\<close>

lemma polite_quiet: "quiet m \<Longrightarrow> polite m"
  by (auto simp: quiet_def polite_def unlocked_def)

lemma held_set_held: "held (set_held d h P) d' = (if d' = d \<and> p_docs P d \<noteq> None then h else held P d')"
  by (auto simp: held_def set_held_def split: option.splits)

lemma stuck_set_held [simp]: "p_stuck (set_held d h P) = p_stuck P"
  by (simp add: set_held_def split: option.splits)

lemma polite_with_lock [polite_intros]:
  assumes "\<And>b. quiet (body b)"
  shows "polite (with_lock d body)"
  unfolding polite_def
proof (intro allI impI)
  fix P :: "'a prog" assume P: "unlocked P"
  show "unlocked (snd (with_lock d body P))"
  proof (cases "p_docs P d")
    case None
    then show ?thesis using P by (simp add: with_lock_def)
  next
    case (Some D)
    have free: "\<not> doc_held D" using P Some by (auto simp: unlocked_def held_def split: option.splits)
    let ?P = "set_held d True P"
    have "p_stuck (snd (body (doc_b D) ?P)) = p_stuck ?P"
      and h: "held (snd (body (doc_b D) ?P)) d' \<Longrightarrow> held ?P d'" for d'
      using assms [of "doc_b D"] by (auto simp: quiet_def)
    then have stuck: "\<not> p_stuck (snd (body (doc_b D) ?P))" using P by (simp add: unlocked_def)
    have "\<not> held (set_held d False (snd (body (doc_b D) ?P))) d'" for d'
    proof (cases "d' = d")
      case True
      then show ?thesis using h [of d] by (auto simp: held_set_held) (auto simp: held_def)
    next
      case False
      then have "\<not> held ?P d'" using P by (simp add: held_set_held unlocked_def)
      then show ?thesis using h [of d'] False by (auto simp: held_set_held)
    qed
    then show ?thesis
      using Some free stuck by (simp add: with_lock_def deferred_def split_beta unlocked_def)
  qed
qed

lemma polite_andThen [polite_intros]: "polite m \<Longrightarrow> (\<And>x. polite (f x)) \<Longrightarrow> polite (andThen m f)"
  unfolding polite_def andThen_def by (auto split: prod.splits outcome.splits dest: spec)

lemma polite_if [polite_intros]: "polite x \<Longrightarrow> polite y \<Longrightarrow> polite (if c then x else y)"
  by simp

lemma polite_case_prod [polite_intros]: "(\<And>x y. polite (f x y)) \<Longrightarrow> polite (case_prod f p)"
  by (cases p) simp

lemma polite_lock_of [polite_intros]: "(\<And>b. quiet (body b)) \<Longrightarrow> polite (lock_of d body)"
  by (auto simp: lock_of_def intro: polite_intros polite_quiet quiet_intros split: option.splits)

lemma polite_the_doc [polite_intros]: "(\<And>d. polite (body d)) \<Longrightarrow> polite (the_doc d body)"
  by (auto simp: the_doc_def intro: polite_quiet quiet_intros split: option.splits)

lemmas polite_simple [polite_intros] = quiet_basic [THEN polite_quiet] quiet_store [THEN polite_quiet]
  quiet_alloc [THEN polite_quiet] quiet_new [THEN polite_quiet] quiet_slot_target [THEN polite_quiet]

section \<open>Every method\<close>

lemma polite_doc_methods [polite_intros]:
  "polite (Doc_New R)" "polite (Doc_Load R raw)" "polite (Doc_Close R d)" "polite (Doc_Save R d)"
  "polite (Doc_Commit R now d msg opts)" "polite (Doc_Heads R d)" "polite (Doc_Change R d ch)"
  "polite (Doc_Changes R d since)" "polite (Doc_Apply R d chs)" "polite (Doc_SaveIncremental R d)"
  "polite (Doc_LoadIncremental R d raw)" "polite (Doc_Fork R d asOf)" "polite (Doc_Merge R d d2)"
  "polite (Doc_ActorID R d)" "polite (Doc_SetActorID R d ident)"
  unfolding Doc_New_def Doc_Load_def Doc_Close_def Doc_Save_def Doc_Commit_def Doc_Heads_def Doc_Change_def
    Doc_Changes_def Doc_Apply_def Doc_SaveIncremental_def Doc_LoadIncremental_def Doc_Fork_def Doc_Merge_def
    Doc_ActorID_def Doc_SetActorID_def
  by (auto intro!: polite_intros quiet_intros split: outcome.splits intro: polite_quiet)

lemma polite_sync_methods [polite_intros]:
  "polite (NewSyncState R d)" "polite (LoadSyncState R d raw)" "polite (SyncState_ReceiveMessage R ss msg)"
  "polite (SyncState_GenerateMessage R ss)" "polite (SyncState_Save R ss)"
  unfolding NewSyncState_def LoadSyncState_def SyncState_ReceiveMessage_def SyncState_GenerateMessage_def
    SyncState_Save_def
  by (auto intro!: polite_intros quiet_intros)

lemma polite_at_methods [polite_intros]:
  "polite (Map_Get_at R m key)" "polite (Map_Len_at R m)" "polite (Map_Delete_at R m key)"
  "polite (Map_inc R m key delta)" "polite (Map_Values_at R m)"
  "polite (List_Len_at R l)" "polite (List_Delete_at R l i)" "polite (List_inc R l i delta)" "polite (List_Values_at R l)"
  "polite (Text_Len_at R t)" "polite (Text_Get_at R t)" "polite (Text_splice_at R t pos del s)"
  unfolding Map_Get_at_def Map_Len_at_def Map_Delete_at_def Map_inc_def Map_Values_at_def List_Len_at_def
    List_Delete_at_def List_inc_def List_Values_at_def Text_Len_at_def Text_Get_at_def Text_splice_at_def
  by (auto intro!: polite_intros quiet_intros)

lemma polite_List_Get_at [polite_intros]: "polite (List_Get_at R l i)"
  unfolding List_Get_at_def by (auto intro!: polite_intros quiet_intros)

lemma polite_Text_Set_at [polite_intros]: "polite (Text_Set_at R t s)"
  unfolding Text_Set_at_def by (intro polite_intros)

lemma polite_put_at [polite_intros]: "(\<And>b d h. quiet (body b d h)) \<Longrightarrow> polite (put_at R s body)"
  unfolding put_at_def by (auto intro!: polite_intros quiet_intros)

lemma polite_attach [polite_intros]:
  "polite (put_prim R s p)" "polite (attach_map R s r)" "polite (attach_list R s r)"
  "polite (attach_counter R s r)" "polite (attach_text R s r)"
  unfolding put_prim_def attach_map_def attach_list_def attach_counter_def attach_text_def
  by (auto intro!: polite_intros quiet_intros)

lemma polite_set_slot [polite_intros]:
  "polite (set_slot R s v)" "polite (append_all R l vs)" "polite (set_all R m kvs)"
  by (induction R s v and R l vs and R m kvs rule: set_slot_append_all_set_all.induct)
    (auto intro!: polite_intros)

lemma polite_path_walk [polite_intros]: "polite (path_walk R segs obj)"
  by (induction R segs obj rule: path_walk.induct) (auto intro!: polite_intros)

lemma polite_Path_Get [polite_intros]: "polite (Path_Get R p)"
  unfolding Path_Get_def by (intro polite_intros)

lemma polite_List_checked_at [polite_intros]:
  "polite (List_Set_at R l i v)" "polite (List_Delete_checked_at R l i)"
  unfolding List_Set_at_def List_Delete_checked_at_def by (auto intro!: polite_intros)

lemma polite_apply_set [polite_intros]: "polite (apply_set R st v)"
  by (cases st) (auto intro!: polite_intros split: option.splits)

lemma polite_ensure_of [polite_intros]:
  "polite ens \<Longrightarrow> polite (ensureMap_of R d root ens key)" "polite ens \<Longrightarrow> polite (ensureList_of R ens i)"
  unfolding ensureMap_of_def ensureList_of_def by (auto intro!: polite_intros)

lemma polite_ensure_rev [polite_intros]: "polite (ensure_rev R d segs)"
  by (induction R d segs rule: ensure_rev.induct) (auto intro!: polite_intros)

lemma polite_ensure [polite_intros]:
  "polite (ensure R p)" "polite (ensureMap R p key)" "polite (ensureList R p i)" "polite (ensureText R p)"
  "polite (ensureCounter R p)"
  unfolding ensure_def ensureMap_def ensureList_def ensureText_def ensureCounter_def
  by (auto intro!: polite_intros)

lemma polite_path_methods [polite_intros]: "polite (Path_Set R p v)" "polite (Path_Delete R p)"
  unfolding Path_Set_def Path_Delete_def by (auto intro!: polite_intros)

lemma polite_len_on_path [polite_intros]:
  assumes "\<And>r. polite (len r)"
  shows "polite (len_on_path R p k get len)"
proof -
  have "polite (andThen (lift (get v)) len)" for v by (intro polite_intros assms)
  then show ?thesis
    using polite_Path_Get [of R p]
    by (auto simp: polite_def len_on_path_def split: prod.splits outcome.splits dest: spec)
qed

lemma polite_createOnPath [polite_intros]: "polite (createOnPath R m key)"
  unfolding createOnPath_def by (auto intro!: polite_intros split: option.splits)

lemma polite_map_methods [polite_intros]:
  "polite (Map_Get R m key)" "polite (Map_Len R m)" "polite (Map_Delete R m key)" "polite (Map_Set R m key v)"
  "polite (Map_Values R m)"
  unfolding Map_Get_def Map_Len_def Map_Delete_def Map_Set_def Map_Values_def
  by (auto intro!: polite_intros split: option.splits)

lemma polite_Map_Keys [polite_intros]: "polite (Map_Keys R m)"
  unfolding Map_Keys_def by (intro polite_intros)

lemma polite_List_read [polite_intros]:
  "polite (List_Len R l)" "polite (List_Values R l)" "polite (List_Get R l i)"
  unfolding List_Len_def List_Values_def List_Get_def
  by (auto intro!: polite_intros split: option.splits)

lemma polite_List_put [polite_intros]: "polite (List_put R l i before v)"
  unfolding List_put_def by (auto intro!: polite_intros split: option.splits)

lemma polite_List_Append [polite_intros]: "polite (List_Append R l vs)" "polite (insert_all R l i vs)"
proof -
  show "polite (List_Append R l vs)" by (induction vs) (auto intro!: polite_intros)
  show "polite (insert_all R l i vs)" by (induction vs arbitrary: i) (auto intro!: polite_intros)
qed

lemma polite_checked_index [polite_intros]: "polite body \<Longrightarrow> polite (checked_index R l i bad body)"
  unfolding checked_index_def by (auto intro!: polite_intros)

lemma polite_list_methods [polite_intros]:
  "polite (List_Set R l i v)" "polite (List_Insert R l i vs)" "polite (List_Delete R l i)"
  unfolding List_Set_def List_Insert_def List_Delete_def by (intro polite_intros)+

lemma polite_text_read [polite_intros]: "polite (Text_Len R t)" "polite (Text_Get R t)"
  unfolding Text_Len_def Text_Get_def by (auto intro!: polite_intros split: option.splits)

lemma polite_resolve [polite_intros]: "polite (resolve_text R t msg)" "polite (resolve_counter R c)"
  unfolding resolve_text_def resolve_counter_def Let_def by (auto intro!: polite_intros split: option.splits)

lemma polite_Text_splice [polite_intros]: "polite (Text_splice R t pos del s)"
  unfolding Text_splice_def by (intro polite_intros)

lemma polite_on_text [polite_intros]: "(\<And>t. polite (body t)) \<Longrightarrow> polite (on_text R t e1 e2 body)"
  unfolding on_text_def by (auto intro!: polite_intros split: option.splits)

lemma polite_block_method [polite_intros]: "polite (block_method R t e fmt meth)"
  unfolding block_method_def by (auto intro!: polite_intros quiet_intros)

lemma polite_text_methods [polite_intros]:
  "polite (Text_Set R t s)" "polite (Text_Insert R t i s)" "polite (Text_Delete R t i j)" "polite (Text_Append R t s)"
  "polite (Text_Splice R t i j s)" "polite (Text_Mark R t n v i j e)" "polite (Text_Unmark R t n i j e)"
  "polite (Text_Marks R t)" "polite (Text_Spans R t)" "polite (Text_GetCursor R t i)" "polite (Text_LookupCursor R t c)" "polite (Text_SplitBlock R t i)"
  "polite (Text_JoinBlock R t i)" "polite (Text_ReplaceBlock R t i)"
  unfolding Text_Set_def Text_Insert_def Text_Delete_def Text_Append_def Text_Splice_def Text_Mark_def
    Text_Unmark_def Text_Marks_def Text_Spans_def Text_GetCursor_def Text_LookupCursor_def Text_SplitBlock_def Text_JoinBlock_def
    Text_ReplaceBlock_def
  by (auto intro!: polite_intros quiet_intros split: option.splits)

lemma polite_counter_methods [polite_intros]: "polite (Counter_Get R c)" "polite (Counter_Inc R c delta)"
  unfolding Counter_Get_def Counter_Inc_def counter_value_def
  by (auto intro!: polite_intros split: option.splits)

end
