(* ===== verification/ApiOps.thy ===== *)
theory ApiOps
  imports ApiLocks
begin

text \<open>
  Client programs: sequences of calls of the public API. A call names the objects it works on
  by reference, so a sequence of calls with arbitrary references covers every sequential
  client, including one that goes on after an error or a panic and one that uses an object
  that does not exist.
\<close>

datatype (plugins only: code) api_op =
    ANew | ALoad bytes | ADoc ref doc_op | AMerge ref ref | ASync SyncState sync_op
  | ANewSyncState ref | ALoadSyncState ref bytes
  | APath Path path_op | AMap ref map_op | AList ref list_op | AText ref text_op
  | ACounterGet ref | ACounterInc ref int64
  | ANewMap | ANewList | ANewText string | ANewCounter int64 | ARoot ref
and doc_op = DClose | DSave | DCommit go_time string "CommitOptions list" | DHeads | DChange ChangeHash
  | DChanges "ChangeHash list" | DApply "Change list" | DSaveIncremental | DLoadIncremental bytes
  | DFork "ChangeHash list" | DActorID | DSetActorID string
and sync_op = SReceive bytes | SGenerate | SSave
and path_op = PGet | PSet gval | PDelete | PMap' | PList | PText | PCounter
and map_op = MGet string | MLen | MDelete string | MSet string gval | MValues | MKeys
and list_op = LLen | LValues | LGet int | LAppend "gval list" | LSet int gval | LInsert int "gval list" | LDelete int
and text_op = TLen | TGet | TSet string | TInsert int string | TDelete int int | TAppend string
  | TSplice int int string | TMark string string int int byte | TUnmark string int int byte
  | TMarks | TSpans | TGetCursor int | TLookupCursor "string option" | TSplitBlock int | TJoinBlock int | TReplaceBlock int

definition after :: "('w prog, 'a) comp \<Rightarrow> 'w prog \<Rightarrow> 'w prog" where
  "after m P = snd (m P)"

fun run_doc :: "'w wazero_runtime \<Rightarrow> ref \<Rightarrow> doc_op \<Rightarrow> 'w prog \<Rightarrow> 'w prog" where
  "run_doc R d DClose = after (Doc_Close R d)"
| "run_doc R d DSave = after (Doc_Save R d)"
| "run_doc R d (DCommit now msg opts) = after (Doc_Commit R now d msg opts)"
| "run_doc R d DHeads = after (Doc_Heads R d)"
| "run_doc R d (DChange h) = after (Doc_Change R d h)"
| "run_doc R d (DChanges since) = after (Doc_Changes R d since)"
| "run_doc R d (DApply chs) = after (Doc_Apply R d chs)"
| "run_doc R d DSaveIncremental = after (Doc_SaveIncremental R d)"
| "run_doc R d (DLoadIncremental raw) = after (Doc_LoadIncremental R d raw)"
| "run_doc R d (DFork asOf) = after (Doc_Fork R d asOf)"
| "run_doc R d DActorID = after (Doc_ActorID R d)"
| "run_doc R d (DSetActorID ident) = after (Doc_SetActorID R d ident)"

fun run_sync :: "'w wazero_runtime \<Rightarrow> SyncState \<Rightarrow> sync_op \<Rightarrow> 'w prog \<Rightarrow> 'w prog" where
  "run_sync R ss (SReceive msg) = after (SyncState_ReceiveMessage R ss msg)"
| "run_sync R ss SGenerate = after (SyncState_GenerateMessage R ss)"
| "run_sync R ss SSave = after (SyncState_Save R ss)"

fun run_path :: "'w wazero_runtime \<Rightarrow> Path \<Rightarrow> path_op \<Rightarrow> 'w prog \<Rightarrow> 'w prog" where
  "run_path R p PGet = after (Path_Get R p)"
| "run_path R p (PSet v) = after (Path_Set R p v)"
| "run_path R p PDelete = after (Path_Delete R p)"
| "run_path R p PMap' = after (Path_Map p)"
| "run_path R p PList = after (Path_List p)"
| "run_path R p PText = after (Path_Text p)"
| "run_path R p PCounter = after (Path_Counter p)"

fun run_map :: "'w wazero_runtime \<Rightarrow> ref \<Rightarrow> map_op \<Rightarrow> 'w prog \<Rightarrow> 'w prog" where
  "run_map R m (MGet key) = after (Map_Get R m key)"
| "run_map R m MLen = after (Map_Len R m)"
| "run_map R m (MDelete key) = after (Map_Delete R m key)"
| "run_map R m (MSet key v) = after (Map_Set R m key v)"
| "run_map R m MValues = after (Map_Values R m)"
| "run_map R m MKeys = after (Map_Keys R m)"

fun run_list :: "'w wazero_runtime \<Rightarrow> ref \<Rightarrow> list_op \<Rightarrow> 'w prog \<Rightarrow> 'w prog" where
  "run_list R l LLen = after (List_Len R l)"
| "run_list R l LValues = after (List_Values R l)"
| "run_list R l (LGet i) = after (List_Get R l i)"
| "run_list R l (LAppend vs) = after (List_Append R l vs)"
| "run_list R l (LSet i v) = after (List_Set R l i v)"
| "run_list R l (LInsert i vs) = after (List_Insert R l i vs)"
| "run_list R l (LDelete i) = after (List_Delete R l i)"

fun run_text :: "'w wazero_runtime \<Rightarrow> ref \<Rightarrow> text_op \<Rightarrow> 'w prog \<Rightarrow> 'w prog" where
  "run_text R t TLen = after (Text_Len R t)"
| "run_text R t TGet = after (Text_Get R t)"
| "run_text R t (TSet s) = after (Text_Set R t s)"
| "run_text R t (TInsert i s) = after (Text_Insert R t i s)"
| "run_text R t (TDelete i n) = after (Text_Delete R t i n)"
| "run_text R t (TAppend s) = after (Text_Append R t s)"
| "run_text R t (TSplice i n s) = after (Text_Splice R t i n s)"
| "run_text R t (TMark name v i j e) = after (Text_Mark R t name v i j e)"
| "run_text R t (TUnmark name i j e) = after (Text_Unmark R t name i j e)"
| "run_text R t TMarks = after (Text_Marks R t)"
| "run_text R t TSpans = after (Text_Spans R t)"
| "run_text R t (TGetCursor i) = after (Text_GetCursor R t i)"
| "run_text R t (TLookupCursor c) = after (Text_LookupCursor R t c)"
| "run_text R t (TSplitBlock i) = after (Text_SplitBlock R t i)"
| "run_text R t (TJoinBlock i) = after (Text_JoinBlock R t i)"
| "run_text R t (TReplaceBlock i) = after (Text_ReplaceBlock R t i)"

fun run_api :: "'w wazero_runtime \<Rightarrow> api_op \<Rightarrow> 'w prog \<Rightarrow> 'w prog" where
  "run_api R ANew = after (Doc_New R)"
| "run_api R (ALoad raw) = after (Doc_Load R raw)"
| "run_api R (ADoc d x) = run_doc R d x"
| "run_api R (AMerge d d2) = after (Doc_Merge R d d2)"
| "run_api R (ASync ss x) = run_sync R ss x"
| "run_api R (ANewSyncState d) = after (NewSyncState R d)"
| "run_api R (ALoadSyncState d raw) = after (LoadSyncState R d raw)"
| "run_api R (APath p x) = run_path R p x"
| "run_api R (AMap m x) = run_map R m x"
| "run_api R (AList l x) = run_list R l x"
| "run_api R (AText t x) = run_text R t x"
| "run_api R (ACounterGet c) = after (Counter_Get R c)"
| "run_api R (ACounterInc c delta) = after (Counter_Inc R c delta)"
| "run_api R ANewMap = after NewMap"
| "run_api R ANewList = after NewList"
| "run_api R (ANewText s) = after (NewText s)"
| "run_api R (ANewCounter v) = after (NewCounter v)"
| "run_api R (ARoot d) = after (Root d)"

text \<open>The program before the first call.\<close>

definition prog_start :: "'w prog" where
  "prog_start = \<lparr>p_world = \<lparr>wasmOnce = False, wasmInitErr = None, instanceCounter = 0, instances = Map.empty\<rparr>,
     p_docs = Map.empty, p_maps = Map.empty, p_lists = Map.empty, p_texts = Map.empty,
     p_counters = Map.empty, p_next = 0, p_stuck = False\<rparr>"

definition run_client :: "'w wazero_runtime \<Rightarrow> api_op list \<Rightarrow> 'w prog" where
  "run_client R ops = fold (run_api R) ops prog_start"

section \<open>No client deadlocks\<close>

lemma politeD: "polite m \<Longrightarrow> unlocked P \<Longrightarrow> unlocked (after m P)"
  by (simp add: polite_def after_def)

lemma unlocked_doc: "unlocked P \<Longrightarrow> unlocked (run_doc R d x P)"
  by (cases x) (simp_all add: politeD polite_intros)

lemma unlocked_sync: "unlocked P \<Longrightarrow> unlocked (run_sync R ss x P)"
  by (cases x) (simp_all add: politeD polite_intros)

lemma unlocked_path: "unlocked P \<Longrightarrow> unlocked (run_path R p x P)"
  by (cases x) (simp_all add: politeD polite_intros)

lemma unlocked_map: "unlocked P \<Longrightarrow> unlocked (run_map R m x P)"
  by (cases x) (simp_all add: politeD polite_intros)

lemma unlocked_list: "unlocked P \<Longrightarrow> unlocked (run_list R l x P)"
  by (cases x) (simp_all add: politeD polite_intros)

lemma unlocked_text: "unlocked P \<Longrightarrow> unlocked (run_text R t x P)"
  by (cases x) (simp_all add: politeD polite_intros)

lemma unlocked_api: "unlocked P \<Longrightarrow> unlocked (run_api R x P)"
  by (cases x) (simp_all add: politeD polite_intros unlocked_doc unlocked_sync unlocked_path unlocked_map
      unlocked_list unlocked_text)

lemma unlocked_fold: "unlocked P \<Longrightarrow> unlocked (fold (run_api R) ops P)"
  by (induction ops arbitrary: P) (simp_all add: unlocked_api)

lemma unlocked_start: "unlocked prog_start"
  by (simp add: unlocked_def held_def prog_start_def)


end
