(* ===== verification/GuestRuntime.thy ===== *)
theory GuestRuntime
  imports Runtime Guest
begin

text \<open>
  The constructors on instances of the Rust shim. wazero refuses to instantiate a module under
  a name in use and otherwise gives a fresh instance; what it answers for WASI and for the
  compilation stays a parameter.
\<close>

definition name_taken :: go_error where
  "name_taken = WasmErr ''module has already been instantiated''"

definition guest_runtime ::
  "('d, 'o, 's) automerge \<Rightarrow> allocator \<Rightarrow> go_error option \<Rightarrow> go_error option \<Rightarrow> nat \<Rightarrow>
   ('d, 'o, 's) instance_state wazero_runtime" where
  "guest_runtime C A wasi compile sz = \<lparr>
     rt_wasi = wasi, rt_compile = compile,
     rt_instantiate = (\<lambda>n used. if used n then Inl name_taken else Inr (fresh_guest sz, False)),
     rt_module = guest_module C A, rt_open = (\<lambda>w. \<not> snd w)\<rparr>"

interpretation pool: instance_pool "guest_runtime C A wasi compile sz"
proof (unfold_locales, goal_cases)
  case (1 w)
  then show ?case by (cases w) (simp add: guest_runtime_def guest_module_def)
next
  case (2 name ps w)
  then show ?case by (cases w) (simp add: guest_runtime_def guest_module_def split: prod.splits)
next
  case (3 p d w w')
  then show ?case by (cases w) (auto simp: guest_runtime_def guest_module_def split: if_splits)
next
  case (4 n used w)
  then show ?case by (auto simp: guest_runtime_def split: if_splits)
qed


text \<open>
  C10: ParseRawChanges fails to return only where splitChangeChunks does, and whenever it returns,
  whatever the result, the open instances are the ones from before: the instance it parses with
  is closed.
\<close>

theorem ParseRawChanges_closes:
  "case ParseRawChanges (guest_runtime C A wasi compile sz) raw of
     None \<Rightarrow> splitChangeChunks raw = None
   | Some m \<Rightarrow> in_use (guest_runtime C A wasi compile sz) (snd (m W)) = in_use (guest_runtime C A wasi compile sz) W"
proof (cases "ParseRawChanges (guest_runtime C A wasi compile sz) raw")
  case None
  then show ?thesis by (simp add: ParseRawChanges_def)
next
  case (Some m)
  then show ?thesis by (simp add: pool.ParseRawChanges_keeps)
qed

end
