(* ===== verification/EndToEnd.thy ===== *)
theory EndToEnd
  imports BackendSpec ApiOps GuestRuntime
begin

text \<open>
  The layers together: what a call of the public API does to the document that the automerge
  crate holds, through the document lock, the backend instance, the bytes in guest memory and
  the Rust shim.
\<close>

section \<open>The handle table\<close>

lemma free_slot_Some: "free_slot i es = Some j \<Longrightarrow> i \<le> j \<and> j < i + length es \<and> es ! (j - i) = None"
proof (induction i es arbitrary: j rule: free_slot.induct)
  case (2 i e es)
  show ?case
  proof (cases "e = None")
    case False
    then have "Suc i \<le> j \<and> j < Suc i + length es \<and> es ! (j - Suc i) = None"
      using 2 by (simp del: not_None_eq)
    moreover then have "(e # es) ! (j - i) = es ! (j - Suc i)" by (simp add: nth_Cons')
    ultimately show ?thesis by auto
  qed (use 2 in auto)
qed simp

definition wf_table :: "'o option list \<Rightarrow> bool" where
  "wf_table t \<longleftrightarrow> t \<noteq> [] \<and> length t < 2 ^ 32"

lemma table_insert_get:
  assumes "wf_table t" and "table_insert root ob t = (h, t')"
  shows "table_get root t' h = Some ob"
    and "table_get root t h' = Some ob' \<Longrightarrow> table_get root t' h' = Some ob'"
proof -
  have t: "t \<noteq> []" "length t < 2 ^ 32" using assms(1) by (auto simp: wf_table_def)
  have len: "unat (word_of_nat n :: uint32) = n" if "n \<le> length t" for n
    using that t(2) by (intro unat_word_of_nat_less) simp
  have "table_get root t' h = Some ob \<and> (table_get root t h' = Some ob' \<longrightarrow> table_get root t' h' = Some ob')"
  proof (cases "ob = root")
    case True
    then show ?thesis using assms(2) by (auto simp: table_insert_def table_get_def)
  next
    case False
    show ?thesis
    proof (cases "free_slot 1 (tl t)")
      case None
      then have "h = word_of_nat (length t)" "t' = t @ [Some ob]" using assms(2) False by (simp_all add: table_insert_def)
      then show ?thesis using t(1) len [of "length t"] by (auto simp: table_get_def nth_append)
    next
      case (Some i)
      then have h: "h = word_of_nat i" "t' = t[i := Some ob]" using assms(2) False by (simp_all add: table_insert_def)
      have i: "1 \<le> i" "i < length t" "t ! i = None"
        using free_slot_Some [OF Some] t(1) by (auto simp: nth_tl)
      then show ?thesis using h len [of i] by (auto simp: table_get_def nth_list_update)
    qed
  qed
  then show "table_get root t' h = Some ob" "table_get root t h' = Some ob' \<Longrightarrow> table_get root t' h' = Some ob'"
    by blast+
qed

text \<open>
  C5: Registering an object in the handle table gives a handle that stands for it, reusing only
  freed slots: every handle that stood for an object keeps standing for it.
\<close>

theorem handles_stay_valid:
  assumes "wf_table t"
  shows "case table_insert root ob t of (h, t') \<Rightarrow> table_get root t' h = Some ob \<and>
     (\<forall>h'. case table_get root t h' of None \<Rightarrow> True | Some ob' \<Rightarrow> table_get root t' h' = Some ob')"
  using table_insert_get [OF assms] by (auto split: prod.splits option.splits)

theorem handles_stay_valid_witness:
  "wf_table [None, Some (7 :: nat), None] \<and> (case table_insert 0 (9 :: nat) [None, Some 7, None] of (h, t') \<Rightarrow>
     table_get 0 t' h = Some 9 \<and>
     (\<forall>h'. case table_get 0 [None, Some 7, None] h' of None \<Rightarrow> True | Some ob' \<Rightarrow> table_get 0 t' h' = Some ob'))"
proof -
  have t: "wf_table [None, Some (7 :: nat), None]" by (simp add: wf_table_def)
  show ?thesis using t handles_stay_valid [OF t, of 0 9] by simp
qed

section \<open>Reading back what was written\<close>

lemma refinesE:
  assumes "refines A N m s" and "shim_sound g"
  obtains r g' where "m (g, False) = (r, (g', False))" "shim_sound g'" "g_blocks g' = g_blocks g"
    "as_spec A N 0 (s (core g)) g r (core g')"
  using assms by (auto simp: refines_def runs_def extends_def)

lemma go_view_prim: "go_view (RScalar (rust_scalar v)) h = \<lparr>bv_Kind = kind_of_prim v, bv_Val = stored_prim v, bv_Obj = 0\<rparr>"
  by (cases v) (simp_all add: bval_def)

text \<open>The shim's answer for a scalar that the crate holds.\<close>

lemma fetched_scalar:
  "fetched (prepare_value C (Some (RScalar x, ch))) none DecodeValue c =
    (if length (encode_scalar x) < 2 ^ 31
     then (Ok (go_view (RScalar x) 0), c\<lparr>g_return_buf := encode_scalar x\<rparr>) else (Error trap_error, c))"
proof -
  have "unat (word_of_nat (length (encode_scalar x)) :: uint32) = length (encode_scalar x)" if "length (encode_scalar x) < 2 ^ 31"
    using that by (intro unat_word_of_nat_less) simp
  moreover have "0 < length (encode_scalar x)" by (cases x) simp_all
  ultimately have "word_of_nat (length (encode_scalar x)) \<noteq> (0 :: uint32)" if "length (encode_scalar x) < 2 ^ 31"
    using that by (metis less_not_refl unat_0)
  then show ?thesis
    using decode_encode_value [of "RScalar x" 0]
    by (simp add: fetched_def prepare_value_def prepare_def set_return_buf_def return_buf_len_def)
qed

text \<open>
  What is assumed of the crate: a value that \<open>put\<close> has stored under a key of a map is what \<open>get\<close>
  finds there.
\<close>

definition crate_put_get :: "('d, 'o, 's) automerge \<Rightarrow> bool" where
  "crate_put_get C \<longleftrightarrow> (\<forall>ob key x d d'. c_put C ob (PMap key) x d = (Inr (), d') \<longrightarrow>
     (\<exists>ch. c_get C ob (PMap key) d' = Some (RScalar x, ch)))"

lemma spec_MapPut_Ok:
  assumes "spec_MapPut C h key (fst (encode_prim v)) (snd (encode_prim v)) c = (Ok x, c')"
  obtains ob d d' where "key \<noteq> []" "utf8_valid (str_bytes key)" "table_get (c_root C) (g_table c) h = Some ob"
    "c_put C ob (PMap key) (rust_scalar v) d = (Inr (), d')" "g_doc c = Some d" "c' = c\<lparr>g_doc := Some d'\<rparr>"
proof -
  have neg: "sint (- 1 :: uint32) < 0" "sint (- 2 :: uint32) < 0" "sint (- 3 :: uint32) < 0" "sint (- 4 :: uint32) < 0"
    "sint (- 5 :: uint32) < 0" by simp_all
  show ?thesis
    using assms that
    by (auto simp: spec_MapPut_def answered_def put_key_def put_value_def parse_encode_prim put_outcome_def neg reply_def
        resolve_obj_def mutate_def with_doc_mut_def split: if_splits option.splits prod.splits sum.splits)
qed

text \<open>Room for the value on its way back: in the memory of the guest, and in a \<open>Vec\<close> of the shim.\<close>

definition room_to_get :: "allocator \<Rightarrow> uint32 \<Rightarrow> ('d, 'o, 's) guest \<Rightarrow> prim \<Rightarrow> bool" where
  "room_to_get A N g v \<longleftrightarrow> roomy A N \<and> unat N < 2 ^ 31 \<and> g_blocks g = [] \<and> length (g_last_error g) \<le> unat N \<and>
     length (encode_scalar (rust_scalar v)) \<le> unat N"

lemma put_then_get:
  assumes law: "crate_put_get C" and sound: "shim_sound g"
    and len: "length key \<le> unat N" "length (snd (encode_prim v)) \<le> unat N"
    and put: "MapPut (guest_module C A) h key (fst (encode_prim v)) (snd (encode_prim v)) (g, False) = (Ok x, w)"
  obtains g' r g'' where "w = (g', False)" "MapGet (guest_module C A) h key (g', False) = (r, (g'', False))"
    "r = Ok \<lparr>bv_Kind = kind_of_prim v, bv_Val = stored_prim v, bv_Obj = 0\<rparr> \<or>
     \<not> room_to_get A N g v \<and> ((\<exists>n. r = Error (alloc_null n)) \<or> r = Error trap_error)"
proof -
  let ?s = "spec_MapPut C h key (fst (encode_prim v)) (snd (encode_prim v)) (core g)"
  obtain g' where g': "w = (g', False)" "shim_sound g'" "g_blocks g' = g_blocks g" "as_spec A N 0 ?s g (Ok x) (core g')"
    by (rule refinesE [OF refines_MapPut [OF len, where C = C and A = A and h = h and tag = "fst (encode_prim v)"] sound]) (use put in auto)
  then have "?s = (Ok x, snd ?s)" "core g' = core (snd ?s)" by (auto simp: as_spec_def no_room_def prod_eq_iff)
  then obtain ob d d' where key: "key \<noteq> []" "utf8_valid (str_bytes key)" and c: "table_get (c_root C) (g_table (core g)) h = Some ob"
    "c_put C ob (PMap key) (rust_scalar v) d = (Inr (), d')" "snd ?s = (core g)\<lparr>g_doc := Some d'\<rparr>"
    by (metis spec_MapPut_Ok)
  have c': "core g' = (core g)\<lparr>g_doc := Some d'\<rparr>"
    using \<open>core g' = core (snd ?s)\<close> c(3) by (simp add: core_def)
  obtain ch where "c_get C ob (PMap key) d' = Some (RScalar (rust_scalar v), ch)"
    using law c(2) unfolding crate_put_get_def by blast
  then have "spec_MapGet C h key (core g') = fetched (prepare_value C (Some (RScalar (rust_scalar v), ch))) (Ok void_value) DecodeValue (core g')"
    using key c(1) by (simp add: spec_MapGet_def fetched_def at_key_def resolve_obj_def with_doc_def c')
  then have s: "spec_MapGet C h key (core g') = (if length (encode_scalar (rust_scalar v)) < 2 ^ 31
      then (Ok \<lparr>bv_Kind = kind_of_prim v, bv_Val = stored_prim v, bv_Obj = 0\<rparr>, (core g')\<lparr>g_return_buf := encode_scalar (rust_scalar v)\<rparr>)
      else (Error trap_error, core g'))"
    by (simp add: fetched_scalar go_view_prim)
  have "g_last_error g' = g_last_error g" using arg_cong [OF c', of g_last_error] by simp
  then have room: "length (encode_scalar (rust_scalar v)) < 2 ^ 31 \<and> room_for A N 0 (g_blocks g') (snd (spec_MapGet C h key (core g')))"
    if "room_to_get A N g v"
    using that g'(3) by (auto simp: s room_to_get_def room_for_def tight_def small_def)
  obtain r g'' where get: "MapGet (guest_module C A) h key (g', False) = (r, (g'', False))"
    and r: "as_spec A N 0 (spec_MapGet C h key (core g')) g' r (core g'')"
    by (rule refinesE [OF refines_MapGet [OF len(1)] g'(2)])
  have "r = Ok \<lparr>bv_Kind = kind_of_prim v, bv_Val = stored_prim v, bv_Obj = 0\<rparr> \<or>
     \<not> room_to_get A N g v \<and> ((\<exists>n. r = Error (alloc_null n)) \<or> r = Error trap_error)"
    using r room s by (auto simp: as_spec_def no_room_def guest_message_def trap_error_def split: if_splits)
  then show ?thesis using that g'(1) get by metis
qed

section \<open>Calls under the document lock\<close>

definition put_inst :: "Backend \<Rightarrow> 'w \<Rightarrow> 'w prog \<Rightarrow> 'w prog" where
  "put_inst b w P = P\<lparr>p_world := (p_world P)\<lparr>instances := (instances (p_world P))(b \<mapsto> w)\<rparr>\<rparr>"

definition inst :: "'w prog \<Rightarrow> Backend \<Rightarrow> 'w option" where
  "inst P b = instances (p_world P) b"

lemma inst_put [simp]: "inst (put_inst b w P) b = Some w"
  by (simp add: inst_def put_inst_def)

lemma put_inst_fields [simp]:
  "p_docs (put_inst b w P) = p_docs P" "p_maps (put_inst b w P) = p_maps P" "p_next (put_inst b w P) = p_next P"
  "p_lists (put_inst b w P) = p_lists P" "p_stuck (put_inst b w P) = p_stuck P" "p_texts (put_inst b w P) = p_texts P"
  "p_counters (put_inst b w P) = p_counters P"
  by (simp_all add: put_inst_def)

lemma on_b_inst: "inst P b = Some w \<Longrightarrow> on_b b m P = (fst (m w), put_inst b (snd (m w)) P)"
  by (simp add: on_b_def on_world_def on_inst_def inst_def put_inst_def split_beta)

text \<open>A method that makes one backend call while it holds the lock.\<close>

lemma locked_call:
  assumes "p_docs P d = Some D" and "\<not> doc_held D" and "inst P (doc_b D) = Some w"
  shows "with_lock d (\<lambda>b. on_b b m) P = (fst (m w), put_inst (doc_b D) (snd (m w)) P)"
proof -
  have "inst (set_held d True P) (doc_b D) = Some w"
    using assms(1,3) by (simp add: inst_def set_held_def)
  moreover have "set_held d False (put_inst b x (set_held d True P)) = put_inst b x P" for b x
    using assms(1,2) by (auto simp: set_held_def put_inst_def fun_upd_idem_iff)
  ultimately show ?thesis using assms(1,2) by (simp add: with_lock_def deferred_def on_b_inst split_beta)
qed

text \<open>The rest of a method that allocates Go objects after its call, still under the lock.\<close>

lemma locked_call_then:
  assumes "p_docs P d = Some D" and "\<not> doc_held D" and "inst P (doc_b D) = Some w"
  shows "with_lock d (\<lambda>b. andThen (on_b b m) k) P = (case m w of
      (Ok x, w') \<Rightarrow> apsnd (set_held d False) (k x (set_held d True (put_inst (doc_b D) w' P)))
    | (Error e, w') \<Rightarrow> (Error e, put_inst (doc_b D) w' P)
    | (Panic e, w') \<Rightarrow> (Panic e, put_inst (doc_b D) w' P))"
proof -
  have "inst (set_held d True P) (doc_b D) = Some w"
    using assms(1,3) by (simp add: inst_def set_held_def)
  moreover have "put_inst b x (set_held d True P) = set_held d True (put_inst b x P)" for b x
    using assms(1) by (simp add: set_held_def put_inst_def)
  moreover have "set_held d False (set_held d True (put_inst b x P)) = put_inst b x P" for b x
    using assms(1,2) by (auto simp: set_held_def put_inst_def fun_upd_idem_iff)
  ultimately show ?thesis
    using assms(1,2)
    by (cases "m w"; cases "fst (m w)") (auto simp: with_lock_def deferred_def on_b_inst andThen_def apsnd_def map_prod_def)
qed

text \<open>A map of a free document whose backend instance is open.\<close>

definition ready :: "('d, 'o, 's) instance_state prog \<Rightarrow> ref \<Rightarrow> ref \<Rightarrow> ObjHandle \<Rightarrow> Doc \<Rightarrow> ('d, 'o, 's) guest \<Rightarrow> bool" where
  "ready P m d h D g \<longleftrightarrow> p_maps P m = Some (map_at d h) \<and> p_docs P d = Some D \<and> \<not> doc_held D \<and>
     inst P (doc_b D) = Some (g, False) \<and> shim_sound g"

lemma Map_Set_prim:
  assumes "ready P m d h D g"
  shows "Map_Set R m key (GPrim v) P =
    (map_outcome_of (\<lambda>_. ()) (fst (MapPut (rt_module R) h key (fst (encode_prim v)) (snd (encode_prim v)) (g, False))),
     put_inst (doc_b D) (snd (MapPut (rt_module R) h key (fst (encode_prim v)) (snd (encode_prim v)) (g, False))) P)"
proof -
  let ?m = "MapPut (rt_module R) h key (fst (encode_prim v)) (snd (encode_prim v))"
  have "Map_Set R m key (GPrim v) P = with_lock d (\<lambda>b. andThen (on_b b ?m) (\<lambda>_. ret ())) P"
    using assms
    by (simp add: ready_def Map_Set_def createOnPath_def read_map_def map_at_def andThen_def put_prim_def put_at_def
        the_doc_def ret_def split_beta)
  also have "\<dots> = (map_outcome_of (\<lambda>_. ()) (fst (?m (g, False))), put_inst (doc_b D) (snd (?m (g, False))) P)"
  proof -
    have "set_held d False (set_held d True (put_inst b x P)) = put_inst b x P" for b x
      using assms by (auto simp: ready_def set_held_def put_inst_def fun_upd_idem_iff)
    then show ?thesis
      using assms by (cases "?m (g, False)"; cases "fst (?m (g, False))") (auto simp: ready_def locked_call_then ret_def)
  qed
  finally show ?thesis .
qed

lemma newValueInMap_prim:
  assumes "bv_Kind bv = kind_of_prim v" and "bv_Val bv = stored_prim v"
  shows "newValueInMap bv d m key P =
    (Ok \<lparr>value_doc = Some d, value_kind = kind_of_prim v, value_val = VP (stored_prim v)\<rparr>, P)"
  using assms by (cases v) (simp_all add: newValueInMap_def newValueFromBackend_def Let_def ret_def andThen_def)

lemma Map_Get_prim:
  assumes "ready P m d h D g" and "MapGet (rt_module R) h key (g, False) = (r, w)"
    and "r = Ok \<lparr>bv_Kind = kind_of_prim v, bv_Val = stored_prim v, bv_Obj = 0\<rparr> \<or> r = Error e"
  shows "fst (Map_Get R m key P) = (if is_ok r
     then Ok \<lparr>value_doc = Some d, value_kind = kind_of_prim v, value_val = VP (stored_prim v)\<rparr> else Error e)"
proof -
  have "Map_Get R m key P = with_lock d (\<lambda>b. andThen (on_b b (MapGet (rt_module R) h key)) (\<lambda>bv. newValueInMap bv d m key)) P"
    using assms(1)
    by (simp add: ready_def Map_Get_def Map_Get_at_def read_map_def map_at_def andThen_def the_doc_def)
  then show ?thesis
    using assms by (auto simp: ready_def locked_call_then newValueInMap_prim)
qed

text \<open>
  C1: End to end, from the public API through the locks, the backend, guest memory and the Rust
  shim, on any version of the crate whose maps return what was put: after Map.Set of a primitive
  succeeds, Map.Get of the same key returns a value of the same kind and contents (a time to the
  millisecond), unless the guest has no room for the answer, which is then the error; a failed
  Set changes nothing but the instance it ran on; and neither panics.
\<close>

theorem Map_Set_then_Get:
  assumes "crate_put_get C" and "ready P m d h D g" and "length key \<le> unat N" and "length (snd (encode_prim v)) \<le> unat N"
  shows "case Map_Set (guest_runtime C A wasi compile sz) m key (GPrim v) P of
      (Ok _, P') \<Rightarrow> fst (Map_Get (guest_runtime C A wasi compile sz) m key P') =
          Ok \<lparr>value_doc = Some d, value_kind = kind_of_prim v, value_val = VP (stored_prim v)\<rparr> \<or>
        \<not> room_to_get A N g v \<and> fst (Map_Get (guest_runtime C A wasi compile sz) m key P') \<in>
          {Error trap_error} \<union> range (\<lambda>n. Error (alloc_null n))
    | (Error e, P') \<Rightarrow> P' = put_inst (doc_b D) (the (inst P' (doc_b D))) P
    | (Panic e, P') \<Rightarrow> False"
proof -
  let ?R = "guest_runtime C A wasi compile sz" and ?M = "guest_module C A"
  let ?put = "MapPut ?M h key (fst (encode_prim v)) (snd (encode_prim v)) (g, False)"
  have M: "rt_module ?R = ?M" by (simp add: guest_runtime_def)
  have sound: "shim_sound g" using assms(2) by (simp add: ready_def)
  obtain r g1 where put: "?put = (r, (g1, False))" "shim_sound g1"
    and spec: "as_spec A N 0 (spec_MapPut C h key (fst (encode_prim v)) (snd (encode_prim v)) (core g)) g r (core g1)"
    by (rule refinesE [OF refines_MapPut [OF assms(3,4)] sound])
  note set = Map_Set_prim [OF assms(2), of ?R key v, unfolded M put]
  show ?thesis
  proof (cases r)
    case (Ok x)
    obtain r' g2 where get: "MapGet ?M h key (g1, False) = (r', (g2, False))"
      and r': "r' = Ok \<lparr>bv_Kind = kind_of_prim v, bv_Val = stored_prim v, bv_Obj = 0\<rparr> \<or>
        \<not> room_to_get A N g v \<and> ((\<exists>n. r' = Error (alloc_null n)) \<or> r' = Error trap_error)"
      by (rule put_then_get [OF assms(1) sound assms(3,4), of A h x "(g1, False)"]) (use put(1) Ok in auto)
    have "ready (put_inst (doc_b D) (g1, False) P) m d h D g1" using assms(2) put(2) by (simp add: ready_def)
    from Map_Get_prim [OF this, of ?R key r' "(g2, False)" v, unfolded M, OF get] r' show ?thesis
      using set Ok by auto
  next
    case (Error e)
    then show ?thesis using set by simp
  next
    case (Panic e)
    then have "fst (spec_MapPut C h key (fst (encode_prim v)) (snd (encode_prim v)) (core g)) = Panic e"
      using spec by (auto simp: as_spec_def no_room_def)
    then show ?thesis
      by (auto simp: spec_MapPut_def answered_def put_outcome_def split: prod.splits option.splits if_splits)
  qed
qed

text \<open>A program with one document on the small crate, and its root map.\<close>

definition kv_Doc :: Doc where
  "kv_Doc = \<lparr>doc_b = 1, doc_held = False, doc_closed = False\<rparr>"

definition kv_prog :: "(kv_doc, unit, unit) instance_state prog" where
  "kv_prog = prog_start\<lparr>p_world := \<lparr>wasmOnce = True, wasmInitErr = None, instanceCounter = 1, instances = [1 \<mapsto> kv_start]\<rparr>,
     p_docs := [0 \<mapsto> kv_Doc], p_maps := [1 \<mapsto> map_at 0 0], p_next := 2\<rparr>"

lemma crate_put_get_kv: "crate_put_get kv_crate"
  by (simp add: crate_put_get_def kv_crate_def)

lemma ready_kv:
  "ready kv_prog 1 0 0 kv_Doc ((fresh_guest 65536)\<lparr>g_doc := Some []\<rparr>)"
  by (simp add: ready_def kv_Doc_def kv_prog_def kv_start_def inst_def shim_sound_def fresh_guest_def)

lemma kv_put_Ok:
  obtains w where "MapPut (guest_module kv_crate slots) 0 ''k'' TagBool [1] kv_start = (Ok 0, w)"
proof -
  let ?g = "(fresh_guest 65536)\<lparr>g_doc := Some []\<rparr> :: (kv_doc, unit, unit) guest"
  have s: "spec_MapPut kv_crate 0 ''k'' TagBool [1] (core ?g) = (Ok 0, (core ?g)\<lparr>g_doc := Some [(''k'', SBoolean True)]\<rparr>)"
  proof -
    have "utf8_valid (str_bytes ''k'')" "parse_tagged_value TagBool [1] = Some (RScalar (SBoolean True))" by code_simp+
    then show ?thesis
      by (simp add: spec_MapPut_def answered_def put_key_def put_value_def resolve_obj_def table_get_def mutate_def with_doc_mut_def
          reply_def put_outcome_def is_object_tag_def core_def fresh_guest_def kv_crate_def TagBool_def TagMap_def TagList_def TagText_def)
  qed
  have room: "room_for slots 1000 0 (g_blocks ?g) ((core ?g)\<lparr>g_doc := Some [(''k'', SBoolean True)]\<rparr>)"
    by (simp add: room_for_def roomy_slots tight_def small_def core_def fresh_guest_def)
  obtain r g' where "MapPut (guest_module kv_crate slots) 0 ''k'' TagBool [1] (?g, False) = (r, (g', False))"
    "as_spec slots 1000 0 (spec_MapPut kv_crate 0 ''k'' TagBool [1] (core ?g)) ?g r (core g')"
    by (rule refinesE [OF refines_MapPut [where N = 1000 and A = slots and C = kv_crate and key = "''k''" and payload = "[1]" and h = 0
        and tag = TagBool], where g = ?g]) (auto simp: shim_sound_def fresh_guest_def)
  then show ?thesis using that room by (simp add: kv_start_def as_spec_def s)
qed

theorem Map_Set_then_Get_witness:
  "crate_put_get kv_crate \<and>
   ready kv_prog 1 0 0 kv_Doc ((fresh_guest 65536)\<lparr>g_doc := Some []\<rparr>) \<and>
   room_to_get slots 1000 ((fresh_guest 65536)\<lparr>g_doc := Some []\<rparr> :: (kv_doc, unit, unit) guest) (VBool True) \<and>
   (case Map_Set (guest_runtime kv_crate slots None None 65536) 1 ''k'' (GPrim (VBool True)) kv_prog of
      (Ok _, P') \<Rightarrow> fst (Map_Get (guest_runtime kv_crate slots None None 65536) 1 ''k'' P') =
          Ok \<lparr>value_doc = Some 0, value_kind = KindBool, value_val = VP (VBool True)\<rparr>
    | _ \<Rightarrow> False)"
proof -
  let ?g = "(fresh_guest 65536)\<lparr>g_doc := Some []\<rparr> :: (kv_doc, unit, unit) guest"
  have len: "length ''k'' \<le> unat (1000 :: uint32)" "length (snd (encode_prim (VBool True))) \<le> unat (1000 :: uint32)"
    by (simp_all add: EncodeBool_def)
  have room: "room_to_get slots 1000 ?g (VBool True)"
    by (simp add: room_to_get_def roomy_slots fresh_guest_def)
  obtain w where "MapPut (guest_module kv_crate slots) 0 ''k'' TagBool [1] kv_start = (Ok 0, w)" by (rule kv_put_Ok)
  then have "Map_Set (guest_runtime kv_crate slots None None 65536) 1 ''k'' (GPrim (VBool True)) kv_prog =
      (Ok (), put_inst (doc_b kv_Doc) w kv_prog)"
    using Map_Set_prim [OF ready_kv, of "guest_runtime kv_crate slots None None 65536" "''k''" "VBool True"]
    by (simp add: guest_runtime_def kv_start_def EncodeBool_def)
  then show ?thesis
    using crate_put_get_kv ready_kv room Map_Set_then_Get [OF crate_put_get_kv ready_kv len, of slots None None 65536] by simp
qed

end
