(* ===== verification/Normalize.thy ===== *)
theory Normalize
  imports Api Float64
begin

text \<open>
  Conversions between Go values and document values: \<open>normalize\<close>, \<open>parseTags\<close>, \<open>unmarshalNumber\<close>,
  \<open>unmarshal\<close> and \<open>As\<close> of \<open>normalize.go\<close>, and \<open>Value.Interface\<close> of \<open>value.go\<close>.

  The source inspects its argument by reflection. \<open>goval\<close> is a Go value as reflection sees it, and
  \<open>gotype\<close> is a type. An interface is the value in it, \<open>RNil\<close> being the nil interface; a slice and an array
  are their elements; a map is the list of its entries in the order of the iteration. Pointers
  to the four automerge types are references into the object store; the nil pointer to such a type
  is passed on by \<open>normalize\<close> and panics at its first use, here at once. Values that contain
  themselves through pointers and types that contain themselves are not modelled.

  Conversions of a double to an integer outside of the range of the integer type are left open
  by the language; the conversion is a parameter. So is the rounding of a double to a \<open>float32\<close>.
\<close>

section \<open>Go values and types\<close>

datatype ikind = KInt | KInt8 | KInt16 | KInt32 | KInt64

fun ibits :: "ikind \<Rightarrow> nat" where
  "ibits KInt = 64"
| "ibits KInt8 = 8"
| "ibits KInt16 = 16"
| "ibits KInt32 = 32"
| "ibits KInt64 = 64"

record StructField =
  sf_Name :: string
  sf_Tag :: string
  sf_Exported :: bool

datatype goval =
    RNil
  | RBool bool
  | RInt ikind int64
  | RUint ikind uint64
  | RFloat32 uint64
  | RFloat64 uint64
  | RString string
  | RPtr "goval option"
  | RMapPtr ref
  | RTextPtr ref
  | RListPtr ref
  | RCounterPtr ref
  | RNilObj
  | RByteSeq bytes
  | RSeq "goval list"
  | RMapOther
  | RMap "(string \<times> goval) list"
  | RTime go_time
  | RStruct "(StructField \<times> goval) list"
  | ROther string

datatype gotype =
    TBool
  | TInt ikind
  | TUint ikind
  | TFloat32
  | TFloat64
  | TString
  | TInterface
  | TMapPtr
  | TListPtr
  | TCounterPtr
  | TTextPtr
  | TPtr gotype
  | TBytes
  | TSlice gotype
  | TArray nat gotype
  | TMapOther
  | TMap gotype
  | TTime
  | TStruct "(StructField \<times> gotype) list"
  | TOther string

section \<open>Normalization\<close>

text \<open>\<open>strings.Cut(tag, ",")\<close>: what is before the first comma.\<close>

definition before_comma :: "string \<Rightarrow> string" where
  "before_comma tag = takeWhile (\<lambda>c. c \<noteq> CHR '','') tag"

definition parseTags :: "StructField \<Rightarrow> string option" where
  "parseTags ft = (if sf_Tag ft = ''-'' \<or> \<not> sf_Exported ft then None
     else let name = before_comma (sf_Tag ft) in Some (if name = [] then sf_Name ft else name))"

text \<open>\<open>ret[k] = v\<close>\<close>

fun put_key_val :: "string \<Rightarrow> gval \<Rightarrow> (string \<times> gval) list \<Rightarrow> (string \<times> gval) list" where
  "put_key_val k v [] = [(k, v)]"
| "put_key_val k v ((k', v') # kvs) = (if k' = k then (k, v) # kvs else (k', v') # put_key_val k v kvs)"

definition zero_reflect_value :: go_error where
  "zero_reflect_value = Errorf ''reflect: call of reflect.Value.Interface on zero Value'' []"

fun normalize :: "goval \<Rightarrow> gval outcome"
and normalize_items :: "goval list \<Rightarrow> gval list outcome"
and normalize_entries :: "(string \<times> goval) list \<Rightarrow> (string \<times> gval) list \<Rightarrow> (string \<times> gval) list outcome"
and normalize_fields :: "(StructField \<times> goval) list \<Rightarrow> (string \<times> gval) list \<Rightarrow> (string \<times> gval) list outcome" where
  "normalize RNil = Ok (GPrim VNil)"
| "normalize (RBool b) = Ok (GPrim (VBool b))"
| "normalize (RInt k i) = Ok (GPrim (if k = KInt64 then VInt64 i else VFloat64 (f64_of_int (sint i))))"
| "normalize (RUint k u) = Ok (GPrim (if k = KInt64 then VUint64 u else VFloat64 (f64_of_int (uint u))))"
| "normalize (RFloat32 f) = Ok (GPrim (VFloat64 f))"
| "normalize (RFloat64 f) = Ok (GPrim (VFloat64 f))"
| "normalize (RString s) = Ok (GPrim (VStr s))"
| "normalize (RMapPtr r) = Ok (GMapRef r)"
| "normalize (RTextPtr r) = Ok (GTextRef r)"
| "normalize (RListPtr r) = Ok (GListRef r)"
| "normalize (RCounterPtr r) = Ok (GCounterRef r)"
| "normalize RNilObj = Panic nil_deref"
| "normalize (RPtr None) = Panic zero_reflect_value"
| "normalize (RPtr (Some v)) = normalize v"
| "normalize (RByteSeq b) = Ok (GPrim (VBytes b))"
| "normalize (RSeq vs) = map_outcome_of GSlice (normalize_items vs)"
| "normalize RMapOther = Error (Errorf ''automerge: unsupported map, must have string keys'' [])"
| "normalize (RMap kvs) = map_outcome_of GMap (normalize_entries kvs [])"
| "normalize (RTime t) = Ok (GPrim (VTime t))"
| "normalize (RStruct fs) = map_outcome_of GMap (normalize_fields fs [])"
| "normalize (ROther kind) = Error (Errorf ''automerge: unsupported type %v'' [AStr kind])"
| "normalize_items [] = Ok []"
| "normalize_items (v # vs) = and_then (normalize v) (\<lambda>x. and_then (normalize_items vs) (\<lambda>xs. Ok (x # xs)))"
| "normalize_entries [] acc = Ok acc"
| "normalize_entries ((k, v) # kvs) acc = and_then (normalize v) (\<lambda>x. normalize_entries kvs (put_key_val k x acc))"
| "normalize_fields [] acc = Ok acc"
| "normalize_fields ((ft, v) # fs) acc = (case parseTags ft of
     None \<Rightarrow> normalize_fields fs acc
   | Some name \<Rightarrow> and_then (normalize v) (\<lambda>x. normalize_fields fs (put_key_val name x acc)))"

text \<open>The public writers, with a value that is not normalized yet.\<close>

definition Map_Set_any :: "'w wazero_runtime \<Rightarrow> ref \<Rightarrow> string \<Rightarrow> goval \<Rightarrow> ('w prog, unit) comp" where
  "Map_Set_any R m key v = andThen (read_map m) (\<lambda>o'.
     if map_doc o' = None then fail (detached ''automerge.Map: tried to write to detached map'')
     else andThen (createOnPath R m key) (\<lambda>_. andThen (lift (normalize v)) (set_slot R (InMap m key))))"

definition List_put_any :: "'w wazero_runtime \<Rightarrow> ref \<Rightarrow> uint64 \<Rightarrow> bool \<Rightarrow> goval \<Rightarrow> ('w prog, unit) comp" where
  "List_put_any R l i before v = andThen (read_list l) (\<lambda>o'.
     if list_doc o' = None then fail (detached ''automerge.List: tried to write to detached list'')
     else andThen (case list_path o' of
         None \<Rightarrow> ret ()
       | Some p \<Rightarrow> andThen (ensureList R p (sint i)) (\<lambda>l2. andThen (read_list l2) (\<lambda>o2.
           write_list l (o'\<lparr>list_doc := list_doc o2, list_handle := list_handle o2, list_path := None\<rparr>))))
       (\<lambda>_. andThen (lift (normalize v)) (set_slot R (InList l i before))))"

section \<open>Numbers\<close>

text \<open>
  The type parameter of \<open>unmarshalNumber\<close> is \<open>int64\<close>, \<open>uint64\<close> or \<open>float64\<close>, all of them 64 bits;
  the record has the conversions of the type and its comparison with zero.
\<close>

record numops =
  n_of_float :: "uint64 \<Rightarrow> uint64"
  n_float :: "uint64 \<Rightarrow> uint64"
  n_of_int :: "int64 \<Rightarrow> uint64"
  n_of_uint :: "uint64 \<Rightarrow> uint64"
  n_pos :: "uint64 \<Rightarrow> bool"

definition int64_ops :: "(uint64 \<Rightarrow> uint64) \<Rightarrow> numops" where
  "int64_ops cv = \<lparr>n_of_float = cv, n_float = (\<lambda>t. f64_of_int (sint t)), n_of_int = (\<lambda>i. i), n_of_uint = (\<lambda>u. u),
     n_pos = (\<lambda>t. 0 < sint t)\<rparr>"

definition uint64_ops :: "(uint64 \<Rightarrow> uint64) \<Rightarrow> numops" where
  "uint64_ops cv = \<lparr>n_of_float = cv, n_float = (\<lambda>t. f64_of_int (uint t)), n_of_int = (\<lambda>i. i), n_of_uint = (\<lambda>u. u),
     n_pos = (\<lambda>t. 0 < t)\<rparr>"

definition float64_ops :: numops where
  "float64_ops = \<lparr>n_of_float = (\<lambda>f. f), n_float = (\<lambda>f. f), n_of_int = (\<lambda>i. f64_of_int (sint i)),
     n_of_uint = (\<lambda>u. f64_of_int (uint u)), n_pos = f64_pos\<rparr>"

datatype number = NFloat uint64 | NInt int64 | NUint uint64 | NCounter int64

text \<open>The number in a value, and its conversion: \<open>None\<close> is the result false.\<close>

definition number_of :: "Value \<Rightarrow> ('w prog, number option) comp" where
  "number_of v =
     (if value_kind v = KindFloat64 then andThen (lift (Value_prim v KindFloat64)) (\<lambda>x. ret (case x of VFloat64 f \<Rightarrow> Some (NFloat f) | _ \<Rightarrow> None))
      else if value_kind v = KindInt64 then andThen (lift (Value_prim v KindInt64)) (\<lambda>x. ret (case x of VInt64 i \<Rightarrow> Some (NInt i) | _ \<Rightarrow> None))
      else if value_kind v = KindUint64 then andThen (lift (Value_prim v KindUint64)) (\<lambda>x. ret (case x of VUint64 u \<Rightarrow> Some (NUint u) | _ \<Rightarrow> None))
      else if value_kind v = KindCounter then andThen (lift (Value_Counter v)) (\<lambda>c. andThen (read_counter c) (\<lambda>o'. ret (Some (NCounter (counter_val o')))))
      else ret None)"

fun convert :: "numops \<Rightarrow> (uint64 \<Rightarrow> bool) \<Rightarrow> number \<Rightarrow> uint64 option" where
  "convert T overflows (NFloat f) = (let t = n_of_float T f in
     if f64_eq (n_float T t) f \<and> \<not> overflows t then Some t else None)"
| "convert T overflows (NInt i) = (let t = n_of_int T i in
     if n_pos T t = (0 < sint i) \<and> \<not> overflows t then Some t else None)"
| "convert T overflows (NUint u) = (let t = n_of_uint T u in
     if n_pos T t \<and> \<not> overflows t then Some t else None)"
| "convert T overflows (NCounter i) = (let t = n_of_int T i in
     if n_pos T t = (0 < sint i) \<and> \<not> overflows t then Some t else None)"

definition unmarshalNumber :: "numops \<Rightarrow> (uint64 \<Rightarrow> bool) \<Rightarrow> Value \<Rightarrow> ('w prog, uint64 option) comp" where
  "unmarshalNumber T overflows v = andThen (number_of v) (\<lambda>n. ret (case n of None \<Rightarrow> None | Some n \<Rightarrow> convert T overflows n))"

text \<open>\<open>OverflowInt\<close>, \<open>OverflowUint\<close> and \<open>OverflowFloat\<close> of the package \<open>reflect\<close>.\<close>

definition OverflowInt :: "ikind \<Rightarrow> int64 \<Rightarrow> bool" where
  "OverflowInt k x \<longleftrightarrow> sint x < - (2 ^ (ibits k - 1)) \<or> 2 ^ (ibits k - 1) \<le> sint x"

definition OverflowUint :: "ikind \<Rightarrow> uint64 \<Rightarrow> bool" where
  "OverflowUint k x \<longleftrightarrow> 2 ^ ibits k \<le> uint x"

definition OverflowFloat32 :: "uint64 \<Rightarrow> bool" where
  "OverflowFloat32 x \<longleftrightarrow> (let a = x AND 0x7FFFFFFFFFFFFFFF in 0x47EFFFFFE0000000 < a \<and> a \<le> 0x7FEFFFFFFFFFFFFF)"

section \<open>Reading values as Go values\<close>

definition stack_overflow :: go_error where
  "stack_overflow = Errorf ''stack overflow'' []"

definition or_panics :: "('s, 'a) comp \<Rightarrow> ('s, 'a) comp" where
  "or_panics m = (\<lambda>s. case m s of (Error e, s') \<Rightarrow> (Panic e, s') | (r, s') \<Rightarrow> (r, s'))"

fun each :: "('a \<Rightarrow> ('s, 'b) comp) \<Rightarrow> 'a list \<Rightarrow> ('s, 'b list) comp" where
  "each f [] = ret []"
| "each f (x # xs) = andThen (f x) (\<lambda>y. andThen (each f xs) (\<lambda>ys. ret (y # ys)))"

fun prim_goval :: "prim \<Rightarrow> goval" where
  "prim_goval VNil = RNil"
| "prim_goval (VBool b) = RBool b"
| "prim_goval (VStr s) = RString s"
| "prim_goval (VBytes b) = RByteSeq b"
| "prim_goval (VInt64 i) = RInt KInt64 i"
| "prim_goval (VUint64 u) = RUint KInt64 u"
| "prim_goval (VFloat64 f) = RFloat64 f"
| "prim_goval (VTime t) = RTime t"

fun vval_goval :: "vval \<Rightarrow> goval" where
  "vval_goval (VP x) = prim_goval x"
| "vval_goval (VCounterRef r) = RCounterPtr r"
| "vval_goval (VMapRef r) = RMapPtr r"
| "vval_goval (VListRef r) = RListPtr r"
| "vval_goval (VTextRef r) = RTextPtr r"

text \<open>
  \<open>Value.Interface\<close> recurses as deep as the document; the first argument is the depth of the
  stack, and a deeper document overflows it.
\<close>

fun Value_Interface :: "nat \<Rightarrow> 'w wazero_runtime \<Rightarrow> Value \<Rightarrow> ('w prog, goval) comp" where
  "Value_Interface 0 R v = panic stack_overflow"
| "Value_Interface (Suc n) R v =
     (if value_kind v = KindMap then
        andThen (lift (Value_Map v)) (\<lambda>m. andThen (or_panics (Map_Values R m)) (\<lambda>values.
        andThen (each (\<lambda>(k, x). andThen (Value_Interface n R x) (\<lambda>y. ret (k, y))) values) (\<lambda>kvs. ret (RMap kvs))))
      else if value_kind v = KindList then
        andThen (lift (Value_List v)) (\<lambda>l. andThen (or_panics (List_Values R l)) (\<lambda>values.
        andThen (each (Value_Interface n R) values) (\<lambda>vs. ret (RSeq vs))))
      else if value_kind v = KindText then
        andThen (lift (Value_Text v)) (\<lambda>t. andThen (or_panics (Text_Get R t)) (\<lambda>s. ret (RString s)))
      else if value_kind v = KindCounter then
        andThen (lift (Value_Counter v)) (\<lambda>c. andThen (or_panics (Counter_Get R c)) (\<lambda>i. ret (RInt KInt64 i)))
      else ret (vval_goval (value_val v)))"

section \<open>Unmarshalling\<close>

text \<open>What the compiler and the processor make of a conversion.\<close>

record conversions =
  cv_int :: "uint64 \<Rightarrow> int64"
  cv_uint :: "uint64 \<Rightarrow> uint64"
  cv_float32 :: "uint64 \<Rightarrow> uint64"

fun byte_of :: "goval \<Rightarrow> byte" where
  "byte_of (RUint k u) = ucast u"
| "byte_of _ = 0"

text \<open>A slice or an array of elements of the given type.\<close>

definition seq_of :: "gotype \<Rightarrow> goval list \<Rightarrow> goval" where
  "seq_of ty vs = (if ty = TUint KInt8 then RByteSeq (map byte_of vs) else RSeq vs)"

fun zero_of :: "gotype \<Rightarrow> goval" where
  "zero_of TBool = RBool False"
| "zero_of (TInt k) = RInt k 0"
| "zero_of (TUint k) = RUint k 0"
| "zero_of TFloat32 = RFloat32 0"
| "zero_of TFloat64 = RFloat64 0"
| "zero_of TString = RString []"
| "zero_of TInterface = RNil"
| "zero_of TMapPtr = RNilObj"
| "zero_of TListPtr = RNilObj"
| "zero_of TCounterPtr = RNilObj"
| "zero_of TTextPtr = RNilObj"
| "zero_of (TPtr ty) = RPtr None"
| "zero_of TBytes = RByteSeq []"
| "zero_of (TSlice ty) = seq_of ty []"
| "zero_of (TArray n ty) = seq_of ty (replicate n (zero_of ty))"
| "zero_of TMapOther = RMapOther"
| "zero_of (TMap ty) = RMap []"
| "zero_of TTime = RTime zero_time"
| "zero_of (TStruct fs) = RStruct (map (\<lambda>(ft, ty). (ft, zero_of ty)) fs)"
| "zero_of (TOther kind) = ROther kind"

definition cannot_unmarshal :: "Value \<Rightarrow> go_error" where
  "cannot_unmarshal v = Errorf ''automerge: cannot unmarshal %s into %s'' [AStr (Kind_String (value_kind v))]"

definition set_number :: "(uint64 \<Rightarrow> goval) \<Rightarrow> numops \<Rightarrow> (uint64 \<Rightarrow> bool) \<Rightarrow> Value \<Rightarrow> ('w prog, goval) comp" where
  "set_number mk T overflows v = andThen (unmarshalNumber T overflows v) (\<lambda>r. case r of
     Some t \<Rightarrow> ret (mk t)
   | None \<Rightarrow> fail (cannot_unmarshal v))"

text \<open>\<open>vals[name]\<close> of the Go map that \<open>Values\<close> returns.\<close>

definition value_named :: "(string \<times> Value) list \<Rightarrow> string \<Rightarrow> Value option" where
  "value_named vals name = map_of (rev vals) name"

text \<open>The loop over the fields; a field is given with the code that unmarshals into it.\<close>

fun unmarshal_fields ::
  "(string \<times> Value) list \<Rightarrow> (StructField \<times> goval \<times> (Value \<Rightarrow> ('w prog, goval) comp)) list \<Rightarrow>
   ('w prog, (StructField \<times> goval) list) comp" where
  "unmarshal_fields vals [] = ret []"
| "unmarshal_fields vals ((ft, zero, f) # fs) = andThen
     (case parseTags ft of
        None \<Rightarrow> ret zero
      | Some name \<Rightarrow> (case value_named vals name of None \<Rightarrow> ret zero | Some mv \<Rightarrow> f mv))
     (\<lambda>x. andThen (unmarshal_fields vals fs) (\<lambda>xs. ret ((ft, x) # xs)))"

text \<open>
  A pointer to an automerge type: the object of a value of that kind. Otherwise the code goes
  on with the struct behind the pointer, whose fields are all unexported: from a map it reads
  nothing and returns a new object, from anything else it fails.
\<close>

definition object_pointer ::
  "'w wazero_runtime \<Rightarrow> Kind \<Rightarrow> ('w prog, ref) comp \<Rightarrow> (ref \<Rightarrow> goval) \<Rightarrow> Value \<Rightarrow> ('w prog, goval) comp" where
  "object_pointer R k new mk v =
     (if value_kind v = k then ret (vval_goval (value_val v))
      else if value_kind v \<noteq> KindMap then fail (cannot_unmarshal v)
      else andThen (lift (Value_Map v)) (\<lambda>m. andThen (Map_Values R m) (\<lambda>_. andThen new (\<lambda>r. ret (mk r)))))"

text \<open>
  \<open>unmarshal\<close> gives the value that is assigned to its first argument, which is the zero value of
  its type in every call. What a failing call has assigned before the error is not modelled.
\<close>

fun unmarshal :: "conversions \<Rightarrow> nat \<Rightarrow> 'w wazero_runtime \<Rightarrow> gotype \<Rightarrow> Value \<Rightarrow> ('w prog, goval) comp" where
  "unmarshal cv n R TBool = (\<lambda>v.
     if value_kind v = KindBool then andThen (lift (Value_prim v KindBool)) (\<lambda>x. ret (prim_goval x))
     else fail (cannot_unmarshal v))"
| "unmarshal cv n R (TInt k) = set_number (RInt k) (int64_ops (cv_int cv)) (OverflowInt k)"
| "unmarshal cv n R (TUint k) = set_number (RUint k) (uint64_ops (cv_uint cv)) (OverflowUint k)"
| "unmarshal cv n R TFloat32 = set_number (\<lambda>f. RFloat32 (cv_float32 cv f)) float64_ops OverflowFloat32"
| "unmarshal cv n R TFloat64 = set_number RFloat64 float64_ops (\<lambda>_. False)"
| "unmarshal cv n R TString = (\<lambda>v.
     if value_kind v = KindStr then andThen (lift (Value_prim v KindStr)) (\<lambda>x. ret (prim_goval x))
     else if value_kind v = KindText then andThen (lift (Value_Text v)) (\<lambda>t. andThen (Text_Get R t) (\<lambda>s. ret (RString s)))
     else fail (cannot_unmarshal v))"
| "unmarshal cv n R TInterface = Value_Interface n R"
| "unmarshal cv n R TMapPtr = object_pointer R KindMap NewMap RMapPtr"
| "unmarshal cv n R TListPtr = object_pointer R KindList NewList RListPtr"
| "unmarshal cv n R TCounterPtr = object_pointer R KindCounter (NewCounter 0) RCounterPtr"
| "unmarshal cv n R TTextPtr = object_pointer R KindText (NewText []) RTextPtr"
| "unmarshal cv n R (TPtr ty) = (\<lambda>v. andThen (unmarshal cv n R ty v) (\<lambda>x. ret (RPtr (Some x))))"
| "unmarshal cv n R TBytes = (\<lambda>v.
     if value_kind v = KindBytes then andThen (lift (Value_prim v KindBytes)) (\<lambda>x. ret (prim_goval x))
     else if value_kind v \<noteq> KindList then fail (cannot_unmarshal v)
     else andThen (lift (Value_List v)) (\<lambda>l. andThen (List_Values R l) (\<lambda>vals.
       andThen (each (set_number (RUint KInt8) (uint64_ops (cv_uint cv)) (OverflowUint KInt8)) vals)
         (\<lambda>xs. ret (RByteSeq (map byte_of xs))))))"
| "unmarshal cv n R (TSlice ty) = (\<lambda>v.
     if value_kind v \<noteq> KindList then fail (cannot_unmarshal v)
     else andThen (lift (Value_List v)) (\<lambda>l. andThen (List_Values R l) (\<lambda>vals.
       andThen (each (unmarshal cv n R ty) vals) (\<lambda>xs. ret (seq_of ty xs)))))"
| "unmarshal cv n R (TArray cap ty) = (\<lambda>v.
     if value_kind v \<noteq> KindList then fail (cannot_unmarshal v)
     else andThen (lift (Value_List v)) (\<lambda>l. andThen (List_Values R l) (\<lambda>vals.
       andThen (each (unmarshal cv n R ty) (take cap vals)) (\<lambda>xs.
         ret (seq_of ty (xs @ replicate (cap - length xs) (zero_of ty)))))))"
| "unmarshal cv n R TMapOther = (\<lambda>v.
     if value_kind v \<noteq> KindMap then fail (cannot_unmarshal v)
     else fail (Errorf ''automerge: unsupported map, must have string keys'' []))"
| "unmarshal cv n R (TMap ty) = (\<lambda>v.
     if value_kind v \<noteq> KindMap then fail (cannot_unmarshal v)
     else andThen (lift (Value_Map v)) (\<lambda>m. andThen (Map_Values R m) (\<lambda>vals.
       andThen (each (\<lambda>(k, x). andThen (unmarshal cv n R ty x) (\<lambda>y. ret (k, y))) vals) (\<lambda>kvs. ret (RMap kvs)))))"
| "unmarshal cv n R TTime = (\<lambda>v.
     if value_kind v = KindTime then andThen (lift (Value_prim v KindTime)) (\<lambda>x. ret (prim_goval x))
     else if value_kind v \<noteq> KindMap then fail (cannot_unmarshal v)
     else andThen (lift (Value_Map v)) (\<lambda>m. andThen (Map_Values R m) (\<lambda>_. ret (RTime zero_time))))"
| "unmarshal cv n R (TStruct fs) = (\<lambda>v.
     if value_kind v \<noteq> KindMap then fail (cannot_unmarshal v)
     else andThen (lift (Value_Map v)) (\<lambda>m. andThen (Map_Values R m) (\<lambda>vals.
       andThen (unmarshal_fields vals (map (\<lambda>(ft, ty). (ft, zero_of ty, unmarshal cv n R ty)) fs)) (\<lambda>xs. ret (RStruct xs)))))"
| "unmarshal cv n R (TOther kind) = (\<lambda>v. fail (Errorf ''automerge: unsupported type %v'' [AStr kind]))"

text \<open>\<open>As[T](v, errs...)\<close>, an absent error being \<open>None\<close>.\<close>

definition As ::
  "conversions \<Rightarrow> nat \<Rightarrow> 'w wazero_runtime \<Rightarrow> gotype \<Rightarrow> Value \<Rightarrow> go_error option list \<Rightarrow> ('w prog, goval) comp" where
  "As cv n R ty v errs = (case errs of
     Some e # _ \<Rightarrow> fail e
   | _ \<Rightarrow> unmarshal cv n R ty v)"

end
