(* ===== verification/NormalizeSpec.thy ===== *)
theory NormalizeSpec
  imports Normalize ApiOps
begin

text \<open>
  What the conversions promise: \<open>normalize\<close> gives values of the form that the writers expect and
  leaves such values alone, and a number that \<open>As\<close> reads into an integer type is the number of
  the document.
\<close>

section \<open>Normalized values\<close>

text \<open>A normalized value seen as a Go value, and the values whose maps have each key once.\<close>

fun embed :: "gval \<Rightarrow> goval" where
  "embed (GPrim p) = prim_goval p"
| "embed (GSlice vs) = RSeq (map embed vs)"
| "embed (GMap kvs) = RMap (map (\<lambda>(k, v). (k, embed v)) kvs)"
| "embed (GMapRef r) = RMapPtr r"
| "embed (GListRef r) = RListPtr r"
| "embed (GCounterRef r) = RCounterPtr r"
| "embed (GTextRef r) = RTextPtr r"

fun normal :: "gval \<Rightarrow> bool" where
  "normal (GSlice vs) = list_all normal vs"
| "normal (GMap kvs) = (distinct (map fst kvs) \<and> list_all (\<lambda>(k, v). normal v) kvs)"
| "normal _ = True"

abbreviation normal_entries :: "(string \<times> gval) list \<Rightarrow> bool" where
  "normal_entries kvs \<equiv> distinct (map fst kvs) \<and> list_all (\<lambda>(k, v). normal v) kvs"

lemma fst_put_key_val: "fst ` set (put_key_val k v kvs) = insert k (fst ` set kvs)"
  by (induction k v kvs rule: put_key_val.induct) auto

lemma normal_put_key_val: "normal_entries kvs \<Longrightarrow> normal v \<Longrightarrow> normal_entries (put_key_val k v kvs)"
  by (induction k v kvs rule: put_key_val.induct) (auto simp: fst_put_key_val image_iff list.pred_set)

lemma put_key_val_new: "k \<notin> fst ` set kvs \<Longrightarrow> put_key_val k v kvs = kvs @ [(k, v)]"
  by (induction k v kvs rule: put_key_val.induct) auto

lemma map_outcome_of_Ok [simp]: "map_outcome_of f r = Ok y \<longleftrightarrow> (\<exists>x. r = Ok x \<and> y = f x)"
  by (cases r) auto

lemma normalize_normal:
  "normalize v = Ok g \<Longrightarrow> normal g"
  "normalize_items vs = Ok gs \<Longrightarrow> list_all normal gs"
  "normalize_entries kvs acc = Ok r \<Longrightarrow> normal_entries acc \<Longrightarrow> normal_entries r"
  "normalize_fields fs acc = Ok r \<Longrightarrow> normal_entries acc \<Longrightarrow> normal_entries r"
proof (induction v and vs and kvs acc and fs acc arbitrary: g and gs and r and r
    rule: normalize_normalize_items_normalize_entries_normalize_fields.induct)
  case (25 k v kvs acc)
  then obtain x where "normalize v = Ok x" "normalize_entries kvs (put_key_val k x acc) = Ok r" by auto
  then show ?case using 25 normal_put_key_val by blast
next
  case (27 ft v fs acc)
  show ?case
  proof (cases "parseTags ft")
    case None
    then show ?thesis using 27 by simp
  next
    case (Some name)
    then obtain x where "normalize v = Ok x" "normalize_fields fs (put_key_val name x acc) = Ok r" using 27 by auto
    then show ?thesis using 27 Some normal_put_key_val by blast
  qed
qed (auto split: if_splits)

lemma normalize_prim: "normalize (prim_goval p) = Ok (GPrim p)"
  by (cases p) simp_all

lemma normalize_items_embed:
  "(\<And>g. g \<in> set gs \<Longrightarrow> normalize (embed g) = Ok g) \<Longrightarrow> normalize_items (map embed gs) = Ok gs"
  by (induction gs) simp_all

lemma normalize_entries_embed:
  assumes "\<And>k g. (k, g) \<in> set kvs \<Longrightarrow> normalize (embed g) = Ok g" and "distinct (map fst (acc @ kvs))"
  shows "normalize_entries (map (\<lambda>(k, v). (k, embed v)) kvs) acc = Ok (acc @ kvs)"
  using assms
proof (induction kvs arbitrary: acc)
  case (Cons e kvs)
  obtain k g where e: "e = (k, g)" by fastforce
  then have "put_key_val k g acc = acc @ [(k, g)]" using Cons.prems(2) by (intro put_key_val_new) auto
  moreover have "normalize (embed g) = Ok g" using Cons.prems(1) [of k g] e by simp
  moreover have "normalize_entries (map (\<lambda>(k, v). (k, embed v)) kvs) (acc @ [(k, g)]) = Ok ((acc @ [(k, g)]) @ kvs)"
    by (rule Cons.IH) (use Cons.prems e in auto)
  ultimately show ?case by (simp add: e)
qed simp

lemma normalize_embed: "normal g \<Longrightarrow> normalize (embed g) = Ok g"
proof (induction g)
  case (GSlice vs)
  then show ?case using normalize_items_embed [of vs] by (simp add: list.pred_set)
next
  case (GMap kvs)
  then have "normalize_entries (map (\<lambda>(k, v). (k, embed v)) kvs) [] = Ok ([] @ kvs)"
    by (intro normalize_entries_embed) (auto simp: list.pred_set snds.simps)
  then show ?case by simp
qed (simp_all add: normalize_prim)


section \<open>Numbers\<close>

text \<open>The integer that a number of a document denotes.\<close>

fun denotes :: "number \<Rightarrow> int option" where
  "denotes (NFloat f) = f64_int f"
| "denotes (NInt i) = Some (sint i)"
| "denotes (NUint u) = Some (uint u)"
| "denotes (NCounter i) = Some (sint i)"

text \<open>
  The conversion of doubles to an integer type with the given range, read by \<open>rd\<close>: Go truncates
  what is in range. For the rest \<open>indefinite\<close> is what the x86-64 instruction gives, 2 to the 63,
  or for the unsigned type any result when the truncation is negative.
\<close>

definition converts :: "(uint64 \<Rightarrow> int) \<Rightarrow> int \<Rightarrow> int \<Rightarrow> (uint64 \<Rightarrow> uint64) \<Rightarrow> bool" where
  "converts rd lo hi cv \<longleftrightarrow> (\<forall>f. case f64_trunc f of
     Some n \<Rightarrow> if lo \<le> n \<and> n < hi then rd (cv f) = n else cv f = 0x8000000000000000 \<or> 0 \<le> lo \<and> n < 0
   | None \<Rightarrow> cv f = 0x8000000000000000)"

lemma f64_int_None: "f64_trunc f = None \<Longrightarrow> f64_int f = None"
  by (simp add: f64_int_def)

lemma f64_int_Some: "f64_int f = Some n \<Longrightarrow> f64_trunc f = Some n"
  by (auto simp: f64_int_def split: if_splits)

text \<open>A conversion result passes the test \<open>float64(T(f)) == f\<close> only for the integer that the double denotes.\<close>

lemma converted_denotes:
  assumes "converts rd lo hi cv" and "\<bar>rd 0x8000000000000000\<bar> = 2 ^ 63"
    and "lo \<le> rd 0x8000000000000000" "rd 0x8000000000000000 < hi" and "0 \<le> lo \<Longrightarrow> \<forall>t. 0 \<le> rd t \<and> rd t < 2 ^ 64"
  shows "f64_eq (f64_of_int (rd (cv f))) f \<longleftrightarrow>
    (case f64_int f of Some n \<Rightarrow> lo \<le> n \<and> n < hi \<and> rd (cv f) = n | None \<Rightarrow> False)"
proof (cases "\<exists>n. f64_trunc f = Some n \<and> lo \<le> n \<and> n < hi")
  case True
  then obtain n where n: "f64_trunc f = Some n" "lo \<le> n" "n < hi" by blast
  then have "rd (cv f) = n" using assms(1) by (auto simp: converts_def dest!: spec [of _ f])
  then show ?thesis using truncation_exact [OF n(1)] n f64_int_Some [of f] by (auto split: option.splits)
next
  case out: False
  have no: "\<not> f64_eq (f64_of_int (rd (cv f))) f"
  proof
    assume eq: "f64_eq (f64_of_int (rd (cv f))) f"
    show False
    proof (cases "cv f = 0x8000000000000000")
      case True
      then have "rd (cv f) = 2 ^ 63 \<or> rd (cv f) = - (2 ^ 63)" using assms(2) by auto
      then have "f64_int (f64_of_int (rd (cv f))) = Some (rd (cv f))" using f64_int_of_min by metis
      then have "f64_trunc f = Some (rd (cv f))" using f64_eq_int [OF eq] f64_int_Some by simp
      then show False using out True assms(3,4) by auto
    next
      case False
      then obtain n where n: "f64_trunc f = Some n" "0 \<le> lo" "n < 0"
        using assms(1) out by (auto simp: converts_def split: option.splits dest!: spec [of _ f])
      have "\<not> f64_zero f" using n f64_int_Some [of f 0] by (auto simp: f64_zero_int)
      then have "f64_of_int (rd (cv f)) = f" using eq by (auto simp: f64_eq_def)
      moreover have "0 \<le> rd (cv f)" "rd (cv f) < 2 ^ 64" using assms(5) n(2) by simp_all
      ultimately have "\<not> f64_neg f" using f64_of_int_nonneg by metis
      then show False using f64_trunc_neg [OF n(1,3)] by contradiction
    qed
  qed
  have "\<not> (case f64_int f of Some n \<Rightarrow> lo \<le> n \<and> n < hi \<and> rd (cv f) = n | None \<Rightarrow> False)"
    using out f64_int_Some by (auto split: option.splits)
  then show ?thesis using no by blast
qed

text \<open>The conversions of an x86-64 processor satisfy the contract.\<close>

definition amd64 :: conversions where
  "amd64 = \<lparr>cv_int = (\<lambda>f. case f64_trunc f of
       Some n \<Rightarrow> if - (2 ^ 63) \<le> n \<and> n < 2 ^ 63 then word_of_int n else 0x8000000000000000
     | None \<Rightarrow> 0x8000000000000000),
     cv_uint = (\<lambda>f. case f64_trunc f of
       Some n \<Rightarrow> if - (2 ^ 63) \<le> n \<and> n < 2 ^ 64 then word_of_int n else 0x8000000000000000
     | None \<Rightarrow> 0x8000000000000000),
     cv_float32 = (\<lambda>f. f)\<rparr>"

definition converts_int :: "(uint64 \<Rightarrow> int64) \<Rightarrow> bool" where
  "converts_int cv \<longleftrightarrow> converts sint (- (2 ^ 63)) (2 ^ 63) cv"

definition converts_uint :: "(uint64 \<Rightarrow> uint64) \<Rightarrow> bool" where
  "converts_uint cv \<longleftrightarrow> converts uint 0 (2 ^ 64) cv"

lemma sint_of_int: "- (2 ^ 63) \<le> n \<Longrightarrow> n < 2 ^ 63 \<Longrightarrow> sint (word_of_int n :: int64) = n"
  by (simp add: sint_sbintrunc' signed_take_bit_int_eq_self)

lemma amd64_converts: "converts_int (cv_int amd64)" "converts_uint (cv_uint amd64)"
  by (auto simp: converts_int_def converts_uint_def converts_def amd64_def sint_of_int uint_word_of_int_eq
      take_bit_int_eq_self_iff split: option.splits)

lemma sint_range: "- (2 ^ 63) \<le> sint (x :: int64)" "sint (x :: int64) < 2 ^ 63"
  using sint_ge [of x] sint_lt [of x] by simp_all

text \<open>The reference: a number is read into a type when it denotes an integer in the range of the type.\<close>

definition reads_as :: "int \<Rightarrow> int \<Rightarrow> number \<Rightarrow> uint64 option" where
  "reads_as lo hi x = (case denotes x of
     Some n \<Rightarrow> if lo \<le> n \<and> n < hi \<and> x \<noteq> NUint 0 then Some (word_of_int n) else None
   | None \<Rightarrow> None)"

lemma ibits_pos: "1 \<le> ibits k" "ibits k \<le> 64"
  by (cases k; simp)+

lemma range_mono: "(2 :: int) ^ (ibits k - 1) \<le> 2 ^ 63" "(2 :: int) ^ ibits k \<le> 2 ^ 64"
  using ibits_pos [of k] by (intro power_increasing; simp)+

text \<open>The test and the overflow check together, for a target range inside the range of the conversion.\<close>

lemma converted_in_range:
  assumes "converts rd lo hi cv" and "\<bar>rd 0x8000000000000000\<bar> = 2 ^ 63"
    and "lo \<le> rd 0x8000000000000000" "rd 0x8000000000000000 < hi" and "0 \<le> lo \<Longrightarrow> \<forall>t. 0 \<le> rd t \<and> rd t < 2 ^ 64"
    and "lo \<le> lo'" and "hi' \<le> hi" and "\<And>t. word_of_int (rd t) = t"
  shows "(if f64_eq (f64_of_int (rd (cv f))) f \<and> \<not> (rd (cv f) < lo' \<or> hi' \<le> rd (cv f)) then Some (cv f) else None) =
    reads_as lo' hi' (NFloat f)"
proof (cases "f64_int f")
  case None
  then have "\<not> f64_eq (f64_of_int (rd (cv f))) f" using converted_denotes [OF assms(1-5), of f] by simp
  then show ?thesis using None by (simp add: reads_as_def)
next
  case (Some n)
  have eq: "f64_eq (f64_of_int (rd (cv f))) f \<longleftrightarrow> lo \<le> n \<and> n < hi \<and> rd (cv f) = n"
    using converted_denotes [OF assms(1-5), of f] Some by simp
  show ?thesis
  proof (cases "lo' \<le> n \<and> n < hi'")
    case True
    then have "lo \<le> n" "n < hi" using assms(6,7) by simp_all
    then have "rd (cv f) = n" using assms(1) f64_int_Some [OF Some] by (auto simp: converts_def dest!: spec [of _ f])
    moreover then have "cv f = word_of_int n" using assms(8) [of "cv f"] by simp
    ultimately show ?thesis using eq True \<open>lo \<le> n\<close> \<open>n < hi\<close> Some by (simp add: reads_as_def)
  next
    case False
    then show ?thesis using eq Some by (auto simp: reads_as_def)
  qed
qed

lemma uint_pos: "0 < uint (u :: uint64) \<longleftrightarrow> u \<noteq> 0"
  by (simp add: order_less_le uint_0_iff eq_commute [of 0])

lemma sint_eq_uint: "(0 :: int) \<le> sint (u :: int64) \<Longrightarrow> sint u = uint u" "uint (u :: int64) < 2 ^ 63 \<Longrightarrow> sint u = uint u"
proof -
  have u: "sint u = signed_take_bit 63 (uint u)" by (simp add: sint_uint)
  have lt: "uint u < 2 ^ 64" using uint_lt2p [of u] by simp
  show small: "uint u < 2 ^ 63 \<Longrightarrow> sint u = uint u" unfolding u by (rule signed_take_bit_int_eq_self) (simp_all add: order_trans [of _ 0])
  show "0 \<le> sint u \<Longrightarrow> sint u = uint u"
  proof (rule small, rule ccontr)
    assume "0 \<le> sint u" "\<not> uint u < 2 ^ 63"
    moreover have "bit (uint u) 63"
    proof -
      have "uint u div 2 ^ 63 = 1" using lt \<open>\<not> uint u < 2 ^ 63\<close> by (simp add: div_pos_geq)
      then show ?thesis by (simp add: bit_iff_odd)
    qed
    ultimately show False unfolding u by (simp add: signed_take_bit_nonnegative_iff)
  qed
qed

lemma convert_int:
  assumes "converts_int cv"
  shows "convert (int64_ops cv) (OverflowInt k) x = reads_as (- (2 ^ (ibits k - 1))) (2 ^ (ibits k - 1)) x"
proof (cases x)
  case (NFloat f)
  have "(if f64_eq (f64_of_int (sint (cv f))) f \<and> \<not> (sint (cv f) < - (2 ^ (ibits k - 1)) \<or> 2 ^ (ibits k - 1) \<le> sint (cv f)) then Some (cv f) else None) =
    reads_as (- (2 ^ (ibits k - 1))) (2 ^ (ibits k - 1)) (NFloat f)"
    by (rule converted_in_range [where lo = "- (2 ^ 63)" and hi = "2 ^ 63"])
      (use assms range_mono(1) [of k] in \<open>simp_all add: converts_int_def\<close>)
  then show ?thesis by (simp add: NFloat int64_ops_def OverflowInt_def Let_def)
next
  case (NUint u)
  have "0 < sint u \<and> sint u < 2 ^ (ibits k - 1) \<longleftrightarrow> uint u < 2 ^ (ibits k - 1) \<and> u \<noteq> 0"
    using sint_eq_uint [of u] range_mono(1) [of k] uint_pos [of u] by auto
  moreover have "- (2 ^ (ibits k - 1)) \<le> uint u" by (simp add: order_trans [of _ 0])
  moreover have "\<not> sint u < - (2 ^ (ibits k - 1))" if "0 < sint u" using that by (simp add: order_trans [of _ 0] not_less)
  ultimately show ?thesis by (auto simp: NUint int64_ops_def reads_as_def OverflowInt_def Let_def)
qed (auto simp: int64_ops_def reads_as_def OverflowInt_def Let_def)

lemma unsigned_of_signed:
  "(if (0 < i) = (0 < sint i) \<and> \<not> OverflowUint k i then Some i else None) =
   (if 0 \<le> sint i \<and> sint i < 2 ^ ibits k then Some (word_of_int (sint (i :: int64))) else None)"
proof (cases "0 \<le> sint i")
  case True
  then have "sint i = uint i" by (rule sint_eq_uint)
  then show ?thesis using uint_pos [of i] by (auto simp: OverflowUint_def word_gt_0)
next
  case False
  then have "i \<noteq> 0" by auto
  then show ?thesis using False by (simp add: word_gt_0)
qed

lemma convert_uint:
  assumes "converts_uint cv"
  shows "convert (uint64_ops cv) (OverflowUint k) x = reads_as 0 (2 ^ ibits k) x"
proof (cases x)
  case (NFloat f)
  have "(if f64_eq (f64_of_int (uint (cv f))) f \<and> \<not> (uint (cv f) < 0 \<or> 2 ^ ibits k \<le> uint (cv f)) then Some (cv f) else None) =
    reads_as 0 (2 ^ ibits k) (NFloat f)"
    by (rule converted_in_range [where lo = 0 and hi = "2 ^ 64"])
      (use assms range_mono(2) [of k] uint_lt2p [where 'a = 64] in \<open>simp_all add: converts_uint_def\<close>)
  then show ?thesis by (simp add: NFloat uint64_ops_def OverflowUint_def Let_def)
next
  case (NUint u)
  then show ?thesis by (auto simp: uint64_ops_def reads_as_def OverflowUint_def Let_def word_gt_0)
qed (simp_all add: uint64_ops_def reads_as_def Let_def unsigned_of_signed)

text \<open>
  C33: As into a signed or unsigned integer type of 8 to 64 bits is exact: it succeeds exactly when
  the float, integer, unsigned integer or counter in the document denotes an integer in the
  range of the type, and then gives that integer; the one exception is the unsigned zero. It
  assumes what x86-64 gives for conversions of doubles out of range.
\<close>

theorem As_integer_exact:
  assumes "converts_int (cv_int cv)" and "converts_uint (cv_uint cv)"
  shows "unmarshal cv n R (TInt k) v P = andThen (number_of v) (\<lambda>x. case x of
       None \<Rightarrow> fail (cannot_unmarshal v)
     | Some x \<Rightarrow> (case reads_as (- (2 ^ (ibits k - 1))) (2 ^ (ibits k - 1)) x of
         Some t \<Rightarrow> ret (RInt k t) | None \<Rightarrow> fail (cannot_unmarshal v))) P \<and>
    unmarshal cv n R (TUint k) v P = andThen (number_of v) (\<lambda>x. case x of
       None \<Rightarrow> fail (cannot_unmarshal v)
     | Some x \<Rightarrow> (case reads_as 0 (2 ^ ibits k) x of
         Some t \<Rightarrow> ret (RUint k t) | None \<Rightarrow> fail (cannot_unmarshal v))) P"
  using convert_int [OF assms(1)] convert_uint [OF assms(2)]
  by (auto simp: set_number_def unmarshalNumber_def andThen_def ret_def fail_def split: prod.splits outcome.splits option.splits)

definition prim_value :: "prim \<Rightarrow> Value" where
  "prim_value x = \<lparr>value_doc = None, value_kind = kind_of_prim x, value_val = VP x\<rparr>"

lemma number_of_prim:
  "number_of (prim_value (VFloat64 f)) = ret (Some (NFloat f))"
  "number_of (prim_value (VInt64 i)) = ret (Some (NInt i))"
  "number_of (prim_value (VUint64 u)) = ret (Some (NUint u))"
  by (simp_all add: number_of_def prim_value_def Value_prim_def assertKind_def lift_def ret_def andThen_def fun_eq_iff)

text \<open>The double 80 fits a byte with a sign, the integer 200 does not, but it fits one without.\<close>

theorem As_integer_exact_witness:
  "converts_int (cv_int amd64) \<and> converts_uint (cv_uint amd64) \<and>
   (\<forall>(R :: unit wazero_runtime) n.
     unmarshal amd64 n R (TInt KInt8) (prim_value (VFloat64 0x4054000000000000)) prog_start = (Ok (RInt KInt8 80), prog_start) \<and>
     unmarshal amd64 n R (TInt KInt8) (prim_value (VInt64 200)) prog_start =
       (Error (cannot_unmarshal (prim_value (VInt64 200))), prog_start) \<and>
     unmarshal amd64 n R (TUint KInt8) (prim_value (VInt64 200)) prog_start = (Ok (RUint KInt8 200), prog_start))"
proof -
  note x = As_integer_exact [OF amd64_converts, THEN conjunct1] As_integer_exact [OF amd64_converts, THEN conjunct2]
  have r: "reads_as (- (2 ^ (ibits KInt8 - 1))) (2 ^ (ibits KInt8 - 1)) (NFloat 0x4054000000000000) = Some 80"
    "reads_as (- (2 ^ (ibits KInt8 - 1))) (2 ^ (ibits KInt8 - 1)) (NInt 200) = None"
    "reads_as 0 (2 ^ ibits KInt8) (NInt 200) = Some 200" by code_simp+
  show ?thesis unfolding x number_of_prim andThen_ret option.case r by (simp add: amd64_converts ret_def fail_def)
qed



text \<open>A runtime with one instance on which every call returns zero, and a map of a document on it.\<close>

definition idle_module :: "unit api_module" where
  "idle_module = \<lparr>ExportedFunction = (\<lambda>_. True), fn_Call = (\<lambda>_ _ w. (Inr [0], w)), Memory_Write = (\<lambda>_ _ w. Some w),
     Memory_Read = (\<lambda>_ _ _. None), mod_Close = (\<lambda>w. (None, w))\<rparr>"

definition idle_runtime :: "unit wazero_runtime" where
  "idle_runtime = \<lparr>rt_wasi = None, rt_compile = None, rt_instantiate = (\<lambda>_ _. Inr ()), rt_module = idle_module, rt_open = (\<lambda>_. True)\<rparr>"

definition idle_prog :: "unit prog" where
  "idle_prog = prog_start\<lparr>p_world := (p_world prog_start)\<lparr>instances := [1 \<mapsto> ()]\<rparr>,
     p_docs := [0 \<mapsto> \<lparr>doc_b = 1, doc_held = False, doc_closed = False\<rparr>], p_maps := [1 \<mapsto> map_at 0 0], p_next := 2\<rparr>"

definition idle_value :: Value where
  "idle_value = \<lparr>value_doc = Some 0, value_kind = KindMap, value_val = VMapRef 1\<rparr>"

lemma idle_values: "Map_Values idle_runtime 1 idle_prog = (Ok [], idle_prog)"
  by (simp add: Map_Values_def Map_Values_at_def read_map_def idle_prog_def map_at_def andThen_def the_doc_def with_lock_def
      deferred_def on_b_def on_world_def on_inst_def ObjKeys_def fetch_def call0_def call_def idle_runtime_def idle_module_def
      ret_def set_held_def prog_start_def lift_def fun_upd_idem Let_def u32_def)


end
