(* ===== verification/BackendSpecText.thy ===== *)
theory BackendSpecText
  imports BackendSpec
begin

text \<open>
  The specifications of the other methods of the backend, in the manner of \<open>BackendSpec\<close>: the
  actor, marks, blocks and cursors of a text, the entries and handles of objects, single changes
  and the sync protocol.
\<close>

section \<open>The actor\<close>

definition spec_SetActorID :: "('d, 'o, 's) automerge \<Rightarrow> string \<Rightarrow> (('d, 'o, 's) guest, unit) comp" where
  "spec_SetActorID C s = answered
     (if s = [] then reply (- 1) else if \<not> utf8_valid (str_bytes s) \<or> odd (length s) then reply (- 3)
      else (case hex_to_bytes (str_bytes s) of
          None \<Rightarrow> trap
        | Some None \<Rightarrow> reply (- 3)
        | Some (Some b) \<Rightarrow> with_doc_mut (\<lambda>d. ((), c_set_actor C b d)) (\<lambda>_. reply 0) (- 2)))
     (status ''automerge: am_set_actor failed: %d'')"

lemma refines_SetActorID: "length s \<le> unat N \<Longrightarrow> refines A N (SetActorID (guest_module C A) s) (spec_SetActorID C s)"
  unfolding SetActorID_def spec_SetActorID_def
  by (rule refines_bytes, simp, rule runs_expect0)
    (auto simp: exported_as_def exports_def am_set_actor_def with_utf8_holds dest: holds_at_null
      intro!: memoryless_intros calm_intros split: option.splits)

section \<open>Marks, blocks and cursors\<close>

definition mark_text ::
  "('d, 'o, 's) automerge \<Rightarrow> ObjHandle \<Rightarrow> string \<Rightarrow> byte \<Rightarrow> bool \<Rightarrow> ('o \<Rightarrow> 'd \<Rightarrow> (string + unit) \<times> 'd) \<Rightarrow> ('d, 'o, 's) export" where
  "mark_text C h name expand ok f = resolve_obj C h (\<lambda>ob.
     if name = [] \<or> \<not> utf8_valid (str_bytes name) \<or> \<not> ok \<or> 3 < expand then reply (- 1)
     else mutate_msg (f ob) (- 2) (- 3)) (- 4)"

lemma mark_text_intros [memoryless_intros, calm_intros]:
  "memoryless (mark_text C h name expand ok f)" "calm H (mark_text C h name expand ok f)"
  unfolding mark_text_def by (auto intro!: memoryless_intros calm_intros)

definition spec_Mark ::
  "('d, 'o, 's) automerge \<Rightarrow> ObjHandle \<Rightarrow> string \<Rightarrow> string \<Rightarrow> uint64 \<Rightarrow> uint64 \<Rightarrow> byte \<Rightarrow> (('d, 'o, 's) guest, unit) comp" where
  "spec_Mark C h name val start stop expand = answered_msg
     (mark_text C h name expand (utf8_valid (str_bytes val))
       (\<lambda>ob. c_mark C ob name val (seq_at start) (seq_at stop) expand))
     (status ''automerge: am_mark failed: %d'')"

definition spec_Unmark ::
  "('d, 'o, 's) automerge \<Rightarrow> ObjHandle \<Rightarrow> string \<Rightarrow> uint64 \<Rightarrow> uint64 \<Rightarrow> byte \<Rightarrow> (('d, 'o, 's) guest, unit) comp" where
  "spec_Unmark C h name start stop expand = answered_msg
     (mark_text C h name expand True (\<lambda>ob. c_unmark C ob name (seq_at start) (seq_at stop) expand))
     (status ''automerge: am_unmark failed: %d'')"

lemma am_mark_holds:
  assumes "holds_at g np nn (str_bytes name)" and "holds_at g vp vn (str_bytes val)"
  shows "am_mark C h np nn vp vn (u32 start) (u32 stop) expand g =
    mark_text C h name expand (utf8_valid (str_bytes val))
      (\<lambda>ob. c_mark C ob name val (seq_at start) (seq_at stop) expand) g"
  using holds_at_null [OF assms(1)]
  by (auto simp: am_mark_def mark_text_def resolve_obj_def with_utf8_holds [OF assms(1)]
      with_opt_slice_holds [OF assms(2)] seq_at_def reply_def split: option.split)

lemma am_unmark_holds:
  assumes "holds_at g np nn (str_bytes name)"
  shows "am_unmark C h np nn (u32 start) (u32 stop) expand g =
    mark_text C h name expand True (\<lambda>ob. c_unmark C ob name (seq_at start) (seq_at stop) expand) g"
  using holds_at_null [OF assms]
  by (auto simp: am_unmark_def mark_text_def resolve_obj_def with_utf8_holds [OF assms] seq_at_def reply_def split: option.split)

lemma refines_Unmark:
  "length name \<le> unat N \<Longrightarrow> refines A N (Unmark (guest_module C A) h name start stop expand) (spec_Unmark C h name start stop expand)"
  unfolding Unmark_def spec_Unmark_def
  by (rule refines_bytes, simp, rule runs_expect0_msg)
    (auto simp: exported_as_def exports_def am_unmark_holds ucast_up_ucast_id is_up intro!: mark_text_intros)

lemma refines_Mark:
  assumes "length name \<le> unat N" and "length val \<le> unat N"
  shows "refines A N (Mark (guest_module C A) h name val start stop expand) (spec_Mark C h name val start stop expand)"
  unfolding Mark_def
proof (rule refines_bytes)
  have len: "length (str_bytes name) \<le> unat N" "length (str_bytes val) \<le> unat N" using assms by simp_all
  show "length (str_bytes name) \<le> unat N" by (rule len(1))
  let ?k = "mark_text C h name expand (utf8_valid (str_bytes val))
      (\<lambda>ob. c_mark C ob name val (seq_at start) (seq_at stop) expand)"
  fix np nn and g :: "('a, 'b, 'c) guest" assume g: "shim_sound g" "holds_at g np nn (str_bytes name)"
  show "runs g (withBytes (guest_module C A) (str_bytes val) (\<lambda>vp vn. expect0_msg (guest_module C A) ''am_mark''
       [u64 h, u64 np, u64 nn, u64 vp, u64 vn, start, stop, ucast expand] ''automerge: am_mark failed: %d''))
     (as_spec A N 1 (spec_Mark C h name val start stop expand (core g)) g)"
    unfolding spec_Mark_def
  proof (rule runs_bytes [OF g(1) len(2)], simp, rule runs_expect0_msg)
    fix vp vn and g' :: "('a, 'b, 'c) guest" assume g': "extends g g'" "holds_at g' vp vn (str_bytes val)"
    show "exported_as C A ''am_mark'' [u64 h, u64 np, u64 nn, u64 vp, u64 vn, start, stop, ucast expand] ?k g'"
      using am_mark_holds [OF extends_holds [OF g'(1) g(2)] g'(2), of C h start stop expand]
      by (simp add: exported_as_def exports_def ucast_up_ucast_id is_up)
  qed (auto intro!: mark_text_intros)
qed

definition block_outcome :: "string \<Rightarrow> uint32 \<Rightarrow> ObjHandle outcome" where
  "block_outcome fmt r = (if sint r < 0 then Error (rc_error fmt (sint r)) else Ok r)"

definition at_block :: "('d, 'o, 's) automerge \<Rightarrow> ObjHandle \<Rightarrow> ('o \<Rightarrow> 'd \<Rightarrow> (string + 'o) \<times> 'd) \<Rightarrow> ('d, 'o, 's) export" where
  "at_block C h f = resolve_obj C h (\<lambda>ob. block_reply C (f ob)) (- 4)"

lemma at_block_intros [memoryless_intros, calm_intros]: "memoryless (at_block C h f)" "calm H (at_block C h f)"
  unfolding at_block_def block_reply_def by (auto intro!: memoryless_intros calm_intros split: sum.splits)

definition spec_SplitBlock :: "('d, 'o, 's) automerge \<Rightarrow> ObjHandle \<Rightarrow> uint64 \<Rightarrow> (('d, 'o, 's) guest, ObjHandle) comp" where
  "spec_SplitBlock C h i = answered_msg (at_block C h (\<lambda>ob. c_split_block C ob (seq_at i)))
     (block_outcome ''automerge: am_split_block failed: %d'')"

definition spec_ReplaceBlock :: "('d, 'o, 's) automerge \<Rightarrow> ObjHandle \<Rightarrow> uint64 \<Rightarrow> (('d, 'o, 's) guest, ObjHandle) comp" where
  "spec_ReplaceBlock C h i = answered_msg (at_block C h (\<lambda>ob. c_replace_block C ob (seq_at i)))
     (block_outcome ''automerge: am_replace_block failed: %d'')"

definition spec_JoinBlock :: "('d, 'o, 's) automerge \<Rightarrow> ObjHandle \<Rightarrow> uint64 \<Rightarrow> (('d, 'o, 's) guest, unit) comp" where
  "spec_JoinBlock C h i = answered_msg (resolve_obj C h (\<lambda>ob. mutate_msg (c_join_block C ob (seq_at i)) (- 2) (- 3)) (- 4))
     (status ''automerge: am_join_block failed: %d'')"

lemma refines_blocks:
  "refines A N (SplitBlock (guest_module C A) h i) (spec_SplitBlock C h i)"
  "refines A N (ReplaceBlock (guest_module C A) h i) (spec_ReplaceBlock C h i)"
  unfolding SplitBlock_def ReplaceBlock_def spec_SplitBlock_def spec_ReplaceBlock_def block_call_def
  by (rule refinesI, rule runs_answered_msg, auto simp: exported_as_def exports_def am_split_block_def am_replace_block_def
      at_block_def [symmetric] seq_at_def block_outcome_def ret_lift intro!: at_block_intros)+

lemma refines_JoinBlock: "refines A N (JoinBlock (guest_module C A) h i) (spec_JoinBlock C h i)"
  unfolding JoinBlock_def spec_JoinBlock_def
  by (rule refinesI, rule runs_expect0_msg)
    (auto simp: exported_as_def exports_def am_join_block_def seq_at_def intro!: memoryless_intros calm_intros)

definition cursor_at :: "('d, 'o, 's) automerge \<Rightarrow> ObjHandle \<Rightarrow> uint64 \<Rightarrow> ('d, 'o, 's) export" where
  "cursor_at C h i = at_obj C h (\<lambda>ob d. case c_get_cursor C ob (seq_at i) d of
     Some s \<Rightarrow> prepare (str_bytes s) | None \<Rightarrow> reply (- 2)) (- 3) (- 1)"

definition spec_GetCursor :: "('d, 'o, 's) automerge \<Rightarrow> ObjHandle \<Rightarrow> uint64 \<Rightarrow> (('d, 'o, 's) guest, string) comp" where
  "spec_GetCursor C h i = (\<lambda>c. case cursor_at C h i c of
     (None, c') \<Rightarrow> (Error trap_error, c')
   | (Some r, c') \<Rightarrow> (if sint r < 0 then Error (rc_error ''automerge: am_get_cursor failed: %d'' (sint r))
       else Ok (bytes_str (g_return_buf c')), c'))"

lemma cursor_at_intros:
  "memoryless (cursor_at C h i)" "calm H (cursor_at C h i)" "announces (\<lambda>r. sint r < 0) (cursor_at C h i)"
  unfolding cursor_at_def by (auto intro!: memoryless_intros calm_intros announces_intros split: option.splits)

lemma refines_GetCursor: "refines A N (GetCursor (guest_module C A) h i) (spec_GetCursor C h i)"
  unfolding GetCursor_def
proof (rule refinesI, rule runs_after_call [where k = "cursor_at C h i"])
  fix a and g g' c :: "('a, 'b, 'c) guest"
  assume a: "cursor_at C h i (core g) = (Some a, c)" and g': "shim_sound g'" "core g' = core c" "g_blocks g' = g_blocks g"
  let ?Q = "as_spec A N 0 (spec_GetCursor C h i (core g)) g"
  show "runs g' (let cursorLen = i32 (u64 a) in
      if cursorLen < 0 then fail (rc_error ''automerge: am_get_cursor failed: %d'' cursorLen)
      else withAlloc (guest_module C A) (word_of_int cursorLen) (\<lambda>ptr.
        andThen (call (guest_module C A) ''am_get_cursor_str'' [u64 ptr]) (\<lambda>_.
        andThen (readBytes (guest_module C A) ptr (word_of_int cursorLen)) (\<lambda>data. ret (bytes_str data))))) ?Q"
  proof (cases "sint a < 0")
    case True
    then show ?thesis using a g' by (auto simp: as_spec_def spec_GetCursor_def intro!: runs_fail)
  next
    case False
    then have "unat a = length (g_return_buf c)"
      using cursor_at_intros(3) [of C h i] a by (auto simp: announces_def)
    then have "a = word_of_nat (length (g_return_buf c))" by (metis of_nat_unat ucast_id)
    then have "runs g' (withAlloc (guest_module C A) a (\<lambda>ptr.
        andThen (call (guest_module C A) ''am_get_cursor_str'' [u64 ptr]) (\<lambda>_.
        andThen (readBytes (guest_module C A) ptr a) (\<lambda>data. ret (bytes_str data))))) ?Q"
      by (intro runs_read_buf [OF g']) (use a False in \<open>auto simp: exported_as_def exports_def spec_GetCursor_def\<close>)
    then show ?thesis using False by simp
  qed
qed (auto simp: exported_as_def exports_def cursor_at_def am_get_cursor_def at_obj_def seq_at_def as_spec_def spec_GetCursor_def
    intro!: cursor_at_intros [unfolded cursor_at_def at_obj_def seq_at_def] split: prod.splits)

definition spec_LookupCursor :: "('d, 'o, 's) automerge \<Rightarrow> ObjHandle \<Rightarrow> string \<Rightarrow> (('d, 'o, 's) guest, uint64) comp" where
  "spec_LookupCursor C h s = answered (resolve_obj C h (\<lambda>ob.
       if s = [] \<or> \<not> utf8_valid (str_bytes s) then reply (- 2)
       else with_doc (\<lambda>d. case c_cursor_position C ob s d of
         Some i \<Rightarrow> reply (word_of_nat i) | None \<Rightarrow> reply (- 2)) (- 3)) (- 1))
     (\<lambda>r. if sint r < 0 then Error (rc_error ''automerge: am_lookup_cursor failed: %d'' (sint r)) else Ok (word_of_int (sint r)))"

lemma refines_LookupCursor: "length s \<le> unat N \<Longrightarrow> refines A N (LookupCursor (guest_module C A) h s) (spec_LookupCursor C h s)"
  unfolding LookupCursor_def spec_LookupCursor_def
proof (rule refines_bytes, simp, rule runs_answered)
  fix p n and g :: "('a, 'b, 'c) guest" assume g: "holds_at g p n (str_bytes s)"
  show "exported_as C A ''am_lookup_cursor'' [u64 h, u64 p, u64 n] (resolve_obj C h (\<lambda>ob.
       if s = [] \<or> \<not> utf8_valid (str_bytes s) then reply (- 2)
       else with_doc (\<lambda>d. case c_cursor_position C ob s d of
         Some i \<Rightarrow> reply (word_of_nat i) | None \<Rightarrow> reply (- 2)) (- 3)) (- 1)) g"
    using holds_at_null [OF g]
    by (auto simp: exported_as_def exports_def am_lookup_cursor_def resolve_obj_def with_utf8_holds [OF g] split: option.split)
qed (auto simp: ret_lift fail_lift i32_def u64_def ucast_up_ucast_id is_up intro!: memoryless_intros calm_intros split: option.splits)

end
