(* ===== verification/BackendSpecSync.thy ===== *)
theory BackendSpecSync
  imports BackendSpecText
begin

text \<open>
  The specifications of the methods on the entries and handles of objects, on single changes and
  of the sync protocol.
\<close>

section \<open>Entries and handles of objects\<close>

definition spec_ObjItems :: "('d, 'o, 's) automerge \<Rightarrow> ObjHandle \<Rightarrow> (('d, 'o, 's) guest, BackendValue list) comp" where
  "spec_ObjItems C h = fetched (am_obj_items_len C h) (Ok []) DecodeValueList"

definition spec_ObjFree :: "ObjHandle \<Rightarrow> (('d, 'o, 's) guest, unit) comp" where
  "spec_ObjFree h = (\<lambda>c. (Ok (), c\<lparr>g_table := table_remove h (g_table c)\<rparr>))"

lemma prepare_with_core: "prepare b (with_core g c) = apsnd (with_core g) (prepare b c)"
  by (rule memoryless_prepare [unfolded memoryless_def, rule_format])

lemma memoryless_obj_exports [memoryless_intros]: "memoryless (am_obj_items_len C h)" "memoryless (am_obj_free h)"
proof -
  have "memoryless (\<lambda>g. case collect_items C d ob ps (g_table g) of (b, t) \<Rightarrow> prepare b (g\<lparr>g_table := t\<rparr>))" for ob d ps
    by (simp add: memoryless_def with_core_update prepare_with_core split: prod.split)
  then show "memoryless (am_obj_items_len C h)" unfolding am_obj_items_len_def by (intro memoryless_intros)
qed (simp add: memoryless_def am_obj_free_def reply_def with_core_update)

lemma refines_ObjItems: "refines A N (ObjItems (guest_module C A) h) (spec_ObjItems C h)"
  unfolding ObjItems_def spec_ObjItems_def
  by (rule refinesI, rule runs_fetch)
    (auto simp: exported_as_def exports_def ret_lift announces_am_obj_items_len intro!: memoryless_intros calm_intros)

lemma refines_ObjFree: "refines A N (ObjFree (guest_module C A) h) (spec_ObjFree h)"
proof (cases "h = 0")
  case True
  then show ?thesis
    by (auto simp: ObjFree_def RootObjHandle_def spec_ObjFree_def table_remove_def as_spec_def intro!: refinesI runs_ret)
next
  case False
  have s: "spec_ObjFree h = answered (am_obj_free h) (status ''automerge: am_obj_free failed: %d'')"
    using False by (auto simp: spec_ObjFree_def answered_def am_obj_free_def status_def)
  have "refines A N (expect0 (guest_module C A) ''am_obj_free'' [u64 h] ''automerge: am_obj_free failed: %d'') (spec_ObjFree h)"
    unfolding s by (rule refinesI, rule runs_expect0)
      (auto simp: exported_as_def exports_def intro!: memoryless_intros calm_intros)
  then show ?thesis using False by (simp add: ObjFree_def RootObjHandle_def)
qed

section \<open>Single changes\<close>

definition change_by_hash :: "('d, 'o, 's) automerge \<Rightarrow> ChangeHash \<Rightarrow> ('d, 'o, 's) export" where
  "change_by_hash C h = with_doc_mut (c_change_by_hash C h) (\<lambda>r. case r of Some raw \<Rightarrow> prepare raw | None \<Rightarrow> reply 0) 0"

lemma change_by_hash_intros:
  "memoryless (change_by_hash C h)" "calm H (change_by_hash C h)" "announces ((=) 0) (change_by_hash C h)"
  unfolding change_by_hash_def by (auto intro!: memoryless_intros calm_intros announces_intros split: option.splits)

definition spec_GetChangeByHash :: "('d, 'o, 's) automerge \<Rightarrow> ChangeHash \<Rightarrow> (('d, 'o, 's) guest, bytes option) comp" where
  "spec_GetChangeByHash C h = fetched (change_by_hash C h) (Ok None) (\<lambda>data. Ok (Some data))"

lemma refines_GetChangeByHash:
  assumes "wf_hash h" and "32 \<le> unat N"
  shows "refines A N (GetChangeByHash (guest_module C A) h) (spec_GetChangeByHash C h)"
  unfolding GetChangeByHash_def spec_GetChangeByHash_def
proof (rule refines_bytes, goal_cases)
  case 1
  then show ?case using assms by (simp add: wf_hash_def)
next
  case (2 p n g)
  have len: "length h = 32" "h \<noteq> []" using assms by (auto simp: wf_hash_def)
  have "am_get_change_by_hash_len C p g = change_by_hash C h g"
    using holds_at_null [OF 2(2)] with_slice_holds [OF 2(2) len(2)] len
    by (simp add: am_get_change_by_hash_len_def change_by_hash_def)
  then show ?case
    by (intro runs_fetch 2(1)) (auto simp: exported_as_def exports_def ret_lift intro!: change_by_hash_intros)
qed

section \<open>The sync protocol\<close>

lemma with_core_sync [simp]: "g_sync (with_core g c) = g_sync c" "g_next_peer (with_core g c) = g_next_peer c"
  by (simp_all add: with_core_def)

definition sync_step ::
  "uint32 \<Rightarrow> uint32 \<Rightarrow> uint32 \<Rightarrow> ('s \<Rightarrow> 'd \<Rightarrow> 'r \<times> 's \<times> 'd) \<Rightarrow> ('r \<Rightarrow> ('d, 'o, 's) export) \<Rightarrow> ('d, 'o, 's) export" where
  "sync_step peer no_peer no_doc f k = (\<lambda>g. case g_sync g peer of
     None \<Rightarrow> (Some no_peer, g)
   | Some st \<Rightarrow> (case g_doc g of
       None \<Rightarrow> (Some no_doc, g)
     | Some d \<Rightarrow> (case f st d of (r, st', d') \<Rightarrow> k r (g\<lparr>g_sync := (g_sync g)(peer \<mapsto> st'), g_doc := Some d'\<rparr>))))"

lemma memoryless_sync_step [memoryless_intros]: "(\<And>r. memoryless (k r)) \<Longrightarrow> memoryless (sync_step peer a b f k)"
  by (simp add: memoryless_def sync_step_def with_core_update split: option.splits prod.splits)

lemma calm_sync_step [calm_intros]: "(\<And>r. calm H (k r)) \<Longrightarrow> calm H (sync_step peer a b f k)"
  by (auto simp: sync_step_def calm_def split: option.splits prod.splits)

definition gen_message :: "('d, 'o, 's) automerge \<Rightarrow> uint32 \<Rightarrow> ('d, 'o, 's) export" where
  "gen_message C peer = sync_step peer 0 0 (c_sync_generate C) (\<lambda>m. case m of Some msg \<Rightarrow> prepare msg | None \<Rightarrow> reply 0)"

definition receive_message :: "('d, 'o, 's) automerge \<Rightarrow> uint32 \<Rightarrow> bytes \<Rightarrow> ('d, 'o, 's) export" where
  "receive_message C peer msg = (if \<not> c_sync_decodable C msg then reply (- 5)
     else sync_step peer (- 3) (- 2) (c_sync_receive C msg) (\<lambda>r. case r of Inl _ \<Rightarrow> reply (- 5) | Inr _ \<Rightarrow> reply 0))"

lemma sync_exports:
  "am_sync_gen_len C peer = gen_message C peer"
  "holds_at g p n msg \<Longrightarrow> am_sync_recv C peer p n g = given msg (- 1) (receive_message C peer msg) g"
  "holds_at g p n b \<Longrightarrow> am_sync_state_load C p n g =
     given b 0 (case c_sync_decode C b of None \<Rightarrow> reply 0 | Some st \<Rightarrow> add_peer st) g"
  by (simp add: am_sync_gen_len_def gen_message_def sync_step_def)
    (simp_all add: am_sync_recv_def am_sync_state_load_def receive_message_def sync_step_def given_holds)

lemma sync_intros:
  "memoryless (gen_message C peer)" "calm H (gen_message C peer)"
  "memoryless (receive_message C peer msg)" "calm H (receive_message C peer msg)"
  unfolding gen_message_def receive_message_def
  by (auto intro!: memoryless_intros calm_intros split: option.splits sum.splits)

definition spec_SyncInit :: "('d, 'o, 's) automerge \<Rightarrow> (('d, 'o, 's) guest, uint32) comp" where
  "spec_SyncInit C = answered (add_peer (c_sync_new C))
     (\<lambda>r. if r = 0 then Error (Errorf ''automerge: am_sync_state_init failed'' []) else Ok r)"

definition spec_SyncFree :: "uint32 \<Rightarrow> (('d, 'o, 's) guest, unit) comp" where
  "spec_SyncFree peer = answered (am_sync_state_free peer) (status ''automerge: am_sync_state_free failed: %d'')"

definition spec_SyncGenerateMessage :: "('d, 'o, 's) automerge \<Rightarrow> uint32 \<Rightarrow> (('d, 'o, 's) guest, bytes \<times> bool) comp" where
  "spec_SyncGenerateMessage C peer = fetched (gen_message C peer) (Ok ([], False)) (\<lambda>data. Ok (data, True))"

definition spec_SyncReceiveMessage :: "('d, 'o, 's) automerge \<Rightarrow> uint32 \<Rightarrow> bytes \<Rightarrow> (('d, 'o, 's) guest, unit) comp" where
  "spec_SyncReceiveMessage C peer msg = answered (given msg (- 1) (receive_message C peer msg))
     (status ''automerge: am_sync_recv failed: %d'')"

definition spec_SyncSave :: "('d, 'o, 's) automerge \<Rightarrow> uint32 \<Rightarrow> (('d, 'o, 's) guest, bytes) comp" where
  "spec_SyncSave C peer = fetched (am_sync_state_save_len C peer) (Ok []) Ok"

definition spec_SyncLoad :: "('d, 'o, 's) automerge \<Rightarrow> bytes \<Rightarrow> (('d, 'o, 's) guest, uint32) comp" where
  "spec_SyncLoad C b = answered (given b 0 (case c_sync_decode C b of None \<Rightarrow> reply 0 | Some st \<Rightarrow> add_peer st))
     (\<lambda>r. if r = 0 then Error (Errorf ''automerge: am_sync_state_load failed'' []) else Ok r)"

lemma memoryless_peer [memoryless_intros]:
  "memoryless (add_peer st)" "memoryless (am_sync_state_free peer)" "memoryless (am_sync_state_save_len C peer)"
  by (simp_all add: memoryless_def add_peer_def am_sync_state_free_def am_sync_state_save_len_def with_core_update
      prepare_with_core split: option.splits)

lemma refines_SyncInit: "refines A N (SyncInit (guest_module C A)) (spec_SyncInit C)"
  unfolding SyncInit_def spec_SyncInit_def
  by (rule refinesI, rule runs_answered)
    (auto simp: exported_as_def exports_def am_sync_state_init_def ret_lift fail_lift intro!: memoryless_intros calm_intros)

lemma refines_SyncFree: "refines A N (SyncFree (guest_module C A) peer) (spec_SyncFree peer)"
  unfolding SyncFree_def spec_SyncFree_def
  by (rule refinesI, rule runs_expect0) (auto simp: exported_as_def exports_def intro!: memoryless_intros calm_intros)

lemma refines_SyncReceiveMessage:
  "length msg \<le> unat N \<Longrightarrow> refines A N (SyncReceiveMessage (guest_module C A) peer msg) (spec_SyncReceiveMessage C peer msg)"
  unfolding SyncReceiveMessage_def spec_SyncReceiveMessage_def
  by (rule refines_bytes, assumption, rule runs_expect0)
    (auto simp: exported_as_def exports_def sync_exports intro!: given_intros sync_intros)

lemma refines_SyncLoad: "length b \<le> unat N \<Longrightarrow> refines A N (SyncLoad (guest_module C A) b) (spec_SyncLoad C b)"
  unfolding SyncLoad_def spec_SyncLoad_def
  by (rule refines_bytes, assumption, rule runs_answered)
    (auto simp: exported_as_def exports_def sync_exports ret_lift fail_lift
      intro!: given_intros memoryless_intros calm_intros split: option.splits)

lemma announces_sync_save: "announces ((=) 0) (am_sync_state_save_len C peer)"
  by (auto simp: announces_def am_sync_state_save_len_def split: option.splits
      dest: announces_prepare [unfolded announces_def, rule_format])

lemma refines_SyncSave: "refines A N (SyncSave (guest_module C A) peer) (spec_SyncSave C peer)"
  unfolding SyncSave_def spec_SyncSave_def
  by (rule refinesI, rule runs_fetch)
    (auto simp: exported_as_def exports_def ret_lift announces_sync_save intro!: memoryless_intros calm_intros)

lemma refines_SyncGenerateMessage:
  "refines A N (SyncGenerateMessage (guest_module C A) peer) (spec_SyncGenerateMessage C peer)"
proof -
  have "fills C A ''am_sync_gen'' [u64 peer, u64 p] p (g_return_buf c) g'"
    if "g_return_buf c \<noteq> []" "p \<noteq> 0" "core g' = core c" for p and c g' :: "('a, 'b, 'c) guest"
    using core_eq_fields [OF that(3)] that(1,2) exported_as_call [of C A "''am_sync_gen''" "[u64 peer, u64 p]" "am_sync_gen p" g']
    by (simp add: fills_def exported_as_def exports_def am_sync_gen_def copy_return_buf_def reply_def)
  then show ?thesis
    unfolding SyncGenerateMessage_def spec_SyncGenerateMessage_def
    by (intro refinesI runs_two_phase [where get = "''am_sync_gen''" and gps = "\<lambda>p. [u64 peer, u64 p]"])
      (auto simp: exported_as_def exports_def ret_lift call0_def andThen_def lift_def i32_def readBytes_def sync_exports(1)
        announces_am_sync_gen_len [unfolded sync_exports(1)] intro!: sync_intros split: option.splits)
qed

end
