(* ===== verification/BackendSim.thy ===== *)
theory BackendSim
  imports BackendSpecSync
begin

text \<open>
  The backend as a whole against its specification: a client that makes any sequence of calls
  sees results that the specification allows, and the guest ends in a state that the
  specification allows, whatever the allocator of the guest does.
\<close>

section \<open>Simulations\<close>

text \<open>A run of an implementation, and a trace of a specification given as a step relation.\<close>

fun run_all :: "('op \<Rightarrow> 'w \<Rightarrow> 'r \<times> 'w) \<Rightarrow> 'op list \<Rightarrow> 'w \<Rightarrow> 'r list \<times> 'w" where
  "run_all exec [] w = ([], w)"
| "run_all exec (op # ops) w = (case exec op w of (r, w') \<Rightarrow>
     (case run_all exec ops w' of (rs, w'') \<Rightarrow> (r # rs, w'')))"

inductive trace :: "('c \<Rightarrow> 'op \<Rightarrow> 'r \<Rightarrow> 'c \<Rightarrow> bool) \<Rightarrow> 'c \<Rightarrow> 'op list \<Rightarrow> 'r list \<Rightarrow> 'c \<Rightarrow> bool"
  for step where
  trace_Nil: "trace step c [] [] c"
| trace_Cons: "step c op r c' \<Longrightarrow> trace step c' ops rs c'' \<Longrightarrow> trace step c (op # ops) (r # rs) c''"

inductive_simps trace_simps [simp]: "trace step c [] rs c'" "trace step c (op # ops) rs c'"

locale simulation =
  fixes exec :: "'op \<Rightarrow> 'w \<Rightarrow> 'r \<times> 'w" and step :: "'c \<Rightarrow> 'op \<Rightarrow> 'r \<Rightarrow> 'c \<Rightarrow> bool"
    and sound :: "'w \<Rightarrow> bool" and abs :: "'w \<Rightarrow> 'c" and allowed :: "'op \<Rightarrow> bool"
  assumes simulates: "allowed op \<Longrightarrow> sound w \<Longrightarrow> exec op w = (r, w') \<Longrightarrow> sound w' \<and> step (abs w) op r (abs w')"
begin

lemma run_traced:
  "list_all allowed ops \<Longrightarrow> sound w \<Longrightarrow> run_all exec ops w = (rs, w') \<Longrightarrow> sound w' \<and> trace step (abs w) ops rs (abs w')"
proof (induction ops arbitrary: w rs)
  case (Cons op ops)
  obtain r w1 where 1: "exec op w = (r, w1)" by (cases "exec op w")
  obtain rs' where 2: "run_all exec ops w1 = (rs', w')" "rs = r # rs'"
    using Cons.prems(3) 1 by (auto split: prod.splits)
  from simulates [OF _ Cons.prems(2) 1] Cons.prems(1) have "sound w1" "step (abs w) op r (abs w1)" by auto
  then show ?case using Cons.IH [OF _ _ 2(1)] Cons.prems(1) 2(2) by (auto intro: trace_Cons)
qed simp

end

section \<open>The calls with their results\<close>

datatype (plugins only: code) op_result =
    ResUnit unit | ResBytes bytes | ResString string | ResValue BackendValue | ResHandle uint32 | ResSize uint64
  | ResKind Kind | ResStrings "string list" | ResValues "BackendValue list" | ResHash ChangeHash
  | ResHashes "ChangeHash list" | ResChanges "bytes list" | ResChange "bytes option" | ResInfo ChangeInfo
  | ResMessage "bytes \<times> bool"

definition mapResult :: "('a \<Rightarrow> 'b) \<Rightarrow> ('w, 'a) comp \<Rightarrow> ('w, 'b) comp" where
  "mapResult f m = (\<lambda>w. apfst (map_outcome_of f) (m w))"

fun call_op :: "'w api_module \<Rightarrow> backend_op \<Rightarrow> ('w, op_result) comp" where
  "call_op M OpSave = mapResult ResBytes (Save M)"
| "call_op M OpGetActorID = mapResult ResString (GetActorID M)"
| "call_op M (OpSetActorID a) = mapResult ResUnit (SetActorID M a)"
| "call_op M (OpMapGet a b) = mapResult ResValue (MapGet M a b)"
| "call_op M (OpMapPut a b c d) = mapResult ResHandle (MapPut M a b c d)"
| "call_op M (OpMapDelete a b) = mapResult ResUnit (MapDelete M a b)"
| "call_op M (OpMapIncrement a b c) = mapResult ResUnit (MapIncrement M a b c)"
| "call_op M (OpListGet a b) = mapResult ResValue (ListGet M a b)"
| "call_op M (OpListPut a b c d e) = mapResult ResHandle (ListPut M a b c d e)"
| "call_op M (OpListDelete a b) = mapResult ResUnit (ListDelete M a b)"
| "call_op M (OpListLen a) = mapResult ResSize (ListLen M a)"
| "call_op M (OpListIncrement a b c) = mapResult ResUnit (ListIncrement M a b c)"
| "call_op M (OpTextGet a) = mapResult ResString (TextGet M a)"
| "call_op M (OpTextSplice a b c d) = mapResult ResUnit (TextSplice M a b c d)"
| "call_op M (OpMark a b c d e f) = mapResult ResUnit (Mark M a b c d e f)"
| "call_op M (OpUnmark a b c d e) = mapResult ResUnit (Unmark M a b c d e)"
| "call_op M (OpMarks a) = mapResult ResString (Marks M a)"
| "call_op M (OpSpans a) = mapResult ResString (Spans M a)"
| "call_op M (OpSplitBlock a b) = mapResult ResHandle (SplitBlock M a b)"
| "call_op M (OpJoinBlock a b) = mapResult ResUnit (JoinBlock M a b)"
| "call_op M (OpReplaceBlock a b) = mapResult ResHandle (ReplaceBlock M a b)"
| "call_op M (OpGetCursor a b) = mapResult ResString (GetCursor M a b)"
| "call_op M (OpLookupCursor a b) = mapResult ResSize (LookupCursor M a b)"
| "call_op M (OpObjSize a) = mapResult ResSize (ObjSize M a)"
| "call_op M (OpObjType a) = mapResult ResKind (ObjType M a)"
| "call_op M (OpObjKeys a) = mapResult ResStrings (ObjKeys M a)"
| "call_op M (OpObjItems a) = mapResult ResValues (ObjItems M a)"
| "call_op M (OpObjFree a) = mapResult ResUnit (ObjFree M a)"
| "call_op M (OpCommit a b) = mapResult ResHash (Commit M a b)"
| "call_op M (OpEmptyChange a b) = mapResult ResHash (EmptyChange M a b)"
| "call_op M OpHeads = mapResult ResHashes (Heads M)"
| "call_op M (OpGetChanges a) = mapResult ResChanges (GetChanges M a)"
| "call_op M (OpGetChangeByHash a) = mapResult ResChange (GetChangeByHash M a)"
| "call_op M (OpApplyChanges a) = mapResult ResUnit (ApplyChanges M a)"
| "call_op M (OpGetChangeInfo a) = mapResult ResInfo (GetChangeInfo M a)"
| "call_op M OpSaveIncremental = mapResult ResBytes (SaveIncremental M)"
| "call_op M (OpLoadIncremental a) = mapResult ResUnit (LoadIncremental M a)"
| "call_op M (OpMerge a) = mapResult ResUnit (Merge M a)"
| "call_op M OpSyncInit = mapResult ResHandle (SyncInit M)"
| "call_op M (OpSyncFree a) = mapResult ResUnit (SyncFree M a)"
| "call_op M (OpSyncGenerateMessage a) = mapResult ResMessage (SyncGenerateMessage M a)"
| "call_op M (OpSyncReceiveMessage a b) = mapResult ResUnit (SyncReceiveMessage M a b)"
| "call_op M (OpSyncSave a) = mapResult ResBytes (SyncSave M a)"
| "call_op M (OpSyncLoad a) = mapResult ResHandle (SyncLoad M a)"

text \<open>The same calls on the document of the crate.\<close>

fun spec_op :: "('d, 'o, 's) automerge \<Rightarrow> backend_op \<Rightarrow> (('d, 'o, 's) guest, op_result) comp" where
  "spec_op C OpSave = mapResult ResBytes (spec_Save C)"
| "spec_op C OpGetActorID = mapResult ResString (spec_GetActorID C)"
| "spec_op C (OpSetActorID a) = mapResult ResUnit (spec_SetActorID C a)"
| "spec_op C (OpMapGet a b) = mapResult ResValue (spec_MapGet C a b)"
| "spec_op C (OpMapPut a b c d) = mapResult ResHandle (spec_MapPut C a b c d)"
| "spec_op C (OpMapDelete a b) = mapResult ResUnit (spec_MapDelete C a b)"
| "spec_op C (OpMapIncrement a b c) = mapResult ResUnit (spec_MapIncrement C a b c)"
| "spec_op C (OpListGet a b) = mapResult ResValue (spec_ListGet C a b)"
| "spec_op C (OpListPut a b c d e) = mapResult ResHandle (spec_ListPut C a b c d e)"
| "spec_op C (OpListDelete a b) = mapResult ResUnit (spec_ListDelete C a b)"
| "spec_op C (OpListLen a) = mapResult ResSize (spec_ObjSize C a)"
| "spec_op C (OpListIncrement a b c) = mapResult ResUnit (spec_ListIncrement C a b c)"
| "spec_op C (OpTextGet a) = mapResult ResString (spec_TextGet C a)"
| "spec_op C (OpTextSplice a b c d) = mapResult ResUnit (spec_TextSplice C a b c d)"
| "spec_op C (OpMark a b c d e f) = mapResult ResUnit (spec_Mark C a b c d e f)"
| "spec_op C (OpUnmark a b c d e) = mapResult ResUnit (spec_Unmark C a b c d e)"
| "spec_op C (OpMarks a) = mapResult ResString (spec_Marks C a)"
| "spec_op C (OpSpans a) = mapResult ResString (spec_Spans C a)"
| "spec_op C (OpSplitBlock a b) = mapResult ResHandle (spec_SplitBlock C a b)"
| "spec_op C (OpJoinBlock a b) = mapResult ResUnit (spec_JoinBlock C a b)"
| "spec_op C (OpReplaceBlock a b) = mapResult ResHandle (spec_ReplaceBlock C a b)"
| "spec_op C (OpGetCursor a b) = mapResult ResString (spec_GetCursor C a b)"
| "spec_op C (OpLookupCursor a b) = mapResult ResSize (spec_LookupCursor C a b)"
| "spec_op C (OpObjSize a) = mapResult ResSize (spec_ObjSize C a)"
| "spec_op C (OpObjType a) = mapResult ResKind (spec_ObjType C a)"
| "spec_op C (OpObjKeys a) = mapResult ResStrings (spec_ObjKeys C a)"
| "spec_op C (OpObjItems a) = mapResult ResValues (spec_ObjItems C a)"
| "spec_op C (OpObjFree a) = mapResult ResUnit (spec_ObjFree a)"
| "spec_op C (OpCommit a b) = mapResult ResHash (spec_Commit C a b)"
| "spec_op C (OpEmptyChange a b) = mapResult ResHash (spec_EmptyChange C a b)"
| "spec_op C OpHeads = mapResult ResHashes (spec_Heads C)"
| "spec_op C (OpGetChanges a) = mapResult ResChanges (spec_GetChanges C a)"
| "spec_op C (OpGetChangeByHash a) = mapResult ResChange (spec_GetChangeByHash C a)"
| "spec_op C (OpApplyChanges a) = mapResult ResUnit (spec_ApplyChanges C a)"
| "spec_op C (OpGetChangeInfo a) = mapResult ResInfo (spec_GetChangeInfo C a)"
| "spec_op C OpSaveIncremental = mapResult ResBytes (spec_SaveIncremental C)"
| "spec_op C (OpLoadIncremental a) = mapResult ResUnit (spec_LoadIncremental C a)"
| "spec_op C (OpMerge a) = mapResult ResUnit (spec_Merge C a)"
| "spec_op C OpSyncInit = mapResult ResHandle (spec_SyncInit C)"
| "spec_op C (OpSyncFree a) = mapResult ResUnit (spec_SyncFree a)"
| "spec_op C (OpSyncGenerateMessage a) = mapResult ResMessage (spec_SyncGenerateMessage C a)"
| "spec_op C (OpSyncReceiveMessage a b) = mapResult ResUnit (spec_SyncReceiveMessage C a b)"
| "spec_op C (OpSyncSave a) = mapResult ResBytes (spec_SyncSave C a)"
| "spec_op C (OpSyncLoad a) = mapResult ResHandle (spec_SyncLoad C a)"

text \<open>
  Calls whose byte slices and strings have up to \<open>N\<close> bytes each; \<open>N\<close> is below 4 GiB because
  sizes go to the guest as \<open>uint32\<close>. Hashes have 32 bytes by their Go type.
\<close>

fun sized_op :: "uint32 \<Rightarrow> backend_op \<Rightarrow> bool" where
  "sized_op N (OpSetActorID s) = (length s \<le> unat N)"
| "sized_op N (OpMapGet _ key) = (length key \<le> unat N)"
| "sized_op N (OpMapPut _ key _ payload) = (length key \<le> unat N \<and> length payload \<le> unat N)"
| "sized_op N (OpMapDelete _ key) = (length key \<le> unat N)"
| "sized_op N (OpMapIncrement _ key _) = (length key \<le> unat N)"
| "sized_op N (OpListPut _ _ _ _ payload) = (length payload \<le> unat N)"
| "sized_op N (OpTextSplice _ _ _ text) = (length text \<le> unat N)"
| "sized_op N (OpMark _ name val _ _ _) = (length name \<le> unat N \<and> length val \<le> unat N)"
| "sized_op N (OpUnmark _ name _ _ _) = (length name \<le> unat N)"
| "sized_op N (OpLookupCursor _ cursor) = (length cursor \<le> unat N)"
| "sized_op N (OpCommit msg _) = (length msg \<le> unat N)"
| "sized_op N (OpEmptyChange msg _) = (length msg \<le> unat N)"
| "sized_op N (OpGetChanges since) = (list_all wf_hash since \<and> length (EncodeChangeHashes since) \<le> unat N)"
| "sized_op N (OpGetChangeByHash h) = (wf_hash h \<and> length h \<le> unat N)"
| "sized_op N (OpApplyChanges changes) = (length (EncodeLengthPrefixedList changes) \<le> unat N)"
| "sized_op N (OpGetChangeInfo raw) = (length raw \<le> unat N)"
| "sized_op N (OpLoadIncremental data) = (length data \<le> unat N)"
| "sized_op N (OpMerge data) = (length data \<le> unat N)"
| "sized_op N (OpSyncReceiveMessage _ msg) = (length msg \<le> unat N)"
| "sized_op N (OpSyncLoad data) = (length data \<le> unat N)"
| "sized_op N _ = True"

text \<open>
  A step of the specification. The call does what the crate does. If the allocator is not roomy
  for \<open>N\<close>, or the answer is larger than \<open>N\<close>, then three more things may happen: the guest has no
  room for the bytes of the call, and nothing is done; it has none for the answer, which is lost
  after the crate has done its work; or it has none for the message of the guest, and the call
  reports an error of its own instead.
\<close>

inductive spec_step ::
  "('d, 'o, 's) automerge \<Rightarrow> allocator \<Rightarrow> uint32 \<Rightarrow> ('d, 'o, 's) guest \<Rightarrow> backend_op \<Rightarrow> op_result outcome \<Rightarrow>
   ('d, 'o, 's) guest \<Rightarrow> bool"
  for C A N where
  answered_step: "spec_op C op c = (r, c') \<Longrightarrow> spec_step C A N c op r (core c')"
| no_room_before: "spec_op C op c = (r, c') \<Longrightarrow> \<not> (roomy A N \<and> small N c') \<Longrightarrow> spec_step C A N c op (Error (alloc_null n)) c"
| no_room_after: "spec_op C op c = (r, c') \<Longrightarrow> \<not> (roomy A N \<and> small N c') \<Longrightarrow>
    spec_step C A N c op (Error (alloc_null n)) (core c')"
| message_lost: "spec_op C op c = (Error (guest_message m), c') \<Longrightarrow> \<not> (roomy A N \<and> small N c') \<Longrightarrow>
    c2 = c \<or> c2 = core c' \<Longrightarrow> spec_step C A N c op (Error e) c2"

inductive_cases spec_stepE: "spec_step C A N c op r c'"

lemma as_spec_step:
  assumes "as_spec A N 0 (spec_op C op (core g)) g r c'" and "g_blocks g = []"
  shows "spec_step C A N (core g) op r c'"
proof (cases "spec_op C op (core g)")
  case s: (Pair r0 c0)
  have "room_for A N 0 (g_blocks g) c0 = (roomy A N \<and> small N c0)" using assms(2) by (auto simp: room_for_def tight_def)
  then show ?thesis using assms(1) s by (auto simp: as_spec_def no_room_def intro: spec_step.intros)
qed

text \<open>With room there is only one step.\<close>

definition spec_call :: "('d, 'o, 's) automerge \<Rightarrow> backend_op \<Rightarrow> (('d, 'o, 's) guest, op_result) comp" where
  "spec_call C op c = apsnd core (spec_op C op c)"

fun small_run :: "('d, 'o, 's) automerge \<Rightarrow> uint32 \<Rightarrow> backend_op list \<Rightarrow> ('d, 'o, 's) guest \<Rightarrow> bool" where
  "small_run C N [] c = True"
| "small_run C N (op # ops) c = (let c' = snd (spec_call C op c) in small N c' \<and> small_run C N ops c')"

lemma spec_step_room: "spec_step C A N c op r c' \<Longrightarrow> roomy A N \<Longrightarrow> small N (snd (spec_call C op c)) \<Longrightarrow> spec_call C op c = (r, c')"
  by (erule spec_stepE) (auto simp: spec_call_def small_def)

lemma trace_room:
  "trace (spec_step C A N) c ops rs c' \<Longrightarrow> roomy A N \<Longrightarrow> small_run C N ops c \<Longrightarrow> run_all (spec_call C) ops c = (rs, c')"
  by (induction rule: trace.induct) (auto simp: Let_def dest: spec_step_room)

section \<open>The refinement\<close>

lemma no_room_map: "no_room r s \<Longrightarrow> no_room (map_outcome_of f r) (map_outcome_of f s)"
  by (auto simp: no_room_def)

lemma refines_mapResult:
  assumes "refines A N m s"
  shows "refines A N (mapResult f m) (mapResult f s)"
  unfolding refines_def
proof (intro allI impI)
  fix g :: "('a, 'b, 'c) guest" assume "shim_sound g"
  then obtain r g' where g': "m (g, False) = (r, (g', False))" "g_blocks g' = g_blocks g" "extends g g'"
    "as_spec A N 0 (s (core g)) g r (core g')" using assms by (auto simp: refines_def runs_def)
  then have "as_spec A N 0 (mapResult f s (core g)) g (map_outcome_of f r) (core g')"
    using no_room_map [of r "fst (s (core g))" f] by (auto simp: as_spec_def mapResult_def)
  then show "runs g (mapResult f m) (as_spec A N 0 (mapResult f s (core g)) g)"
    using g' by (auto simp: runs_def mapResult_def)
qed

lemmas refines_methods =
  refines_Save refines_GetActorID refines_SetActorID refines_MapGet refines_MapPut refines_MapDelete refines_MapIncrement
  refines_ListGet refines_ListPut refines_ListDelete refines_ListIncrement refines_ObjSize refines_TextGet refines_TextSplice
  refines_Mark refines_Unmark refines_Marks refines_blocks refines_JoinBlock refines_GetCursor refines_LookupCursor
  refines_ObjType refines_ObjKeys refines_ObjItems refines_ObjFree refines_Commit refines_EmptyChange refines_Heads
  refines_GetChanges refines_GetChangeByHash refines_ApplyChanges refines_GetChangeInfo refines_SaveIncremental
  refines_LoadIncremental refines_Merge refines_SyncInit refines_SyncFree refines_SyncGenerateMessage
  refines_SyncReceiveMessage refines_SyncSave refines_SyncLoad

lemma refines_op: "sized_op N op \<Longrightarrow> refines A N (call_op (guest_module C A) op) (spec_op C op)"
  by (cases op) (auto simp: wf_hash_def intro!: refines_mapResult refines_methods)

text \<open>Between calls an instance is open, sound, and no block is live.\<close>

definition idle :: "('d, 'o, 's) instance_state \<Rightarrow> bool" where
  "idle w \<longleftrightarrow> shim_sound (fst w) \<and> g_blocks (fst w) = [] \<and> \<not> snd w"

interpretation backend: simulation "call_op (guest_module C A)" "spec_step C A N" idle "\<lambda>w. core (fst w)" "sized_op N"
proof (unfold_locales, goal_cases)
  case (1 op w r w')
  then obtain g where w: "w = (g, False)" and g: "shim_sound g" "g_blocks g = []" by (cases w) (auto simp: idle_def)
  then obtain g' where "w' = (g', False)" "extends g g'" "g_blocks g' = []" "as_spec A N 0 (spec_op C op (core g)) g r (core g')"
    using refines_op [OF 1(1), of A C] 1(3) by (fastforce simp: refines_def runs_def)
  then show ?case using w g(2) by (simp add: extends_def idle_def as_spec_step)
qed

lemma idle_kv_start: "idle kv_start"
  by (simp add: idle_def kv_start_def fresh_guest_def shim_sound_def)



section \<open>Every call is answered when there is room\<close>

text \<open>Two calls on the small crate, evaluated in the specification.\<close>

lemma kv_facts:
  "utf8_valid (str_bytes ''k'')" "parse_tagged_value TagBool [1] = Some (RScalar (SBoolean True))"
  "encode_scalar (SBoolean True) = [TagBool, 1]" "DecodeValue [TagBool, 1] = Ok (bval KindBool (VBool True))"
  by code_simp+
lemma kv_MapPut:
  "spec_call kv_crate (OpMapPut 0 ''k'' TagBool [1]) (core (fst kv_start)) =
    (Ok (ResHandle 0), (core (fst kv_start))\<lparr>g_doc := Some [(''k'', SBoolean True)]\<rparr>)"
  by (simp add: spec_call_def mapResult_def spec_MapPut_def answered_def put_key_def put_value_def resolve_obj_def table_get_def
      mutate_def with_doc_mut_def reply_def put_outcome_def is_object_tag_def core_def kv_start_def fresh_guest_def kv_crate_def
      kv_facts(2) [unfolded TagBool_def] kv_facts(1) TagBool_def TagMap_def TagList_def TagText_def)

lemma kv_MapGet:
  "spec_call kv_crate (OpMapGet 0 ''k'') ((core (fst kv_start))\<lparr>g_doc := Some [(''k'', SBoolean True)]\<rparr>) =
    (Ok (ResValue (bval KindBool (VBool True))), (core (fst kv_start))\<lparr>g_doc := Some [(''k'', SBoolean True)], g_return_buf := [TagBool, 1]\<rparr>)"
  by (simp add: spec_call_def mapResult_def spec_MapGet_def fetched_def at_key_def resolve_obj_def table_get_def
      with_doc_def prepare_value_def prepare_def set_return_buf_def return_buf_len_def core_def kv_start_def fresh_guest_def kv_crate_def
      kv_facts)



end
