(* ===== verification/JsonPrint.thy ===== *)
theory JsonPrint
  imports TextMarks RichText
begin

text \<open>
  Go's JSON reader against the Rust shim's JSON writer: \<open>print_json\<close> writes any JSON value in the
  way in which the shim writes its arrays and objects, and \<open>json_parse\<close> reads it back.
\<close>

section \<open>String literals\<close>

text \<open>The bytes of one character outside of ASCII.\<close>

definition unichar :: "bytes \<Rightarrow> bool" where
  "unichar p \<longleftrightarrow> 2 \<le> length p \<and> length p \<le> 4 \<and> utf8_valid p \<and> list_all (\<lambda>b. 0x80 \<le> b) p \<and>
     \<not> utf8_valid (take 1 p) \<and> (2 < length p \<longrightarrow> \<not> utf8_valid (take 2 p)) \<and> (3 < length p \<longrightarrow> \<not> utf8_valid (take 3 p))"

lemma cont_high: "cont b \<Longrightarrow> 0x80 \<le> b"
  by (simp add: cont_def)

lemma unichar_intro:
  shows "0xC2 \<le> a \<Longrightarrow> a \<le> 0xDF \<Longrightarrow> cont b \<Longrightarrow> unichar [a, b]"
    and "utf8_valid [a, b, c] \<Longrightarrow> 0x80 \<le> b \<Longrightarrow> cont c \<Longrightarrow> 0xE0 \<le> a \<Longrightarrow> unichar [a, b, c]"
    and "utf8_valid [a, b, c, d] \<Longrightarrow> 0x80 \<le> b \<Longrightarrow> cont c \<Longrightarrow> cont d \<Longrightarrow> 0xF0 \<le> a \<Longrightarrow> unichar [a, b, c, d]"
proof -
  have lo: "\<not> x < 0x80" "0x80 \<le> x" if "0xC2 \<le> x" for x :: byte using that by (auto simp: word_le_nat_alt word_less_nat_alt)
  have e0: "\<not> x \<le> 0xDF" "0xC2 \<le> x" if "0xE0 \<le> x" for x :: byte using that by (auto simp: word_le_nat_alt)
  have f0: "\<not> x \<le> 0xEF" "0xE0 \<le> x" if "0xF0 \<le> x" for x :: byte using that by (auto simp: word_le_nat_alt)
  show "unichar [a, b]" if "0xC2 \<le> a" "a \<le> 0xDF" "cont b"
    using that lo [OF that(1)] cont_high [OF that(3)] by (simp add: unichar_def)
  show "unichar [a, b, c]" if v: "utf8_valid [a, b, c]" and h: "0x80 \<le> b" "cont c" "0xE0 \<le> a"
  proof -
    have "\<not> utf8_valid [a]" "\<not> utf8_valid [a, b]" using e0 [OF h(3)] lo [OF e0(2) [OF h(3)]] by simp_all
    then show ?thesis
      using v h(1) lo(2) [OF e0(2) [OF h(3)]] cont_high [OF h(2)] by (simp add: unichar_def del: utf8_valid.simps)
  qed
  show "unichar [a, b, c, d]" if v: "utf8_valid [a, b, c, d]" and h: "0x80 \<le> b" "cont c" "cont d" "0xF0 \<le> a"
  proof -
    note a = f0 [OF h(4)] e0 [OF f0(2) [OF h(4)]] lo [OF e0(2) [OF f0(2) [OF h(4)]]]
    have "\<not> utf8_valid [a]" "\<not> utf8_valid [a, b]" "\<not> utf8_valid [a, b, c]" using a by simp_all
    then show ?thesis
      using v h(1) a(6) cont_high [OF h(2)] cont_high [OF h(3)] by (simp add: unichar_def del: utf8_valid.simps)
  qed
qed

lemma utf8_split:
  assumes "utf8_valid (a # bs)" and "\<not> a < 0x80"
  obtains p t where "a # bs = p @ t" "unichar p" "utf8_valid t"
proof -
  have hi: "0x80 \<le> x" if "0x90 \<le> x \<or> 0xA0 \<le> x" for x :: byte
    using that by (auto simp: word_le_nat_alt)
  consider "0xC2 \<le> a" "a \<le> 0xDF" | "0xE0 \<le> a" "a \<le> 0xEF" | "0xF0 \<le> a" "a \<le> 0xF4"
    using assms by (auto split: if_splits)
  then show ?thesis
  proof cases
    case 1
    then obtain b r where "bs = b # r" "cont b" "utf8_valid r" using assms by (cases bs) auto
    then show ?thesis using that [of "[a, b]" r] 1 assms(2) unichar_intro(1) [of a b] by auto
  next
    case 2
    then have c2: "\<not> a \<le> 0xDF" "0xC2 \<le> a" by (auto simp: word_le_nat_alt)
    then obtain b c r where bs: "bs = b # c # r" "cont c" "utf8_valid r"
      "if a = 0xE0 then 0xA0 \<le> b \<and> b \<le> 0xBF else if a = 0xED then 0x80 \<le> b \<and> b \<le> 0x9F else cont b"
      using assms 2 by (auto split: list.splits if_splits)
    have "0x80 \<le> b" using bs(4) hi cont_high by (auto split: if_splits)
    moreover have "utf8_valid [a, b, c]" using bs(2,4) 2 c2 assms(2) by auto
    ultimately show ?thesis using that [of "[a, b, c]" r] bs 2 c2 unichar_intro(2) [of a b c] by auto
  next
    case 3
    then have c3: "\<not> a \<le> 0xDF" "\<not> a \<le> 0xEF" "0xC2 \<le> a" by (auto simp: word_le_nat_alt)
    then obtain b c d r where bs: "bs = b # c # d # r" "cont c" "cont d" "utf8_valid r"
      "if a = 0xF0 then 0x90 \<le> b \<and> b \<le> 0xBF else if a = 0xF4 then 0x80 \<le> b \<and> b \<le> 0x8F else cont b"
      using assms 3 by (auto split: list.splits if_splits)
    have "0x80 \<le> b" using bs(5) hi cont_high by (auto split: if_splits)
    moreover have "utf8_valid [a, b, c, d]" using bs(2,3,5) 3 c3 assms(2) by auto
    ultimately show ?thesis using that [of "[a, b, c, d]" r] bs 3 c3 unichar_intro(3) [of a b c d] by auto
  qed
qed

lemma put_front_simps [simp]:
  "put_front p None = None" "put_front p (Some (s, r)) = Some (p @ s, r)" "put_front [] x = x"
  by (simp_all add: put_front_def option.map_id0 apfst_def map_prod_def split_def flip: id_def)

lemma put_front_put_front [simp]: "put_front p (put_front q x) = put_front (p @ q) x"
  by (cases x) (auto simp: put_front_def)

lemma of_char_less: "(of_char c :: nat) < 256"
  using unat_byte_lt [of "word_of_nat (of_char c)"] by (simp del: unat_byte_lt)

lemma str_bytes_nth_high: "0x80 \<le> (word_of_nat (of_char c) :: byte) \<longleftrightarrow> 0x80 \<le> (of_char c :: nat)"
  using of_char_less [of c] by (simp add: word_le_nat_alt unat_of_nat)

lemma rune_width_ascii: "of_char c < (0x80 :: nat) \<Longrightarrow> rune_width (c # r) = 1"
  using of_char_less [of c] by (simp add: rune_width_def str_bytes_def word_less_nat_alt unat_of_nat)

lemma parse_plain:
  assumes "0x20 \<le> (of_char c :: nat)" and "of_char c < (0x80 :: nat)" and "c \<noteq> CHR 0x22" and "c \<noteq> CHR 0x5C"
  shows "parse_str (c # r) = put_front [c] (parse_str r)"
  using assms by (simp add: parse_str.simps rune_width_ascii)

lemma rune_width_unichar:
  assumes "unichar (str_bytes p)"
  shows "rune_width (p @ t) = length p"
proof -
  have take: "take k (p @ t) = take k p" if "k \<le> length p" for k using that by simp
  have len: "2 \<le> length p" "length p \<le> 4" using assms by (simp_all add: unichar_def)
  have v: "utf8_valid (str_bytes p)" "\<not> utf8_valid (str_bytes (take 1 p))"
    "2 < length p \<Longrightarrow> \<not> utf8_valid (str_bytes (take 2 p))" "3 < length p \<Longrightarrow> \<not> utf8_valid (str_bytes (take 3 p))"
    using assms by (simp_all add: unichar_def str_bytes_def take_map)
  consider "length p = 2" | "length p = 3" | "length p = 4" using len by linarith
  then show ?thesis
    by cases (use v take in \<open>simp_all add: rune_width_def\<close>)
qed

lemma parse_unichar:
  assumes "unichar (str_bytes p)"
  shows "parse_str (p @ t) = put_front p (parse_str t)"
proof -
  have len: "2 \<le> length p" using assms by (simp add: unichar_def)
  then obtain c q where p: "p = c # q" by (cases p) auto
  have c: "0x80 \<le> (of_char c :: nat)" using assms str_bytes_nth_high [of c] by (simp add: unichar_def p str_bytes_def)
  then have ne: "c \<noteq> CHR 0x22" "c \<noteq> CHR 0x5C" by auto
  have w: "rune_width (c # q @ t) = Suc (length q)" using rune_width_unichar [OF assms, of t] by (simp add: p)
  show ?thesis using ne c by (simp add: p parse_str.simps(2) [where c = c and r = "q @ t"] w)
qed

lemma hex_value_char: "n < 16 \<Longrightarrow> hex_value (hex_char n) = Some n"
  by (auto simp: hex_value_def hex_char_def Let_def)

lemma parse_escape:
  assumes "of_char c < (0x80 :: nat)"
  shows "parse_str (json_escape_char c @ t) = put_front [c] (parse_str t)"
proof -
  consider "c \<in> {CHR 0x22, CHR 0x5C, CHR 0x0A, CHR 0x0D, CHR 0x09}"
    | "c \<notin> {CHR 0x22, CHR 0x5C, CHR 0x0A, CHR 0x0D, CHR 0x09}" "of_char c < (0x20 :: nat)"
    | "c \<notin> {CHR 0x22, CHR 0x5C, CHR 0x0A, CHR 0x0D, CHR 0x09}" "0x20 \<le> (of_char c :: nat)"
    by linarith
  then show ?thesis
  proof cases
    case 1
    then show ?thesis by (auto simp: json_escape_char_def parse_str.simps escape_char_def)
  next
    case 2
    let ?n = "of_char c :: nat"
    have d: "?n div 16 < 16" "?n mod 16 < 16" using 2 by auto
    have h: "hex4 (CHR 0x30 # CHR 0x30 # hex_char (?n div 16) # hex_char (?n mod 16) # t) = Some ?n"
      using d hex_value_char [OF d(1)] hex_value_char [OF d(2)] by (simp add: hex_value_def Let_def)
    have "encode_rune ?n = [c]" using 2 by (simp add: encode_rune_def chr_of_def)
    then show ?thesis
      using 2 h by (simp add: json_escape_char_def parse_str.simps)
  next
    case 3
    then show ?thesis using parse_plain [of c t] assms by (simp add: json_escape_char_def)
  qed
qed

lemma escape_high: "list_all (\<lambda>c. 0x80 \<le> (of_char c :: nat)) s \<Longrightarrow> json_escape s = s"
  by (induction s) (auto simp: json_escape_def json_escape_char_def)

lemma parse_str_escape:
  "utf8_valid (str_bytes s) \<Longrightarrow> parse_str (json_escape s @ CHR 0x22 # r) = Some (s, r)"
proof (induction "length s" arbitrary: s rule: less_induct)
  case less
  show ?case
  proof (cases s)
    case Nil
    then show ?thesis by (simp add: json_escape_def parse_str.simps)
  next
    case (Cons c q)
    show ?thesis
    proof (cases "of_char c < (0x80 :: nat)")
      case True
      then have "utf8_valid (str_bytes q)"
        using less.prems of_char_less [of c] by (simp add: Cons str_bytes_def word_less_nat_alt unat_of_nat)
      then have "parse_str (json_escape q @ CHR 0x22 # r) = Some (q, r)" using less.hyps Cons by simp
      then show ?thesis using parse_escape [OF True] by (simp add: Cons json_escape_def)
    next
      case False
      then have "\<not> word_of_nat (of_char c) < (0x80 :: byte)"
        using of_char_less [of c] by (simp add: word_less_nat_alt unat_of_nat)
      with less.prems obtain p t where pt: "str_bytes s = p @ t" "unichar p" "utf8_valid t"
        unfolding Cons str_bytes_def list.map by (elim utf8_split) auto
      let ?p = "take (length p) s" and ?t = "drop (length p) s"
      have b: "str_bytes ?p = p" "str_bytes ?t = t" using pt(1) by (simp_all add: str_bytes_def take_map [symmetric] drop_map [symmetric])
      have "0 < length p" using pt(2) unfolding unichar_def by linarith
      then have "length ?t < length s" using Cons by simp
      then have t: "parse_str (json_escape ?t @ CHR 0x22 # r) = Some (?t, r)" using less.hyps b(2) pt(3) by simp
      have "list_all (\<lambda>b. 0x80 \<le> b) (str_bytes ?p)" using pt(2) b(1) by (simp add: unichar_def)
      then have "list_all (\<lambda>c. 0x80 \<le> (of_char c :: nat)) ?p"
        unfolding str_bytes_def list.pred_map comp_def str_bytes_nth_high .
      then have "json_escape s = ?p @ json_escape ?t"
        using escape_high [of ?p] by (metis append_take_drop_id concat_append json_escape_def map_append)
      then show ?thesis using parse_unichar [of ?p] b(1) pt(2) t by simp
    qed
  qed
qed

section \<open>Numbers\<close>

text \<open>What may follow a value.\<close>

definition stops :: "string \<Rightarrow> bool" where
  "stops r \<longleftrightarrow> r = [] \<or> hd r \<in> {CHR 0x2C, CHR 0x5D, CHR 0x7D}"

lemma stops_cases: "stops r \<Longrightarrow> (r = [] \<Longrightarrow> P) \<Longrightarrow> (\<And>c t. r = c # t \<Longrightarrow> c \<in> {CHR 0x2C, CHR 0x5D, CHR 0x7D} \<Longrightarrow> P) \<Longrightarrow> P"
  by (cases r) (auto simp: stops_def)

lemma digits_append:
  assumes "stops r"
  shows "digits (s @ r) = (fst (digits s), snd (digits s) @ r)"
proof -
  have "takeWhile is_digit r = []" "dropWhile is_digit r = r"
    using assms by (auto simp: is_digit_def elim!: stops_cases)
  then show ?thesis
    by (induction s) (auto simp: digits_def)
qed

lemma parse_frac_append: "parse_frac s = Some (f, x) \<Longrightarrow> stops r \<Longrightarrow> parse_frac (s @ r) = Some (f, x @ r)"
  by (cases s) (auto simp: parse_frac_def digits_append split: if_splits prod.splits elim!: stops_cases)

lemma parse_exp_append:
  assumes "parse_exp s = Some (e, x)" and "stops r"
  shows "parse_exp (s @ r) = Some (e, x @ r)"
proof (cases s)
  case Nil
  then show ?thesis using assms by (auto simp: parse_exp_def elim!: stops_cases)
next
  case (Cons c q)
  show ?thesis
  proof (cases q)
    case Nil
    then show ?thesis using assms Cons by (auto simp: parse_exp_def digits_def Let_def split: if_splits)
  next
    case (Cons d t)
    then show ?thesis
      using assms \<open>s = c # q\<close> digits_append [OF assms(2), of t] digits_append [OF assms(2), of q]
      by (auto simp: parse_exp_def Let_def split: if_splits prod.splits)
  qed
qed

lemma parse_int_append: "parse_int s = Some (i, x) \<Longrightarrow> stops r \<Longrightarrow> parse_int (s @ r) = Some (i, x @ r)"
  using digits_append [of r s] by (cases s) (auto simp: parse_int_def split: if_splits)

lemma parse_num_append:
  assumes "parse_num s = Some (n, x)" and "stops r"
  shows "parse_num (s @ r) = Some (n, x @ r)"
proof -
  obtain sg s1 where sg: "num_sign s = (sg, s1)" by fastforce
  then obtain i s2 f s3 e where parts: "parse_int s1 = Some (i, s2)" "parse_frac s2 = Some (f, s3)" "parse_exp s3 = Some (e, x)"
    "n = sg @ i @ f @ e" using assms(1) by (auto simp: parse_num_def split: option.splits)
  then have "s1 \<noteq> []" by (auto simp: parse_int_def)
  then have "num_sign (s @ r) = (sg, s1 @ r)"
    using sg by (cases s) (auto simp: num_sign_def split: if_splits)
  then show ?thesis
    using parse_int_append [OF parts(1) assms(2)] parse_frac_append [OF parts(2) assms(2)] parse_exp_append [OF parts(3) assms(2)] parts(4)
    by (simp add: parse_num_def)
qed

lemma parse_num_head: "parse_num s = Some (n, x) \<Longrightarrow> \<exists>c t. s = c # t \<and> (c = CHR 0x2D \<or> is_digit c)"
  by (cases s) (auto simp: parse_num_def num_sign_def parse_int_def is_digit_def split: if_splits option.splits)

definition numeral_literal :: "string \<Rightarrow> bool" where
  "numeral_literal s \<longleftrightarrow> parse_num s = Some (s, [])"

lemma dec_digits_shape: "list_all is_digit (dec_digits n) \<and> dec_digits n \<noteq> [] \<and> (hd (dec_digits n) = CHR 0x30 \<longrightarrow> n = 0)"
proof (induction n rule: dec_digits.induct)
  case (1 n)
  show ?case
  proof (cases "n < 10")
    case True
    then have "of_char (char_of (48 + n) :: char) = 48 + n" by simp
    then have "n = 0" if "char_of (48 + n) = CHR 0x30" using that by simp
    then show ?thesis using True by (simp add: dec_digits.simps [of n] is_digit_def)
  next
    case False
    then have "n div 10 \<noteq> 0" "n mod 10 \<le> 9" by simp_all
    then show ?thesis using 1 False by (simp add: dec_digits.simps [of n] is_digit_def)
  qed
qed

lemma numeral_digits: "numeral_literal (dec_digits n)"
proof -
  obtain c ds where d: "dec_digits n = c # ds" using dec_digits_shape [of n] by (cases "dec_digits n") auto
  have dig: "is_digit c" "list_all is_digit ds" and "c = CHR 0x30 \<Longrightarrow> n = 0" using dec_digits_shape [of n] by (simp_all add: d)
  then have "ds = []" if "c = CHR 0x30" using that d by (auto simp: dec_digits.simps)
  moreover have "c \<noteq> CHR 0x2D" using dig(1) by (auto simp: is_digit_def)
  moreover have "digits (c # ds) = (c # ds, [])"
    using dig by (simp add: digits_def) (metis list.pred_set takeWhile_eq_all_conv dropWhile_eq_Nil_conv)
  ultimately show ?thesis
    using dig by (auto simp: d numeral_literal_def parse_num_def num_sign_def parse_int_def parse_frac_def parse_exp_def)
qed

lemma digits_value_append: "digits_value (a @ [c]) = 10 * digits_value a + (of_char c - 0x30)"
  by (simp add: digits_value_def)

lemma digit_char: "n < 10 \<Longrightarrow> (of_char (char_of (48 + n) :: char) :: int) = 48 + int n"
proof -
  assume "n < 10"
  then have "(of_char (char_of (48 + n) :: char) :: nat) = 48 + n" by simp
  then have "int (of_char (char_of (48 + n) :: char)) = 48 + int n" by simp
  then show ?thesis by (simp only: of_nat_of_char)
qed

lemma digits_value_dec: "digits_value (dec_digits n) = int n"
proof (induction n rule: dec_digits.induct)
  case (1 n)
  show ?case
  proof (cases "n < 10")
    case True
    then show ?thesis by (simp add: dec_digits.simps [of n] digits_value_def digit_char)
  next
    case False
    have "10 * int (n div 10) + int (n mod 10) = int n" by (simp add: zdiv_int zmod_int)
    then show ?thesis using 1 [OF False] False
      by (simp add: dec_digits.simps [of n] digits_value_append digit_char)
  qed
qed

lemma numeral_dec_int: "numeral_literal (dec_int i)"
proof (cases "i < 0")
  case True
  have "parse_num (dec_digits (nat (- i))) = Some (dec_digits (nat (- i)), [])"
    using numeral_digits by (simp add: numeral_literal_def)
  moreover have "num_sign (dec_digits (nat (- i))) = ([], dec_digits (nat (- i)))"
    using dec_digits_shape [of "nat (- i)"] by (cases "dec_digits (nat (- i))") (auto simp: num_sign_def is_digit_def)
  ultimately show ?thesis
    using True by (auto simp: numeral_literal_def dec_int_def parse_num_def num_sign_def split: option.splits)
qed (simp add: dec_int_def numeral_digits)

section \<open>Values\<close>

fun print_json :: "json \<Rightarrow> string"
  and print_items :: "json list \<Rightarrow> string list"
  and print_members :: "(string \<times> json) list \<Rightarrow> string list" where
  "print_json JNull = ''null''"
| "print_json (JBool b) = bool_string b"
| "print_json (JNum s) = s"
| "print_json (JStr s) = quoted s"
| "print_json (JArr vs) = CHR 0x5B # commas (print_items vs) @ [CHR 0x5D]"
| "print_json (JObj kvs) = CHR 0x7B # commas (print_members kvs) @ [CHR 0x7D]"
| "print_items [] = []"
| "print_items (v # vs) = print_json v # print_items vs"
| "print_members [] = []"
| "print_members ((k, v) # kvs) = (quoted k @ CHR 0x3A # print_json v) # print_members kvs"

text \<open>Values with text in UTF-8, well-formed numbers, and up to \<open>d\<close> levels of nesting.\<close>

fun wf_json :: "nat \<Rightarrow> json \<Rightarrow> bool"
  and wf_items :: "nat \<Rightarrow> json list \<Rightarrow> bool"
  and wf_members :: "nat \<Rightarrow> (string \<times> json) list \<Rightarrow> bool" where
  "wf_json d JNull = True"
| "wf_json d (JBool b) = True"
| "wf_json d (JNum s) = numeral_literal s"
| "wf_json d (JStr s) = utf8_valid (str_bytes s)"
| "wf_json d (JArr vs) = (0 < d \<and> wf_items (d - 1) vs)"
| "wf_json d (JObj kvs) = (0 < d \<and> wf_members (d - 1) kvs)"
| "wf_items d [] = True"
| "wf_items d (v # vs) = (wf_json d v \<and> wf_items d vs)"
| "wf_members d [] = True"
| "wf_members d ((k, v) # kvs) = (utf8_valid (str_bytes k) \<and> wf_json d v \<and> wf_members d kvs)"

lemma skip_ws_simps [simp]: "\<not> is_ws c \<Longrightarrow> skip_ws (c # r) = c # r" "skip_ws [] = []"
  by (simp_all add: skip_ws_def)

lemma not_ws [simp]:
  "\<not> is_ws CHR 0x22" "\<not> is_ws CHR 0x5B" "\<not> is_ws CHR 0x5D" "\<not> is_ws CHR 0x7B" "\<not> is_ws CHR 0x7D" "\<not> is_ws CHR 0x3A" "\<not> is_ws CHR 0x2C"
  by (simp_all add: is_ws_def)

text \<open>A printed value starts with a character that is neither white space nor a closing bracket.\<close>

lemma print_json_head:
  assumes "wf_json d v"
  obtains c t where "print_json v = c # t" "\<not> is_ws c" "c \<noteq> CHR 0x5D"
proof (cases v)
  case (JNum s)
  then obtain c t where "s = c # t" "c = CHR 0x2D \<or> is_digit c"
    using assms parse_num_head [of s s "[]"] by (auto simp: numeral_literal_def)
  then have "\<not> is_ws c" "c \<noteq> CHR 0x5D" by (auto simp: is_ws_def is_digit_def)
  then show ?thesis using that [of c t] JNum \<open>s = c # t\<close> by simp
qed (use that in \<open>auto simp: quoted_def is_ws_def intro: bool_string.elims\<close>)

lemma quoted_append: "quoted k @ t = CHR 0x22 # json_escape k @ CHR 0x22 # t"
  by (simp add: quoted_def)

lemma parse_value_string: "utf8_valid (str_bytes s) \<Longrightarrow> parse_value d (quoted s @ r) = Some (JStr s, r)"
  by (simp add: quoted_append parse_value.simps parse_str_escape)

lemma parse_value_number:
  assumes "numeral_literal s" and "stops r"
  shows "parse_value d (s @ r) = Some (JNum s, r)"
proof -
  have p: "parse_num (s @ r) = Some (s, r)" using parse_num_append [of s s "[]" r] assms by (simp add: numeral_literal_def)
  obtain c t where s: "s = c # t" "c = CHR 0x2D \<or> is_digit c"
    using assms parse_num_head [of s s "[]"] by (auto simp: numeral_literal_def)
  then have "\<not> is_ws c" "c \<notin> {CHR 0x22, CHR 0x5B, CHR 0x7B, CHR 0x74, CHR 0x66, CHR 0x6E}"
    by (auto simp: is_ws_def is_digit_def)
  then show ?thesis using p by (simp add: s parse_value.simps)
qed

lemma parse_value_name: "parse_value d (bool_string b @ r) = Some (JBool b, r)" "parse_value d (''null'' @ r) = Some (JNull, r)"
  by (cases b) (simp_all add: parse_value.simps parse_name_def is_ws_def)

lemma commas_Cons: "commas (x # xs) @ r = x @ (if xs = [] then r else CHR 0x2C # commas xs @ r)"
  by (cases xs) simp_all

lemma print_Nil [simp]: "print_items vs = [] \<longleftrightarrow> vs = []" "print_members kvs = [] \<longleftrightarrow> kvs = []"
  by (cases vs, auto) (cases kvs, auto)

lemma parse_print:
  "wf_json d v \<Longrightarrow> stops r \<Longrightarrow> parse_value d (print_json v @ r) = Some (v, r)"
  "wf_items d vs \<Longrightarrow> vs \<noteq> [] \<Longrightarrow> parse_items d (commas (print_items vs) @ CHR 0x5D # r) = Some (vs, r)"
  "wf_members d kvs \<Longrightarrow> kvs \<noteq> [] \<Longrightarrow> parse_members d (commas (print_members kvs) @ CHR 0x7D # r) = Some (kvs, r)"
proof (induction d v and d vs and d kvs arbitrary: r and r and r rule: wf_json_wf_items_wf_members.induct)
  case (5 d vs)
  show ?case
  proof (cases vs)
    case Nil
    then show ?thesis using 5 by (simp add: parse_value.simps)
  next
    case (Cons v vs')
    obtain c t where "print_json v = c # t" "\<not> is_ws c" "c \<noteq> CHR 0x5D"
      using print_json_head [of "d - 1" v] 5(2) Cons by auto
    then have "\<exists>t'. commas (print_items vs) @ CHR 0x5D # r = c # t'" by (simp add: Cons commas_Cons)
    then obtain t' where t': "commas (print_items vs) @ CHR 0x5D # r = c # t'" ..
    then have "skip_ws (commas (print_items vs) @ CHR 0x5D # r) = c # t'" using \<open>\<not> is_ws c\<close> by simp
    then show ?thesis
      using 5(1) [of r] 5(2) Cons \<open>c \<noteq> CHR 0x5D\<close> by (simp add: parse_value.simps [of d "CHR 0x5B # _"])
  qed
next
  case (6 d kvs)
  show ?case
  proof (cases kvs)
    case Nil
    then show ?thesis using 6 by (simp add: parse_value.simps)
  next
    case (Cons kv kvs')
    obtain k v where kv: "kv = (k, v)" by (cases kv)
    have "\<exists>t'. commas (print_members kvs) @ CHR 0x7D # r = CHR 0x22 # t'" by (simp add: Cons kv commas_Cons quoted_def)
    then obtain t' where "commas (print_members kvs) @ CHR 0x7D # r = CHR 0x22 # t'" ..
    then have "skip_ws (commas (print_members kvs) @ CHR 0x7D # r) = CHR 0x22 # t'" by simp
    then show ?thesis
      using 6(1) [of r] 6(2) Cons by (simp add: parse_value.simps [of d "CHR 0x7B # _"])
  qed
next
  case (8 d v vs)
  show ?case
  proof (cases "vs = []")
    case True
    have "parse_value d (print_json v @ CHR 0x5D # r) = Some (v, CHR 0x5D # r)" using 8(1) 8(3) by (simp add: stops_def)
    then show ?thesis using True by (simp add: parse_items.simps)
  next
    case False
    have "parse_value d (print_json v @ CHR 0x2C # commas (print_items vs) @ CHR 0x5D # r) =
      Some (v, CHR 0x2C # commas (print_items vs) @ CHR 0x5D # r)" using 8(1) 8(3) by (simp add: stops_def)
    then show ?thesis using 8(2) [of r] 8(3) False by (simp add: commas_Cons parse_items.simps [of d "print_json v @ _"])
  qed
next
  case (10 d k v kvs)
  let ?r = "if kvs = [] then CHR 0x7D # r else CHR 0x2C # commas (print_members kvs) @ CHR 0x7D # r"
  have str: "parse_str (json_escape k @ CHR 0x22 # CHR 0x3A # print_json v @ ?r) = Some (k, CHR 0x3A # print_json v @ ?r)"
    using 10(3) by (intro parse_str_escape) simp
  have val: "parse_value d (print_json v @ ?r) = Some (v, ?r)" using 10(1,3) by (simp add: stops_def)
  have "commas (print_members ((k, v) # kvs)) @ CHR 0x7D # r = CHR 0x22 # json_escape k @ CHR 0x22 # CHR 0x3A # print_json v @ ?r"
    by (simp add: commas_Cons quoted_def)
  then show ?case
    using str val 10(2) [of r] 10(3) by (cases "kvs = []") (simp_all add: parse_members.simps [of d "CHR 0x22 # _"])
qed (simp_all add: parse_value_string parse_value_number parse_value_name parse_value_name(2) [simplified])

lemma json_parse_print: "wf_json maxNestingDepth v \<Longrightarrow> json_parse (print_json v) = Some v"
  using parse_print(1) [of maxNestingDepth v "[]"] by (simp add: json_parse_def stops_def)

end
