(* ===== verification/RichTextSpec.thy ===== *)
theory RichTextSpec
  imports JsonPrint
begin

text \<open>
  \<open>Text.Marks\<close> and \<open>Text.Spans\<close> return what the crate has: the JSON that the shim writes is read
  back by Go, mark by mark and span by span.
\<close>

section \<open>Marks\<close>

definition json_of_mark :: "(uint64 \<Rightarrow> string) \<Rightarrow> rmark \<Rightarrow> json" where
  "json_of_mark f m = JObj [(''name'', JStr (rm_name m)), (''value'', JStr (scalar_to_string f (rm_value m))),
     (''start'', JNum (dec_digits (unat (rm_start m)))), (''end'', JNum (dec_digits (unat (rm_end m))))]"

lemma print_items_map: "print_items vs = map print_json vs"
  by (induction vs) simp_all

lemma wf_items_all: "wf_items d vs \<longleftrightarrow> list_all (wf_json d) vs"
  by (induction vs) simp_all

lemma marks_to_json_print: "marks_to_json f ms = print_json (JArr (map (json_of_mark f) ms))"
proof -
  have "mark_json f = (\<lambda>m. print_json (json_of_mark f m))"
    by (rule ext) (simp add: mark_json_def json_of_mark_def)
  then show ?thesis by (simp add: marks_to_json_def print_items_map comp_def)
qed

text \<open>Strings of Rust are in UTF-8.\<close>

definition wf_mark :: "(uint64 \<Rightarrow> string) \<Rightarrow> rmark \<Rightarrow> bool" where
  "wf_mark f m \<longleftrightarrow> utf8_valid (str_bytes (rm_name m)) \<and> utf8_valid (str_bytes (scalar_to_string f (rm_value m)))"

text \<open>The mark of the crate as Go has it: its value as text, its range in 64 bits.\<close>

definition go_mark :: "(uint64 \<Rightarrow> string) \<Rightarrow> rmark \<Rightarrow> Mark_t" where
  "go_mark f m = \<lparr>mk_Name = rm_name m, mk_Value = scalar_to_string f (rm_value m),
     mk_Start = ucast (rm_start m), mk_End = ucast (rm_end m)\<rparr>"

lemma parse_uint_dec: "n < 2 ^ 64 \<Longrightarrow> parse_uint (dec_digits n) = Some (word_of_nat n)"
  using dec_digits_shape [of n] by (simp add: parse_uint_def digits_value_dec)

lemma parse_uint_uint32: "parse_uint (dec_digits (unat (x :: uint32))) = Some (ucast x)"
proof -
  have "unat x < 2 ^ 64" using unsigned_less [of x, where ?'a = nat] by simp
  then show ?thesis using parse_uint_dec [of "unat x"] by simp
qed

lemma into_mark_json: "into_mark (json_of_mark f m) = Some (go_mark f m)"
  by (simp add: into_mark_def into_struct_def json_of_mark_def field_named_def set_mark_field_def zero_mark_def go_mark_def parse_uint_uint32)

lemma all_some_map: "(\<And>x. x \<in> set xs \<Longrightarrow> h x = Some (k x)) \<Longrightarrow> all_some (map h xs) = Some (map k xs)"
  by (induction xs) simp_all

lemma utf8_ascii: "list_all (\<lambda>c. of_char c < (0x80 :: nat)) s \<Longrightarrow> utf8_valid (str_bytes s)"
  by (induction s) (auto simp: str_bytes_def word_less_nat_alt)

lemma utf8_names [simp]:
  "utf8_valid (str_bytes ''name'')" "utf8_valid (str_bytes ''value'')" "utf8_valid (str_bytes ''start'')" "utf8_valid (str_bytes ''end'')"
  "utf8_valid (str_bytes ''type'')" "utf8_valid (str_bytes ''text'')" "utf8_valid (str_bytes ''marks'')" "utf8_valid (str_bytes ''block'')"
  by (simp_all add: utf8_ascii)

text \<open>The test for the empty array agrees with the grammar.\<close>

lemma not_brackets:
  assumes "wf_items d vs" and "vs \<noteq> []"
  shows "print_json (JArr vs) \<noteq> ''[]''"
proof -
  obtain v vs' where vs: "vs = v # vs'" using assms(2) by (cases vs) auto
  then have "wf_json d v" using assms(1) by simp
  then obtain c t where "print_json v = c # t" "\<not> is_ws c" "c \<noteq> CHR 0x5D" by (rule print_json_head)
  then show ?thesis by (simp add: vs commas_Cons)
qed

lemma wf_json_of_mark: "wf_mark f m \<Longrightarrow> 0 < d \<Longrightarrow> wf_json d (json_of_mark f m)"
  by (simp add: wf_mark_def json_of_mark_def numeral_digits)

lemma parsed_array:
  assumes "list_all (wf_json (maxNestingDepth - 1)) vs" and "vs \<noteq> []"
  shows "print_json (JArr vs) \<noteq> ''[]''" and "json_parse (print_json (JArr vs)) = Some (JArr vs)"
proof -
  have wf: "wf_items (maxNestingDepth - 1) vs" using assms(1) by (simp add: wf_items_all)
  show "print_json (JArr vs) \<noteq> ''[]''" by (rule not_brackets [OF wf assms(2)])
  show "json_parse (print_json (JArr vs)) = Some (JArr vs)" using wf by (intro json_parse_print) (simp add: maxNestingDepth_def)
qed

lemma parse_marks_print:
  assumes "list_all (wf_mark f) ms"
  shows "parse_marks (marks_to_json f ms) = Ok (map (go_mark f) ms)"
proof (cases "ms = []")
  case False
  have "list_all (wf_json (maxNestingDepth - 1)) (map (json_of_mark f) ms)"
    using assms by (simp add: list_all_iff wf_json_of_mark maxNestingDepth_def)
  note j = parsed_array [OF this]
  show ?thesis
    using j False unfolding parse_marks_def marks_to_json_print
    by (simp add: into_slice_def comp_def all_some_map into_mark_json)
qed (simp add: parse_marks_def marks_to_json_def)

section \<open>Numbers in blocks\<close>

text \<open>
  An integer of a block arrives in Go as the nearest double: it is read as a \<open>float64\<close>.
\<close>

lemma ratio_of_int:
  assumes "0 < p"
  shows "f64_of_ratio neg p 1 = (let b = (int (ilog2 p) + 1023) * 2 ^ 52 + (f64_lead p - 2 ^ 52) in
     if 2047 * 2 ^ 52 \<le> b then None else Some (word_of_int ((if neg then 2 ^ 63 else 0) + b)))"
proof -
  let ?e = "ilog2 p"
  have i1: "ilog2 1 = 0" by (simp add: ilog2.simps)
  have "\<not> p < 2 ^ ?e" using ilog2_bounds [OF assms] by simp
  moreover have k: "max (int ?e - 52) (- 1074) = int ?e - 52" by simp
  moreover have "round_even (p * 2 ^ nat (- (int ?e - 52))) (2 ^ nat (int ?e - 52)) = f64_lead p"
  proof (cases "?e \<le> 52")
    case True
    then have "nat (- (int ?e - 52)) = 52 - ?e" "nat (int ?e - 52) = 0" by simp_all
    then show ?thesis using True round_even_exact [of 1 "p * 2 ^ (52 - ?e)"] by (simp add: f64_lead_def)
  next
    case False
    then have "nat (- (int ?e - 52)) = 0" "nat (int ?e - 52) = ?e - 52" by simp_all
    then show ?thesis using False by (simp add: f64_lead_def)
  qed
  moreover have "\<not> f64_lead p < 2 ^ 52" using lead_bounds [OF assms] by simp
  ultimately show ?thesis using assms by (simp add: f64_of_ratio_def i1 Let_def)
qed

lemma parse_float_ratio:
  assumes "list_all is_digit ds"
  shows "parse_float ds = f64_of_ratio False (digits_value ds) 1"
    and "parse_float (CHR 0x2D # ds) = f64_of_ratio True (digits_value ds) 1"
proof -
  have d: "digits ds = (ds, [])"
    using assms by (simp add: digits_def) (metis list.pred_set takeWhile_eq_all_conv dropWhile_eq_Nil_conv)
  have "num_sign ds = ([], ds)" using assms by (cases ds) (auto simp: num_sign_def is_digit_def)
  then show "parse_float ds = f64_of_ratio False (digits_value ds) 1"
    by (simp add: parse_float_def d digits_value_def [of "[]"])
  show "parse_float (CHR 0x2D # ds) = f64_of_ratio True (digits_value ds) 1"
    by (simp add: parse_float_def num_sign_def d digits_value_def [of "[]"])
qed

lemma parse_float_dec_int:
  assumes "\<bar>i\<bar> < 2 ^ 64"
  shows "parse_float (dec_int i) = Some (f64_of_int i)"
proof (cases "i = 0")
  case True
  then show ?thesis
    using parse_float_ratio(1) [of "dec_digits 0"] dec_digits_shape [of 0]
    by (simp add: dec_int_def digits_value_dec f64_of_ratio_def f64_of_int_def ilog2.simps)
next
  case False
  let ?p = "\<bar>i\<bar>"
  have p: "0 < ?p" using False by simp
  have "ilog2 ?p < 64"
  proof (rule ccontr)
    assume "\<not> ilog2 ?p < 64"
    then have "(2 :: int) ^ 64 \<le> 2 ^ ilog2 ?p" by (intro power_increasing) simp_all
    then show False using ilog2_bounds [OF p] assms by linarith
  qed
  then have "\<not> 2047 * 2 ^ 52 \<le> (int (ilog2 ?p) + 1023) * 2 ^ 52 + (f64_lead ?p - 2 ^ 52)"
    using lead_bounds [OF p] by simp
  then have r: "f64_of_ratio (i < 0) ?p 1 = Some (f64_of_int i)"
    using False by (simp add: ratio_of_int [OF p] f64_of_int_def Let_def add.assoc)
  have "int (nat (- i)) = ?p" if "i < 0" using that by simp
  moreover have "int (nat i) = ?p" if "\<not> i < 0" using that by simp
  ultimately show ?thesis
    using r parse_float_ratio [of "dec_digits (nat (- i))"] parse_float_ratio [of "dec_digits (nat i)"] dec_digits_shape
    by (simp add: dec_int_def digits_value_dec split: if_splits)
qed

section \<open>Blocks\<close>

definition hex_bytes :: "byte list \<Rightarrow> string" where
  "hex_bytes b = concat (map (\<lambda>x. [hex_char (unat x div 16), hex_char (unat x mod 16)]) b)"

fun json_of_scalar :: "(uint64 \<Rightarrow> string) \<Rightarrow> ScalarValue \<Rightarrow> json" where
  "json_of_scalar f SNull = JNull"
| "json_of_scalar f (SBoolean b) = JBool b"
| "json_of_scalar f (SInt i) = JNum (dec_int (sint i))"
| "json_of_scalar f (SUint u) = JNum (dec_int (uint u))"
| "json_of_scalar f (SF64 x) = JNum (f x)"
| "json_of_scalar f (SStr s) = JStr s"
| "json_of_scalar f (SBytes b) = JStr (hex_bytes b)"
| "json_of_scalar f (SCounter i) = JNum (dec_int (sint i))"
| "json_of_scalar f (STimestamp i) = JNum (dec_int (sint i))"
| "json_of_scalar f SUnknown = JNull"

fun json_of_hydrate :: "(uint64 \<Rightarrow> string) \<Rightarrow> hydrate \<Rightarrow> json"
  and json_items :: "(uint64 \<Rightarrow> string) \<Rightarrow> hydrate list \<Rightarrow> json list"
  and json_entries :: "(uint64 \<Rightarrow> string) \<Rightarrow> (string \<times> hydrate) list \<Rightarrow> (string \<times> json) list" where
  "json_of_hydrate f (HScalar s) = json_of_scalar f s"
| "json_of_hydrate f (HMap kvs) = JObj (json_entries f kvs)"
| "json_of_hydrate f (HList vs) = JArr (json_items f vs)"
| "json_of_hydrate f (HText t) = JStr t"
| "json_items f [] = []"
| "json_items f (v # vs) = json_of_hydrate f v # json_items f vs"
| "json_entries f [] = []"
| "json_entries f ((k, v) # kvs) = (k, json_of_hydrate f v) # json_entries f kvs"

lemma hex_char_plain: "n < 16 \<Longrightarrow> json_escape_char (hex_char n) = [hex_char n] \<and> of_char (hex_char n) < (0x80 :: nat)"
proof -
  assume n: "n < 16"
  have "(of_char (hex_char n) :: nat) = (if n < 10 then 0x30 + n else 0x57 + n)" using n by (simp add: hex_char_def)
  then have o: "0x30 \<le> (of_char (hex_char n) :: nat)" "of_char (hex_char n) < (0x80 :: nat)" "of_char (hex_char n) \<noteq> (0x5C :: nat)"
    using n by (auto split: if_splits)
  then have "hex_char n \<notin> {CHR 0x22, CHR 0x5C, CHR 0x0A, CHR 0x0D, CHR 0x09}" by auto
  then show ?thesis using o by (simp add: json_escape_char_def)
qed

lemma hex_bytes_plain: "json_escape (hex_bytes b) = hex_bytes b" "utf8_valid (str_bytes (hex_bytes b))"
proof -
  have small: "unat x div 16 < 16" "unat x mod 16 < 16" for x :: byte
  proof -
    have "unat x < 16 * 16" using unsigned_less [of x, where ?'a = nat] by simp
    then show "unat x div 16 < 16" by (rule less_mult_imp_div_less)
  qed simp
  show "json_escape (hex_bytes b) = hex_bytes b"
    by (induction b) (simp_all add: json_escape_def hex_bytes_def hex_char_plain small)
  show "utf8_valid (str_bytes (hex_bytes b))"
    by (rule utf8_ascii) (induction b, simp_all add: hex_bytes_def hex_char_plain small)
qed

lemma scalar_to_json_print: "scalar_to_json f s = print_json (json_of_scalar f s)"
  by (cases s) (simp_all add: quoted_def hex_bytes_plain(1), simp_all add: hex_bytes_def dec_int_def)

lemma hydrate_json_print:
  "hydrate_value_to_json f h = print_json (json_of_hydrate f h)"
  "hydrate_items_json f vs = print_items (json_items f vs)"
  "hydrate_entries_json f kvs = print_members (json_entries f kvs)"
  by (induction f h and f vs and f kvs rule: hydrate_value_to_json_hydrate_items_json_hydrate_entries_json.induct)
    (simp_all add: scalar_to_json_print)

text \<open>
  The blocks that survive: text in UTF-8, keys once each (as in every map), nesting up to \<open>d\<close>, and
  doubles that Rust prints as a number of the grammar that denotes them. \<open>f64::to_string\<close> does so
  for the finite ones.
\<close>

definition reads_back :: "(uint64 \<Rightarrow> string) \<Rightarrow> uint64 \<Rightarrow> bool" where
  "reads_back f x \<longleftrightarrow> numeral_literal (f x) \<and> parse_float (f x) = Some x"

fun wf_scalar :: "(uint64 \<Rightarrow> string) \<Rightarrow> ScalarValue \<Rightarrow> bool" where
  "wf_scalar f (SF64 x) = reads_back f x"
| "wf_scalar f (SStr s) = utf8_valid (str_bytes s)"
| "wf_scalar f _ = True"

fun wf_hydrate :: "(uint64 \<Rightarrow> string) \<Rightarrow> nat \<Rightarrow> hydrate \<Rightarrow> bool"
  and wf_list :: "(uint64 \<Rightarrow> string) \<Rightarrow> nat \<Rightarrow> hydrate list \<Rightarrow> bool"
  and wf_entries :: "(uint64 \<Rightarrow> string) \<Rightarrow> nat \<Rightarrow> (string \<times> hydrate) list \<Rightarrow> bool" where
  "wf_hydrate f d (HScalar s) = wf_scalar f s"
| "wf_hydrate f d (HMap kvs) = (0 < d \<and> wf_entries f (d - 1) kvs)"
| "wf_hydrate f d (HList vs) = (0 < d \<and> wf_list f (d - 1) vs)"
| "wf_hydrate f d (HText t) = utf8_valid (str_bytes t)"
| "wf_list f d [] = True"
| "wf_list f d (v # vs) = (wf_hydrate f d v \<and> wf_list f d vs)"
| "wf_entries f d [] = True"
| "wf_entries f d ((k, v) # kvs) = (utf8_valid (str_bytes k) \<and> k \<notin> fst ` set kvs \<and> wf_hydrate f d v \<and> wf_entries f d kvs)"

text \<open>The value that Go ends up with.\<close>

fun go_scalar :: "ScalarValue \<Rightarrow> any" where
  "go_scalar SNull = AnyNil"
| "go_scalar (SBoolean b) = AnyBool b"
| "go_scalar (SInt i) = AnyNum (f64_of_int (sint i))"
| "go_scalar (SUint u) = AnyNum (f64_of_int (uint u))"
| "go_scalar (SF64 x) = AnyNum x"
| "go_scalar (SStr s) = AnyStr s"
| "go_scalar (SBytes b) = AnyStr (hex_bytes b)"
| "go_scalar (SCounter i) = AnyNum (f64_of_int (sint i))"
| "go_scalar (STimestamp i) = AnyNum (f64_of_int (sint i))"
| "go_scalar SUnknown = AnyNil"

fun go_hydrate :: "hydrate \<Rightarrow> any"
  and go_items :: "hydrate list \<Rightarrow> any list"
  and go_entries :: "(string \<times> hydrate) list \<Rightarrow> (string \<times> any) list" where
  "go_hydrate (HScalar s) = go_scalar s"
| "go_hydrate (HMap kvs) = AnyMap (go_entries kvs)"
| "go_hydrate (HList vs) = AnyList (go_items vs)"
| "go_hydrate (HText t) = AnyStr t"
| "go_items [] = []"
| "go_items (v # vs) = go_hydrate v # go_items vs"
| "go_entries [] = []"
| "go_entries ((k, v) # kvs) = (k, go_hydrate v) # go_entries kvs"

lemma wf_json_of_scalar: "wf_scalar f s \<Longrightarrow> wf_json d (json_of_scalar f s)"
  by (cases s) (simp_all add: reads_back_def numeral_dec_int hex_bytes_plain)

lemma wf_json_of_hydrate:
  "wf_hydrate f d h \<Longrightarrow> wf_json d (json_of_hydrate f h)"
  "wf_list f d vs \<Longrightarrow> wf_items d (json_items f vs)"
  "wf_entries f d kvs \<Longrightarrow> wf_members d (json_entries f kvs)"
  by (induction f d h and f d vs and f d kvs rule: wf_hydrate_wf_list_wf_entries.induct)
    (simp_all add: wf_json_of_scalar)

lemma parse_float_sint: "parse_float (dec_int (sint (i :: 64 word))) = Some (f64_of_int (sint i))"
proof -
  have "- (2 ^ 63) \<le> sint i" "sint i < 2 ^ 63" using sint_greater_eq [of i] sint_less [of i] by simp_all
  then show ?thesis by (intro parse_float_dec_int) (simp add: abs_less_iff)
qed

lemma into_any_scalar: "wf_scalar f s \<Longrightarrow> into_any (json_of_scalar f s) = Some (go_scalar s)"
  using uint_lt2p [where ?'a = 64]
  by (cases s) (simp_all add: reads_back_def parse_float_dec_int parse_float_sint)

lemma put_entry_fresh: "k \<notin> fst ` set m \<Longrightarrow> put_entry k v m = m @ [(k, v)]"
  by (induction k v m rule: put_entry.induct) auto

lemma into_any_hydrate:
  "wf_hydrate f d h \<Longrightarrow> into_any (json_of_hydrate f h) = Some (go_hydrate h)"
  "wf_list f d vs \<Longrightarrow> into_anys (json_items f vs) = Some (go_items vs)"
  "wf_entries f d kvs \<Longrightarrow> fst ` set m \<inter> fst ` set kvs = {} \<Longrightarrow> into_entries (json_entries f kvs) m = Some (m @ go_entries kvs)"
proof (induction f d h and f d vs and f d kvs arbitrary: and and m rule: wf_hydrate_wf_list_wf_entries.induct)
  case (8 f d k v kvs)
  then have "into_entries (json_entries f kvs) (m @ [(k, go_hydrate v)]) = Some ((m @ [(k, go_hydrate v)]) @ go_entries kvs)"
    by (intro 8) auto
  moreover have "put_entry k (go_hydrate v) m = m @ [(k, go_hydrate v)]" using 8 by (intro put_entry_fresh) auto
  ultimately show ?case using 8 by simp
qed (simp_all add: into_any_scalar)

lemma into_map_any: "into_map into_any (JObj kvs) None = map_option Some (into_entries kvs [])"
proof -
  let ?g = "\<lambda>acc (k, x). Option.bind acc (\<lambda>m. map_option (\<lambda>y. put_entry k y m) (into_any x))"
  have none: "foldl ?g None kvs = None" for kvs by (induction kvs) auto
  have "foldl ?g (Some m) kvs = into_entries kvs m" for m
    by (induction kvs arbitrary: m) (auto simp: none split: option.splits)
  then show ?thesis by (simp add: into_map_def)
qed

section \<open>Spans\<close>

definition json_of_marks :: "(uint64 \<Rightarrow> string) \<Rightarrow> (string \<times> ScalarValue) list \<Rightarrow> (string \<times> json) list" where
  "json_of_marks f kvs = map (\<lambda>(k, v). (k, JStr (scalar_to_string f v))) kvs"

definition span_marks :: "(string \<times> ScalarValue) list option \<Rightarrow> (string \<times> ScalarValue) list" where
  "span_marks ms = (case ms of None \<Rightarrow> [] | Some kvs \<Rightarrow> kvs)"

fun json_of_span :: "(uint64 \<Rightarrow> string) \<Rightarrow> rspan \<Rightarrow> json" where
  "json_of_span f (RSpanText t ms) = JObj [(''type'', JStr ''text''), (''text'', JStr t), (''marks'', JObj (json_of_marks f (span_marks ms)))]"
| "json_of_span f (RSpanBlock kvs) = JObj [(''type'', JStr ''block''), (''value'', JObj (json_entries f kvs))]"

fun wf_span :: "(uint64 \<Rightarrow> string) \<Rightarrow> nat \<Rightarrow> rspan \<Rightarrow> bool" where
  "wf_span f d (RSpanText t ms) \<longleftrightarrow> utf8_valid (str_bytes t) \<and> distinct (map fst (span_marks ms)) \<and>
     list_all (\<lambda>(k, v). utf8_valid (str_bytes k) \<and> utf8_valid (str_bytes (scalar_to_string f v))) (span_marks ms)"
| "wf_span f d (RSpanBlock kvs) \<longleftrightarrow> wf_entries f d kvs"

fun go_span :: "(uint64 \<Rightarrow> string) \<Rightarrow> rspan \<Rightarrow> Span" where
  "go_span f (RSpanText t ms) = SpanText t (map (\<lambda>(k, v). (k, scalar_to_string f v)) (span_marks ms))"
| "go_span f (RSpanBlock kvs) = SpanBlock (go_entries kvs)"

lemma print_marks: "print_members (json_of_marks f kvs) = map (\<lambda>(k, v). quoted k @ CHR 0x3A # quoted (scalar_to_string f v)) kvs"
  by (induction kvs) (auto simp: json_of_marks_def)

lemma span_json_print: "span_json f sp = print_json (json_of_span f sp)"
  by (cases sp) (simp_all add: marks_option_to_json_def span_marks_def print_marks hydrate_map_to_json_def hydrate_json_print
    split: option.splits)

lemma spans_to_json_print: "spans_to_json f sps = print_json (JArr (map (json_of_span f) sps))"
proof -
  have "span_json f = (\<lambda>sp. print_json (json_of_span f sp))" by (rule ext) (rule span_json_print)
  then show ?thesis by (simp add: spans_to_json_def print_items_map comp_def)
qed

lemma wf_members_marks:
  "list_all (\<lambda>(k, v). utf8_valid (str_bytes k) \<and> utf8_valid (str_bytes (scalar_to_string f v))) kvs \<Longrightarrow> wf_members d (json_of_marks f kvs)"
  by (induction kvs) (auto simp: json_of_marks_def)

lemma wf_json_of_span: "wf_span f d sp \<Longrightarrow> wf_json (d + 2) (json_of_span f sp)"
  by (cases sp) (auto simp: wf_members_marks wf_json_of_hydrate)

lemma into_map_marks:
  assumes "distinct (map fst kvs)"
  shows "into_map (\<lambda>x. into_string x []) (JObj (json_of_marks f kvs)) None = Some (Some (map (\<lambda>(k, v). (k, scalar_to_string f v)) kvs))"
proof -
  let ?g = "\<lambda>acc (k, x). Option.bind acc (\<lambda>m. map_option (\<lambda>y. put_entry k y m) (into_string x []))"
  have "foldl ?g (Some m) (json_of_marks f kvs) = Some (m @ map (\<lambda>(k, v). (k, scalar_to_string f v)) kvs)"
    if "distinct (map fst kvs)" "fst ` set m \<inter> fst ` set kvs = {}" for m kvs
    using that
  proof (induction kvs arbitrary: m)
    case (Cons kv kvs)
    obtain k v where kv: "kv = (k, v)" by (cases kv)
    have "put_entry k (scalar_to_string f v) m = m @ [(k, scalar_to_string f v)]" using Cons kv by (intro put_entry_fresh) auto
    moreover have "fst ` set (m @ [(k, scalar_to_string f v)]) \<inter> fst ` set kvs = {}" using Cons.prems kv by auto
    ultimately show ?case using Cons.IH [of "m @ [(k, scalar_to_string f v)]"] Cons.prems kv by (simp add: json_of_marks_def)
  qed (simp add: json_of_marks_def)
  from this [of kvs "[]"] show ?thesis using assms by (simp add: into_map_def)
qed

lemma parse_span_json: "wf_span f d sp \<Longrightarrow> parse_span (json_of_span f sp) = Ok (go_span f sp)"
  by (cases sp) (simp_all add: parse_span_def into_struct_def field_named_def set_header_field_def zero_header_def
    into_map_marks into_map_any into_any_hydrate(3))

lemma span_loop_json: "list_all (wf_span f d) sps \<Longrightarrow> span_loop (map (json_of_span f) sps) = Ok (map (go_span f) sps)"
  by (induction sps) (auto simp: parse_span_json [of f d])

section \<open>Values that end a document early\<close>

text \<open>A value that no continuation makes readable.\<close>

definition unreadable :: "nat \<Rightarrow> string \<Rightarrow> bool" where
  "unreadable d x \<longleftrightarrow> (\<forall>r. parse_value d (x @ r) = None)"

lemma unreadable_item:
  assumes "wf_items d vs" and "unreadable d x"
  shows "parse_items d (commas (print_items vs @ x # xs) @ r) = None"
  using assms(1)
proof (induction vs)
  case Nil
  then show ?case using assms(2) by (simp add: commas_Cons parse_items.simps unreadable_def)
next
  case (Cons v vs)
  let ?t = "CHR 0x2C # commas (print_items vs @ x # xs) @ r"
  have "parse_value d (print_json v @ ?t) = Some (v, ?t)" using Cons.prems by (intro parse_print(1)) (simp_all add: stops_def)
  then show ?case using Cons by (simp add: commas_Cons parse_items.simps [of d "print_json v @ _"])
qed

lemma unreadable_member:
  assumes "wf_members d kvs" and "utf8_valid (str_bytes k)" and "unreadable d x"
  shows "parse_members d (commas (print_members kvs @ (quoted k @ CHR 0x3A # x) # xs) @ r) = None"
  using assms(1)
proof (induction kvs)
  case Nil
  have "parse_str (json_escape k @ CHR 0x22 # CHR 0x3A # x @ t) = Some (k, CHR 0x3A # x @ t)" for t
    using assms(2) by (rule parse_str_escape)
  then show ?case using assms(3) by (simp add: commas_Cons quoted_def parse_members.simps unreadable_def)
next
  case (Cons kv kvs)
  obtain k' v where kv: "kv = (k', v)" by (cases kv)
  let ?t = "CHR 0x2C # commas (print_members kvs @ (quoted k @ CHR 0x3A # x) # xs) @ r"
  have "parse_str (json_escape k' @ CHR 0x22 # CHR 0x3A # print_json v @ ?t) = Some (k', CHR 0x3A # print_json v @ ?t)"
    using Cons.prems kv by (intro parse_str_escape) simp
  moreover have "parse_value d (print_json v @ ?t) = Some (v, ?t)"
    using Cons.prems kv by (intro parse_print(1)) (simp_all add: stops_def)
  ultimately show ?case
    using Cons kv by (simp add: commas_Cons quoted_append parse_members.simps [of d "CHR 0x22 # _"])
qed

lemma unreadable_object:
  assumes "wf_members d kvs" and "utf8_valid (str_bytes k)" and "unreadable d x"
  shows "unreadable (Suc d) (CHR 0x7B # commas (print_members kvs @ (quoted k @ CHR 0x3A # x) # xs) @ [CHR 0x7D])"
proof -
  let ?s = "\<lambda>r. commas (print_members kvs @ (quoted k @ CHR 0x3A # x) # xs) @ r"
  have "\<exists>t. ?s r = CHR 0x22 # t" for r
    by (cases kvs) (auto simp: commas_Cons quoted_def)
  then have "skip_ws (?s r) = ?s r" "?s r \<noteq> []" "hd (?s r) = CHR 0x22" for r
    by (metis not_ws(1) skip_ws_simps(1) list.sel(1) list.distinct(1))+
  then have "skip_ws (?s r) = CHR 0x22 # tl (?s r)" for r by (metis list.collapse)
  moreover have "parse_members d (?s r) = None" for r using unreadable_member assms by blast
  ultimately show ?thesis by (simp add: unreadable_def parse_value.simps [of "Suc d" "CHR 0x7B # _"])
qed

text \<open>What Rust prints for the doubles that are not finite.\<close>

definition not_finite :: "string \<Rightarrow> bool" where
  "not_finite s \<longleftrightarrow> s = ''NaN'' \<or> s = ''inf'' \<or> s = ''-inf''"

lemma unreadable_not_finite: "not_finite s \<Longrightarrow> unreadable d s"
  by (auto simp: not_finite_def unreadable_def parse_value.simps is_ws_def parse_num_def num_sign_def parse_int_def is_digit_def)

lemma print_members_append: "print_members (xs @ ys) = print_members xs @ print_members ys"
  by (induction xs) auto

lemma json_entries_append: "json_entries f (xs @ ys) = json_entries f xs @ json_entries f ys"
  by (induction xs) auto

text \<open>A block with such a double among its properties.\<close>

lemma unreadable_block:
  assumes "wf_entries f d pre" and "utf8_valid (str_bytes k)" and "not_finite (f x)"
  shows "unreadable (d + 2) (span_json f (RSpanBlock (pre @ (k, HScalar (SF64 x)) # post)))"
proof -
  let ?v = "print_json (JObj (json_entries f (pre @ (k, HScalar (SF64 x)) # post)))"
  have "unreadable (Suc d) ?v"
    using unreadable_object [OF wf_json_of_hydrate(3) [OF assms(1)] assms(2) unreadable_not_finite [OF assms(3)]]
    by (simp add: json_entries_append print_members_append)
  then have "unreadable (Suc (Suc d)) (CHR 0x7B # commas (print_members [(''type'', JStr ''block'')] @
      (quoted ''value'' @ CHR 0x3A # ?v) # []) @ [CHR 0x7D])"
    by (intro unreadable_object) simp_all
  then show ?thesis by (simp add: span_json_print)
qed

lemma parse_spans_stuck:
  assumes "list_all (wf_span f (maxNestingDepth - 3)) before" and "unreadable (maxNestingDepth - 1) (span_json f sp)"
  shows "json_parse (spans_to_json f (before @ sp # after)) = None"
proof -
  have wf: "wf_items (maxNestingDepth - 1) (map (json_of_span f) before)"
    using assms(1) wf_json_of_span [of f "maxNestingDepth - 3"] by (simp add: wf_items_all list_all_iff maxNestingDepth_def)
  let ?s = "commas (print_items (map (json_of_span f) before) @ span_json f sp # map (span_json f) after) @ [CHR 0x5D]"
  have "\<exists>t. span_json f x @ r = CHR 0x7B # t" for x r by (cases x) simp_all
  then have "\<exists>t. ?s = CHR 0x7B # t"
    by (cases before) (simp_all add: commas_Cons span_json_print [symmetric])
  then obtain t where t: "?s = CHR 0x7B # t" ..
  have "parse_items (maxNestingDepth - 1) ?s = None" by (rule unreadable_item [OF wf assms(2)])
  moreover have "spans_to_json f (before @ sp # after) = CHR 0x5B # ?s"
    by (simp add: spans_to_json_def print_items_map comp_def span_json_print [symmetric])
  ultimately show ?thesis unfolding t by (simp add: json_parse_def parse_value.simps maxNestingDepth_def)
qed

section \<open>What Go reads\<close>

lemma parse_spans_print:
  assumes "list_all (wf_span f (maxNestingDepth - 3)) sps"
  shows "parse_spans (spans_to_json f sps) = Ok (map (go_span f) sps)"
proof (cases "sps = []")
  case False
  have "list_all (wf_json (maxNestingDepth - 1)) (map (json_of_span f) sps)"
    using assms wf_json_of_span [of f "maxNestingDepth - 3"] by (simp add: list_all_iff maxNestingDepth_def)
  note j = parsed_array [OF this]
  have "into_slice Some (JArr vs) = Some vs" for vs using all_some_map [of vs Some "\<lambda>x. x"] by (simp add: into_slice_def)
  then show ?thesis
    using j False span_loop_json [OF assms] unfolding parse_spans_def spans_to_json_print by simp
qed (simp add: parse_spans_def spans_to_json_def)

lemma parse_spans_stuck_block:
  assumes "list_all (wf_span f (maxNestingDepth - 3)) before" and "wf_entries f (maxNestingDepth - 3) pre"
    and "utf8_valid (str_bytes k)" and "not_finite (f x)"
  shows "parse_spans (spans_to_json f (before @ RSpanBlock (pre @ (k, HScalar (SF64 x)) # post) # after)) =
    Error (Errorf ''automerge.Text: failed to parse spans JSON: %w'' [AErr json_syntax_error])"
proof -
  let ?b = "RSpanBlock (pre @ (k, HScalar (SF64 x)) # post)"
  have "unreadable (maxNestingDepth - 1) (span_json f ?b)"
    using unreadable_block [OF assms(2-4), of post] by (simp add: maxNestingDepth_def)
  then have j: "json_parse (spans_to_json f (before @ ?b # after)) = None" by (rule parse_spans_stuck [OF assms(1)])
  moreover have "spans_to_json f (before @ ?b # after) \<noteq> ''[]''"
  proof
    assume "spans_to_json f (before @ ?b # after) = ''[]''"
    moreover have "json_parse ''[]'' = Some (JArr [])" by (simp add: json_parse_def parse_value.simps maxNestingDepth_def)
    ultimately show False using j by simp
  qed
  ultimately show ?thesis by (simp add: parse_spans_def)
qed

end
