(* ===== verification/RichTextEnd.thy ===== *)
theory RichTextEnd
  imports EndToEnd RichTextSpec
begin

text \<open>
  \<open>Text.Marks\<close> and \<open>Text.Spans\<close> through all layers: from the crate's marks and spans, over the JSON
  that the Rust shim writes and the bytes in guest memory, to the Go values that the caller gets.
\<close>

section \<open>Reading JSON through the backend\<close>

text \<open>A text of a free document whose backend instance is open and holds it.\<close>

definition text_ready ::
  "('d, 'o, 's) automerge \<Rightarrow> ('d, 'o, 's) instance_state prog \<Rightarrow> ref \<Rightarrow> ref \<Rightarrow> ObjHandle \<Rightarrow> Doc \<Rightarrow> ('d, 'o, 's) guest \<Rightarrow> 'o \<Rightarrow> 'd \<Rightarrow> bool"
where
  "text_ready C P t d h D g ob doc \<longleftrightarrow> p_texts P t = Some (text_at d h) \<and> p_docs P d = Some D \<and> \<not> doc_held D \<and>
     inst P (doc_b D) = Some (g, False) \<and> shim_sound g \<and> table_get (c_root C) (g_table g) h = Some ob \<and> g_doc g = Some doc"

text \<open>Room for the text of the answer, in the memory of the guest and in a \<open>Vec\<close> of the shim.\<close>

definition room_to_read :: "allocator \<Rightarrow> uint32 \<Rightarrow> ('d, 'o, 's) guest \<Rightarrow> string \<Rightarrow> bool" where
  "room_to_read A N g j \<longleftrightarrow> roomy A N \<and> unat N < 2 ^ 31 \<and> g_blocks g = [] \<and> length (g_last_error g) \<le> unat N \<and>
     length j \<le> unat N"

lemma fetched_json:
  assumes "table_get (c_root C) (g_table c) h = Some ob" and "g_doc c = Some doc" and "K ob doc = Some j"
    and "j \<noteq> []" and "length j < 2 ^ 31"
  shows "fetched (at_obj C h (\<lambda>ob d. prepare_json (K ob d)) 0 0) none (\<lambda>data. Ok (bytes_str data)) c =
    (Ok j, c\<lparr>g_return_buf := str_bytes j\<rparr>)"
proof -
  have "unat (word_of_nat (length j) :: uint32) = length j" using assms(5) by (intro unat_word_of_nat_less) simp
  then have "word_of_nat (length j) \<noteq> (0 :: uint32)" using assms(4) by (metis length_0_conv unat_0)
  then show ?thesis
    using assms by (simp add: fetched_def at_obj_def resolve_obj_def with_doc_def prepare_json_def prepare_def set_return_buf_def return_buf_len_def)
qed

lemma read_json:
  assumes "refines A N m (fetched (at_obj C h (\<lambda>ob d. prepare_json (K ob d)) 0 0) none (\<lambda>data. Ok (bytes_str data)))"
    and "text_ready C P t d h D g ob doc" and "K ob doc = Some j" and "j \<noteq> []" and "room_to_read A N g j"
  obtains g' where "m (g, False) = (Ok j, (g', False))"
proof -
  let ?s = "fetched (at_obj C h (\<lambda>ob d. prepare_json (K ob d)) 0 0) none (\<lambda>data. Ok (bytes_str data)) (core g)"
  have s: "?s = (Ok j, (core g)\<lparr>g_return_buf := str_bytes j\<rparr>)"
    using assms(2-5) by (intro fetched_json) (auto simp: text_ready_def room_to_read_def core_def)
  have "shim_sound g" using assms(2) by (simp add: text_ready_def)
  then obtain r g' where r: "m (g, False) = (r, (g', False))" "as_spec A N 0 ?s g r (core g')"
    by (rule refinesE [OF assms(1)])
  have "room_for A N 0 (g_blocks g) (snd ?s)"
    unfolding s using assms(5) by (auto simp: room_to_read_def room_for_def tight_def small_def)
  then have "r = Ok j" using r(2) by (simp add: as_spec_def s)
  then show ?thesis using that r(1) by simp
qed

text \<open>A method of a text that parses what its backend call returns.\<close>

lemma parsed_call:
  assumes "text_ready C P t d h D g ob doc" and "m h (g, False) = (Ok j, w)"
  shows "on_text R t nodoc nontext (\<lambda>t. andThen (read_text t) (\<lambda>o'. lock_of (text_doc o') (\<lambda>b.
     andThen (wrapped fmt (on_b b (m (text_handle o')))) (\<lambda>j. lift (parse j))))) P = (parse j, put_inst (doc_b D) w P)"
proof -
  have "inst (set_held d True P) (doc_b D) = Some (g, False)"
    using assms(1) by (simp add: text_ready_def inst_def set_held_def)
  moreover have "set_held d False (put_inst b x (set_held d True P)) = put_inst b x P" for b x
    using assms(1) by (auto simp: text_ready_def set_held_def put_inst_def fun_upd_idem_iff)
  ultimately show ?thesis
    using assms
    by (simp add: text_ready_def on_text_def text_at_def read_text_def lock_of_def with_lock_def deferred_def andThen_def wrapped_def
        on_b_inst lift_def split_beta)
qed

lemma rt_module_guest: "rt_module (guest_runtime C A wasi compile sz) = guest_module C A"
  by (simp add: guest_runtime_def)

lemma marks_through_layers:
  assumes "text_ready C P t d h D g ob doc" and "c_marks C ob doc = Some ms"
    and "room_to_read A N g (marks_to_json (f64_to_string C) ms)"
  obtains w where "Text_Marks (guest_runtime C A wasi compile sz) t P =
    (parse_marks (marks_to_json (f64_to_string C) ms), put_inst (doc_b D) w P)"
proof -
  obtain g' where j: "Marks (guest_module C A) h (g, False) = (Ok (marks_to_json (f64_to_string C) ms), (g', False))"
    by (rule read_json [OF refines_Marks(1) [unfolded spec_Marks_def] assms(1) _ _ assms(3)]) (auto simp: assms(2) marks_to_json_def)
  have "Text_Marks (guest_runtime C A wasi compile sz) t P =
    (parse_marks (marks_to_json (f64_to_string C) ms), put_inst (doc_b D) (g', False) P)"
    unfolding Text_Marks_def rt_module_guest by (rule parsed_call [where m = "Marks (guest_module C A)", OF assms(1) j])
  then show ?thesis by (rule that)
qed

lemma spans_through_layers:
  assumes "text_ready C P t d h D g ob doc" and "c_spans C ob doc = Some sps"
    and "room_to_read A N g (spans_to_json (f64_to_string C) sps)"
  obtains w where "Text_Spans (guest_runtime C A wasi compile sz) t P =
    (parse_spans (spans_to_json (f64_to_string C) sps), put_inst (doc_b D) w P)"
proof -
  obtain g' where j: "Spans (guest_module C A) h (g, False) = (Ok (spans_to_json (f64_to_string C) sps), (g', False))"
    by (rule read_json [OF refines_Marks(2) [unfolded spec_Spans_def] assms(1) _ _ assms(3)]) (auto simp: assms(2) spans_to_json_def)
  have "Text_Spans (guest_runtime C A wasi compile sz) t P =
    (parse_spans (spans_to_json (f64_to_string C) sps), put_inst (doc_b D) (g', False) P)"
    unfolding Text_Spans_def rt_module_guest by (rule parsed_call [where m = "Spans (guest_module C A)", OF assms(1) j])
  then show ?thesis by (rule that)
qed

section \<open>A crate with rich text\<close>

definition sample_marks :: "rmark list" where
  "sample_marks = [\<lparr>rm_name = ''bold'', rm_value = SBoolean True, rm_start = 0, rm_end = 5\<rparr>,
     \<lparr>rm_name = ''link'', rm_value = SStr [CHR 0x22, CHR 0xC3, CHR 0xA9, CHR 0x0A], rm_start = 2, rm_end = 12\<rparr>]"

definition sample_spans :: "rspan list" where
  "sample_spans = [RSpanBlock [(''type'', HScalar (SStr ''heading'')), (''level'', HScalar (SInt (- 3))),
       (''attrs'', HMap [(''x'', HScalar (SF64 4607182418800017408)), (''raw'', HScalar (SBytes [0xAB]))]), (''parents'', HList [])],
     RSpanText ''hello'' (Some [(''bold'', SBoolean True)]), RSpanText ''!'' None]"

definition rich_crate :: "rspan list \<Rightarrow> (uint64 \<Rightarrow> string) \<Rightarrow> (kv_doc, unit, unit) automerge" where
  "rich_crate sps f = kv_crate\<lparr>c_marks := \<lambda>_ _. Some sample_marks, c_spans := \<lambda>_ _. Some sps, f64_to_string := f\<rparr>"

definition rich_guest :: "(kv_doc, unit, unit) guest" where
  "rich_guest = (fresh_guest 65536)\<lparr>g_doc := Some []\<rparr>"

definition rich_prog :: "(kv_doc, unit, unit) instance_state prog" where
  "rich_prog = kv_prog\<lparr>p_texts := [2 \<mapsto> text_at 0 0]\<rparr>"

lemma text_ready_rich: "text_ready (rich_crate sps f) rich_prog 2 0 0 kv_Doc rich_guest () []"
  by (simp add: text_ready_def rich_prog_def rich_guest_def kv_Doc_def kv_prog_def kv_start_def inst_def shim_sound_def fresh_guest_def
      table_get_def rich_crate_def kv_crate_def)

lemma room_rich: "length j \<le> 1000 \<Longrightarrow> room_to_read slots 1000 rich_guest j"
  by (simp add: room_to_read_def roomy_slots rich_guest_def fresh_guest_def)

section \<open>Properties\<close>



text \<open>
  C7: Text.Spans returns, through the locks, the backend, guest memory and the JSON that the Rust
  shim writes, exactly the spans that the crate reports: text runs with their marks, and blocks
  with their properties at any depth up to the nesting limit of the JSON reader, integers as the
  nearest float64 and bytes in hexadecimal; it changes nothing but the instance. It assumes room
  in the guest, text in UTF-8, each key once, and that Rust prints a double as a JSON number
  that denotes it.
\<close>

theorem Text_Spans_returns:
  assumes "text_ready C P t d h D g ob doc" and "c_spans C ob doc = Some sps"
    and "list_all (wf_span (f64_to_string C) (maxNestingDepth - 3)) sps"
    and "room_to_read A N g (spans_to_json (f64_to_string C) sps)"
  shows "\<exists>w. Text_Spans (guest_runtime C A wasi compile sz) t P = (Ok (map (go_span (f64_to_string C)) sps), put_inst (doc_b D) w P)"
  using spans_through_layers [OF assms(1,2,4)] parse_spans_print [OF assms(3)] by metis

theorem Text_Spans_returns_witness:
  "list_all (wf_span (\<lambda>x. ''1'') (maxNestingDepth - 3)) sample_spans \<and>
   fst (Text_Spans (guest_runtime (rich_crate sample_spans (\<lambda>x. ''1'')) slots None None 65536) 2 rich_prog) =
     Ok [SpanBlock [(''type'', AnyStr ''heading''), (''level'', AnyNum (f64_of_int (- 3))),
           (''attrs'', AnyMap [(''x'', AnyNum 4607182418800017408), (''raw'', AnyStr ''ab'')]), (''parents'', AnyList [])],
         SpanText ''hello'' [(''bold'', ''true'')], SpanText ''!'' []]"
proof -
  have one: "reads_back (\<lambda>x. ''1'') 4607182418800017408" unfolding reads_back_def numeral_literal_def by code_simp
  have utf8: "utf8_valid (str_bytes ''heading'')" "utf8_valid (str_bytes ''level'')"
    "utf8_valid (str_bytes ''attrs'')" "utf8_valid (str_bytes ''x'')" "utf8_valid (str_bytes ''raw'')" "utf8_valid (str_bytes ''parents'')"
    "utf8_valid (str_bytes ''hello'')" "utf8_valid (str_bytes ''bold'')" "utf8_valid (str_bytes ''true'')" "utf8_valid (str_bytes ''!'')"
    by (simp_all add: utf8_ascii)
  have wf: "list_all (wf_span (\<lambda>x. ''1'') (maxNestingDepth - 3)) sample_spans"
    by (simp add: sample_spans_def maxNestingDepth_def one utf8 span_marks_def)
  have "hex_bytes [0xAB] = ''ab''" by code_simp
  then have go: "map (go_span (\<lambda>x. ''1'')) sample_spans =
     [SpanBlock [(''type'', AnyStr ''heading''), (''level'', AnyNum (f64_of_int (- 3))),
           (''attrs'', AnyMap [(''x'', AnyNum 4607182418800017408), (''raw'', AnyStr ''ab'')]), (''parents'', AnyList [])],
         SpanText ''hello'' [(''bold'', ''true'')], SpanText ''!'' []]"
    by (simp add: sample_spans_def span_marks_def)
  have "length (spans_to_json (\<lambda>x. ''1'') sample_spans) \<le> 1000" by code_simp
  note room = room_rich [OF this]
  have C: "c_spans (rich_crate sample_spans (\<lambda>x. ''1'')) () [] = Some sample_spans"
    "f64_to_string (rich_crate sample_spans (\<lambda>x. ''1'')) = (\<lambda>x. ''1'')" by (simp_all add: rich_crate_def)
  show ?thesis
    using Text_Spans_returns [OF text_ready_rich C(1), of slots 1000 None None 65536, unfolded C(2), OF wf room] wf go by auto
qed

text \<open>
  C36: A block with a property that is not a finite double makes Text.Spans fail on the whole text:
  Rust prints NaN or inf, which the JSON reader refuses, so no span of the text can be read.
\<close>

theorem Text_Spans_not_finite:
  assumes "text_ready C P t d h D g ob doc"
    and "c_spans C ob doc = Some (sps @ RSpanBlock (pre @ (k, HScalar (SF64 x)) # post) # sps')"
    and "list_all (wf_span (f64_to_string C) (maxNestingDepth - 3)) sps" and "wf_entries (f64_to_string C) (maxNestingDepth - 3) pre"
    and "utf8_valid (str_bytes k)" and "not_finite (f64_to_string C x)"
    and "room_to_read A N g (spans_to_json (f64_to_string C) (sps @ RSpanBlock (pre @ (k, HScalar (SF64 x)) # post) # sps'))"
  shows "fst (Text_Spans (guest_runtime C A wasi compile sz) t P) =
    Error (Errorf ''automerge.Text: failed to parse spans JSON: %w'' [AErr json_syntax_error])"
  using spans_through_layers [OF assms(1,2,7)] parse_spans_stuck_block [OF assms(3-6)] by (metis fst_conv)

theorem Text_Spans_not_finite_witness:
  "fst (Text_Spans (guest_runtime (rich_crate [RSpanText ''a'' None, RSpanBlock [(''level'', HScalar (SF64 0x7FF8000000000000))]]
     (\<lambda>x. ''NaN'')) slots None None 65536) 2 rich_prog) =
   Error (Errorf ''automerge.Text: failed to parse spans JSON: %w'' [AErr json_syntax_error])"
proof -
  let ?sps = "[RSpanText ''a'' None] @ RSpanBlock ([] @ (''level'', HScalar (SF64 0x7FF8000000000000)) # []) # []"
  have utf8: "utf8_valid (str_bytes ''a'')" "utf8_valid (str_bytes ''level'')" by (simp_all add: utf8_ascii)
  then have wf: "list_all (wf_span (\<lambda>x. ''NaN'') (maxNestingDepth - 3)) [RSpanText ''a'' None]" by (simp add: span_marks_def)
  have "length (spans_to_json (\<lambda>x. ''NaN'') ?sps) \<le> 1000" by code_simp
  note room = room_rich [OF this]
  have C: "c_spans (rich_crate ?sps (\<lambda>x. ''NaN'')) () [] = Some ?sps"
    "f64_to_string (rich_crate ?sps (\<lambda>x. ''NaN'')) = (\<lambda>x. ''NaN'')" by (simp_all add: rich_crate_def)
  show ?thesis
    using Text_Spans_not_finite [OF text_ready_rich C(1), of slots 1000 None None 65536, unfolded C(2), OF wf _ utf8(2) _ room]
    by (simp add: not_finite_def)
qed

end
