(* ===== verification/Paths.thy ===== *)
theory Paths
  imports Api
begin

text \<open>
  \<open>Path.Path\<close> of \<open>path.go\<close> and \<open>Doc.Path\<close> in detail: the check of the segments by reflection, and the
  slices of Go that hold them. Everywhere else a path is the list of its segments
  (\<open>Path_Path\<close>); this theory shows how far that view holds.
\<close>

section \<open>Segments\<close>

text \<open>
  An argument as reflection sees it: a value of a signed integer kind, of kind string, of another
  kind that Go converts to a string (unsigned integers, slices of bytes and of runes) with the name of its
  type, the nil interface, or anything else.
\<close>

datatype path_arg = ArgInt int64 | ArgString string | ArgConvertible string | ArgNil | ArgOther string

definition invalid_segment :: "string \<Rightarrow> go_error" where
  "invalid_segment T = Errorf ''automerge: invalid path segment, expected string or int, got: %T(%#v)'' [AStr T]"

definition reflect_zero_Value :: go_error where
  "reflect_zero_Value = Errorf ''reflect: call of reflect.Value.Type on zero Value'' []"

text \<open>\<open>rv.String()\<close> is the text of a string, and for any other kind a description of the type.\<close>

fun segment :: "path_arg \<Rightarrow> seg outcome" where
  "segment (ArgInt i) = Ok (SIdx (sint i))"
| "segment (ArgString s) = Ok (SKey s)"
| "segment (ArgConvertible T) = Ok (SKey (''<'' @ T @ '' Value>''))"
| "segment ArgNil = Panic reflect_zero_Value"
| "segment (ArgOther T) = Panic (invalid_segment T)"

fun segments :: "path_arg list \<Rightarrow> seg list outcome" where
  "segments [] = Ok []"
| "segments (a # as) = (case segment a of
     Ok x \<Rightarrow> map_outcome_of (Cons x) (segments as)
   | Error e \<Rightarrow> Error e
   | Panic e \<Rightarrow> Panic e)"

section \<open>Slices\<close>

text \<open>
  A slice that starts at the front of its backing array; its capacity is the length of the array.
  Slots that no slice covers are \<open>None\<close>. Array 0 is empty: the nil slice has it.
\<close>

record slice =
  sl_arr :: nat
  sl_len :: nat

record slice_heap =
  h_arrays :: "nat \<Rightarrow> seg option list"
  h_next :: nat

definition elems :: "slice_heap \<Rightarrow> slice \<Rightarrow> seg option list" where
  "elems st s = take (sl_len s) (h_arrays st (sl_arr s))"

text \<open>The built-in \<open>append\<close>. How much a new array has to spare is up to the run-time system.\<close>

definition go_append :: "(nat \<Rightarrow> nat \<Rightarrow> nat) \<Rightarrow> slice \<Rightarrow> seg list \<Rightarrow> slice_heap \<Rightarrow> slice \<times> slice_heap" where
  "go_append spare s xs st =
     (let a = h_arrays st (sl_arr s); n = sl_len s + length xs
      in if n \<le> length a
         then (s\<lparr>sl_len := n\<rparr>, st\<lparr>h_arrays := (h_arrays st)(sl_arr s := take (sl_len s) a @ map Some xs @ drop n a)\<rparr>)
         else (\<lparr>sl_arr = h_next st, sl_len = n\<rparr>,
               st\<lparr>h_arrays := (h_arrays st)(h_next st := take (sl_len s) a @ map Some xs @ replicate (spare (length a) n) None),
                  h_next := Suc (h_next st)\<rparr>))"

record path_ref =
  pr_d :: ref
  pr_path :: slice

definition Path_extend ::
  "(nat \<Rightarrow> nat \<Rightarrow> nat) \<Rightarrow> path_ref \<Rightarrow> path_arg list \<Rightarrow> (slice_heap, path_ref) comp" where
  "Path_extend spare p as st = (case segments as of
     Ok xs \<Rightarrow> (case go_append spare (pr_path p) xs st of (s, st') \<Rightarrow> (Ok \<lparr>pr_d = pr_d p, pr_path = s\<rparr>, st'))
   | Error e \<Rightarrow> (Error e, st)
   | Panic e \<Rightarrow> (Panic e, st))"

definition Doc_path_ref ::
  "(nat \<Rightarrow> nat \<Rightarrow> nat) \<Rightarrow> ref \<Rightarrow> path_arg list \<Rightarrow> (slice_heap, path_ref) comp" where
  "Doc_path_ref spare d as = Path_extend spare \<lparr>pr_d = d, pr_path = \<lparr>sl_arr = 0, sl_len = 0\<rparr>\<rparr> as"

section \<open>The path that a reference stands for\<close>

definition path_of :: "slice_heap \<Rightarrow> path_ref \<Rightarrow> Path" where
  "path_of st p = \<lparr>path_d = pr_d p, path_path = map the (elems st (pr_path p))\<rparr>"

definition in_heap :: "slice_heap \<Rightarrow> path_ref \<Rightarrow> bool" where
  "in_heap st p \<longleftrightarrow> sl_arr (pr_path p) < h_next st \<and> sl_len (pr_path p) \<le> length (h_arrays st (sl_arr (pr_path p)))"

text \<open>Whether \<open>append\<close> of \<open>n\<close> elements to \<open>p\<close> writes over elements of \<open>q\<close>.\<close>

definition overwrites :: "slice_heap \<Rightarrow> path_ref \<Rightarrow> nat \<Rightarrow> path_ref \<Rightarrow> bool" where
  "overwrites st p n q \<longleftrightarrow> sl_arr (pr_path q) = sl_arr (pr_path p) \<and> sl_len (pr_path p) < sl_len (pr_path q) \<and>
     sl_len (pr_path p) + n \<le> length (h_arrays st (sl_arr (pr_path p)))"

lemma go_append_elems:
  assumes "in_heap st p" and "go_append spare (pr_path p) xs st = (s, st')"
  shows "elems st' s = elems st (pr_path p) @ map Some xs"
    and "in_heap st' \<lparr>pr_d = d, pr_path = s\<rparr>"
    and "in_heap st q \<Longrightarrow> \<not> overwrites st p (length xs) q \<Longrightarrow> elems st' (pr_path q) = elems st (pr_path q)"
    and "in_heap st q \<Longrightarrow> in_heap st' q"
  using assms
  by (cases xs; auto simp: go_append_def Let_def elems_def in_heap_def overwrites_def min_def split: if_splits)+

text \<open>
  C11: On the slices of Go, Path.Path gives a path with the segments of its parent and the new ones,
  the parent keeps its segments, and so does every other path but those that share the backing
  array, are longer than the parent, and fall into its spare capacity.
\<close>

theorem Path_extend_refines:
  assumes "in_heap st p" and "segments as = Ok xs"
  shows "case Path_extend spare p as st of
      (Ok q, st') \<Rightarrow> path_of st' q = Path_Path (path_of st p) xs \<and> in_heap st' q \<and> path_of st' p = path_of st p \<and>
        (\<forall>r. in_heap st r \<and> \<not> overwrites st p (length xs) r \<longrightarrow> in_heap st' r \<and> path_of st' r = path_of st r)
    | _ \<Rightarrow> False"
proof -
  obtain s st' where a: "go_append spare (pr_path p) xs st = (s, st')" by fastforce
  have "elems st' (pr_path p) = elems st (pr_path p)"
    by (rule go_append_elems(3) [OF assms(1) a assms(1)]) (simp add: overwrites_def)
  then show ?thesis
    using assms(2) a go_append_elems [OF assms(1) a]
    by (auto simp: Path_extend_def path_of_def Path_Path_def comp_def)
qed

definition doubling :: "nat \<Rightarrow> nat \<Rightarrow> nat" where
  "doubling old n = max n (2 * old) - n"

definition empty_heap :: slice_heap where
  "empty_heap = \<lparr>h_arrays = \<lambda>_. [], h_next = 1\<rparr>"

definition abc_path :: "path_ref outcome \<times> slice_heap" where
  "abc_path = andThen (andThen (Doc_path_ref doubling 0 [ArgString ''a'']) (\<lambda>p. Path_extend doubling p [ArgString ''b'']))
     (\<lambda>p. Path_extend doubling p [ArgString ''c'']) empty_heap"

theorem Path_extend_refines_witness:
  "case abc_path of (Ok p, st) \<Rightarrow> in_heap st p \<and> (case Path_extend doubling p [ArgInt 7] st of
      (Ok q, st') \<Rightarrow> path_of st' q = \<lparr>path_d = 0, path_path = [SKey ''a'', SKey ''b'', SKey ''c'', SIdx 7]\<rparr>
    | _ \<Rightarrow> False)
   | _ \<Rightarrow> False"
proof -
  obtain p st where abc: "abc_path = (Ok p, st)" "in_heap st p" "path_of st p = \<lparr>path_d = 0, path_path = [SKey ''a'', SKey ''b'', SKey ''c'']\<rparr>"
    by (simp add: abc_path_def Doc_path_ref_def Path_extend_def go_append_def andThen_def empty_heap_def doubling_def in_heap_def
        path_of_def elems_def Let_def)
  have "segments [ArgInt 7] = Ok [SIdx 7]" by simp
  from Path_extend_refines [OF abc(2) this, of doubling] show ?thesis
    unfolding abc(1) using abc(2-) by (auto simp: Path_Path_def split: prod.splits outcome.splits)
qed

text \<open>
  C35: Two paths made from one parent whose slice has spare capacity share an element: after the
  second is made, the first reads as the second.
\<close>

theorem sibling_paths_alias:
  assumes "in_heap st p" and "sl_len (pr_path p) < length (h_arrays st (sl_arr (pr_path p)))"
    and "segment a = Ok x" and "segment b = Ok y"
  shows "case Path_extend spare p [a] st of
      (Ok q, st1) \<Rightarrow> path_of st1 q = Path_Path (path_of st p) [x] \<and> (case Path_extend spare p [b] st1 of
          (Ok q', st2) \<Rightarrow> path_of st2 q = Path_Path (path_of st p) [y]
        | _ \<Rightarrow> False)
    | _ \<Rightarrow> False"
  using assms
  by (auto simp: Path_extend_def go_append_def Let_def path_of_def elems_def in_heap_def Path_Path_def min_def)

theorem sibling_paths_alias_witness:
  "case abc_path of (Ok p, st) \<Rightarrow> (case Path_extend doubling p [ArgString ''x''] st of
      (Ok q, st1) \<Rightarrow> path_path (path_of st1 q) = [SKey ''a'', SKey ''b'', SKey ''c'', SKey ''x''] \<and>
        (case Path_extend doubling p [ArgString ''y''] st1 of
          (Ok q', st2) \<Rightarrow> path_path (path_of st2 q) = [SKey ''a'', SKey ''b'', SKey ''c'', SKey ''y'']
        | _ \<Rightarrow> False)
      | _ \<Rightarrow> False)
   | _ \<Rightarrow> False"
proof -
  obtain p st where abc: "abc_path = (Ok p, st)" "in_heap st p" "sl_len (pr_path p) < length (h_arrays st (sl_arr (pr_path p)))"
    "path_of st p = \<lparr>path_d = 0, path_path = [SKey ''a'', SKey ''b'', SKey ''c'']\<rparr>"
    by (simp add: abc_path_def Doc_path_ref_def Path_extend_def go_append_def andThen_def empty_heap_def doubling_def in_heap_def
        path_of_def elems_def Let_def)
  let ?x = "ArgString ''x''" and ?y = "ArgString ''y''"
  obtain q st1 where q: "Path_extend doubling p [?x] st = (Ok q, st1)" by (simp add: Path_extend_def split_beta)
  obtain q' st2 where q': "Path_extend doubling p [?y] st1 = (Ok q', st2)" by (simp add: Path_extend_def split_beta)
  have "path_of st1 q = Path_Path (path_of st p) [SKey ''x''] \<and> path_of st2 q = Path_Path (path_of st p) [SKey ''y'']"
    using sibling_paths_alias [OF abc(2,3), of ?x "SKey ''x''" ?y "SKey ''y''" doubling] by (simp add: q q')
  then show ?thesis using abc(4) by (simp add: abc(1) q q' Path_Path_def)
qed

section \<open>Segments of other types\<close>

text \<open>
  The documentation promises a panic for segments that are neither a string nor an int. An unsigned integer
  is let through and becomes a key made from the name of its type.
\<close>

lemma segment_total: "segment a = Panic e \<longleftrightarrow> a = ArgNil \<and> e = reflect_zero_Value \<or> (\<exists>T. a = ArgOther T \<and> e = invalid_segment T)"
  by (cases a) auto

lemma unsigned_segment: "segments [ArgConvertible ''uint''] = Ok [SKey ''<uint Value>'']"
  by simp

end
