(* ===== verification/Spec2Isabelle.thy ===== *)
theory Spec2Isabelle
  imports Wire DebugFile EndToEnd NormalizeSpec BackendSim RichTextEnd Paths
begin

text \<open>
  A verification library for automerge-go, the Go binding of the automerge CRDT.

  \<^bold>\<open>The program.\<close> A Go program calls the public API (\<open>doc.go\<close>, \<open>map.go\<close>, \<open>list.go\<close>, \<open>text.go\<close>, \<open>counter.go\<close>,
  \<open>path.go\<close>, \<open>value.go\<close>, \<open>changes.go\<close>, \<open>sync_state.go\<close>, \<open>normalize.go\<close>). Each document has a lock and a backend
  instance (\<open>internal/wazero/wazero.go\<close>), which runs the automerge crate compiled to WebAssembly. The
  backend writes its arguments into guest memory, calls an exported function of the Rust shim
  (\<open>wasi/src\<close>), and copies the answer out of guest memory in a second call. Values cross the boundary
  in a tagged byte format (\<open>internal/backend/backend.go\<close> and \<open>wasi/src/value.rs\<close>). A separate command
  (\<open>cmd/automerge-debug/main.go\<close>) prints, compresses and repairs binary chunks.

  \<^bold>\<open>The theories\<close>, from the bottom:
  \<^item> \<open>Prelude\<close> has Go's words, errors and outcomes, and the computations that all stateful code is
    written in: \<open>andThen\<close> for the error check after a call, \<open>deferred\<close> for \<open>defer\<close>. \<open>Bytes\<close> has
    little-endian integers, hexadecimal text and the interfaces \<open>fixed_codec\<close> and \<open>framing\<close>.
  \<^item> \<open>Codec\<close> is \<open>backend.go\<close>; \<open>Wire\<close> relates it to the encoders of \<open>value.rs\<close>, \<open>obj.rs\<close> and \<open>changes.rs\<close>.
    They show that each side reads what the other writes, that decoding is total, and where the
    two sides disagree.
  \<^item> \<open>Leb128\<close> and \<open>ChangeChunks\<close> are the variable-length integers and \<open>splitChangeChunks\<close>: the strict
    reader accepts exactly the canonical encodings, chunks are cut without loss, and the loop
    ends unless a length overflows, in which case it can run for ever.
  \<^item> \<open>Wazero\<close> has the methods of \<open>Backend\<close> over a record \<open>api_module\<close> of what the runtime offers;
    \<open>GuestInterface\<close> and \<open>Guest\<close> have the Rust shim over a record of what the crate offers, with guest
    memory as a list of blocks and bytes. \<open>GuestSafety\<close> shows that no sequence of backend calls
    leaks, frees twice or touches memory outside of a block. \<open>GuestRefine\<close>, \<open>BackendSpec\<close>,
    \<open>BackendSpecText\<close> and \<open>BackendSpecSync\<close> show, method by method, that the detour through guest memory
    computes what a direct call of the crate would compute (\<open>refines\<close>), up to lack of guest
    memory. \<open>BackendSim\<close> puts them together: the locale \<open>simulation\<close> lifts one call to sequences of calls,
    and its interpretation shows that any sequence of backend calls behaves as the crate, and that
    every call is answered when the allocator is \<open>roomy\<close>.
  \<^item> \<open>Runtime\<close> and \<open>GuestRuntime\<close> are the compilation of the module, the instances and the constructors:
    every error path closes the instance it opened.
  \<^item> \<open>Doc\<close> and \<open>Api\<close> are the public API. The program state \<open>prog\<close> has the instances, the documents with
    their locks and the Go objects, reached by references. \<open>ApiLocks\<close> and \<open>ApiOps\<close> show that no client
    deadlocks. \<open>EndToEnd\<close> follows a write and a read through all layers.
  \<^item> \<open>Paths\<close> has \<open>Path.Path\<close> on Go's slices. It refines the view of a path as the list of its segments,
    which the rest of the library takes, up to the sharing of backing arrays, which it exhibits.
  \<^item> \<open>RichText\<close> is the JSON printer of \<open>richtext_ops.rs\<close>, \<open>Json\<close> what the program uses of Go's package
    \<open>encoding/json\<close>, and \<open>TextMarks\<close> the decoding in \<open>Text.Marks\<close> and \<open>Text.Spans\<close>. \<open>JsonPrint\<close> shows that the
    reader inverts the printer on every JSON value; \<open>RichTextSpec\<close> and \<open>RichTextEnd\<close> show that the caller
    of the Go API gets the marks and spans of the crate, and where this fails.
  \<^item> \<open>Float64\<close>, \<open>Normalize\<close> and \<open>NormalizeSpec\<close> are the conversions between Go values and document values,
    with the IEEE arithmetic they need.
  \<^item> \<open>DebugChunk\<close> has the chunk transformations of the command, \<open>DebugPrint\<close> its printer; \<open>DebugListing\<close>
    and \<open>DebugFile\<close> show that the output lists every input byte once.

  \<^bold>\<open>Parameters.\<close> The automerge crate, the allocator of the guest, the wazero runtime, SHA-256, DEFLATE
  and UTF-8 validation in the debug tool, conversions of doubles that the language leaves
  open, the text that Rust prints for a double, the growth of Go's slices, random bytes and the
  clock are arguments. What a theorem needs of them is a hypothesis
  of the theorem; a witness instantiates it.

  \<^bold>\<open>Bounds.\<close> Loops are structural or have a measure. \<open>splitChangeChunks\<close>, which may not end, is a partial
  function into options. \<open>Value_Interface\<close> takes the depth of the stack as an argument. Lengths
  are natural numbers where the source's arithmetic cannot overflow and words elsewhere; the
  theorems about guest memory bound arguments by a number \<open>N\<close> of bytes below \<open>2 ^ 32\<close>, since
  \<open>writeBytes\<close> truncates longer ones; with room for three blocks of \<open>N\<close> bytes no call fails for lack of
  memory. JSON is read up to the nesting depth of 10000 that the package allows.

  \<^bold>\<open>Not modelled.\<close> The crate and the runtime themselves, the generated WebAssembly binary, vendored
  packages and tests; \<open>GoString\<close> and \<open>String\<close> methods, which only format values for debugging; the texts
  of the errors of \<open>encoding/json\<close>; goroutines that use one document at the same time, beyond what
  the lock excludes; values and types that refer to themselves in \<open>normalize.go\<close>.
\<close>

end
